(* ===== verification/Lending_Prelude.thy ===== *)
theory Lending_Prelude
  imports Main "HOL-Library.Multiset"
begin

text \<open>
  Shared vocabulary of the library-lending development.  The Python store keeps its
  books and users in plain lists and mutates the object that a linear search
  \<open>next((x for x in xs if x.id == k), None)\<close> returns.  In HOL the search is
  \<^const>\<open>List.find\<close> and the in-place mutation of the found object is
  \<open>upd_first\<close>: the first element satisfying the search predicate is replaced by its
  updated copy, every other element is kept.  The lemmas below say how searches,
  key lists and sums over the list behave under such an update; the component
  theories use them through the collection \<open>upd_first_simps\<close>.
\<close>

type_synonym ident = string

named_theorems upd_first_simps "rewrite rules for searching a list after an in-place update"

fun upd_first :: "('a \<Rightarrow> bool) \<Rightarrow> ('a \<Rightarrow> 'a) \<Rightarrow> 'a list \<Rightarrow> 'a list" where
  "upd_first P f [] = []"
| "upd_first P f (x # xs) = (if P x then f x # xs else x # upd_first P f xs)"

lemma upd_first_not_found [upd_first_simps]:
  "List.find P xs = None \<Longrightarrow> upd_first P f xs = xs"
  by (induction xs) auto

lemma upd_first_keys [upd_first_simps]:
  "(\<And>x. key (f x) = key x) \<Longrightarrow> map key (upd_first P f xs) = map key xs"
  by (induction xs) auto

lemma find_upd_first_same [upd_first_simps]:
  "(\<And>x. key (f x) = key x) \<Longrightarrow>
   List.find (\<lambda>x. key x = k) (upd_first (\<lambda>x. key x = k) f xs) =
   map_option f (List.find (\<lambda>x. key x = k) xs)"
  by (induction xs) auto

lemma find_upd_first_other [upd_first_simps]:
  "(\<And>x. key (f x) = key x) \<Longrightarrow> k' \<noteq> k \<Longrightarrow>
   List.find (\<lambda>x. key x = k') (upd_first (\<lambda>x. key x = k) f xs) =
   List.find (\<lambda>x. key x = k') xs"
  by (induction xs) auto

lemma upd_first_comp [upd_first_simps]:
  "(\<And>x. key (g x) = key x) \<Longrightarrow>
   upd_first (\<lambda>x. key x = k) f (upd_first (\<lambda>x. key x = k) g xs) =
   upd_first (\<lambda>x. key x = k) (f \<circ> g) xs"
  by (induction xs) auto

lemma upd_first_commute:
  "(\<And>x. key (f x) = key x) \<Longrightarrow> (\<And>x. key (g x) = key x) \<Longrightarrow> k \<noteq> k' \<Longrightarrow>
   upd_first (\<lambda>x. key x = k) f (upd_first (\<lambda>x. key x = k') g xs) =
   upd_first (\<lambda>x. key x = k') g (upd_first (\<lambda>x. key x = k) f xs)"
  by (induction xs) auto

lemma upd_first_ident:
  "(\<And>x. P x \<Longrightarrow> f x = x) \<Longrightarrow> upd_first P f xs = xs"
  by (induction xs) auto

lemma upd_first_fixed:
  "List.find P xs = Some x \<Longrightarrow> f x = x \<Longrightarrow> upd_first P f xs = xs"
  by (induction xs) (auto split: if_splits)

lemma map_upd_first_inv:
  "(\<And>x. P x \<Longrightarrow> g (f x) = g x) \<Longrightarrow> map g (upd_first P f xs) = map g xs"
  by (induction xs) auto

lemma map_upd_first_found:
  "List.find P xs = Some x \<Longrightarrow> g (f x) = g x \<Longrightarrow> map g (upd_first P f xs) = map g xs"
  by (induction xs) (auto split: if_splits)

lemma upd_first_cong:
  "(\<And>x. P x \<Longrightarrow> f x = g x) \<Longrightarrow> upd_first P f xs = upd_first P g xs"
  by (induction xs) auto

lemma set_upd_first:
  "y \<in> set (upd_first P f xs) \<Longrightarrow> y \<in> set xs \<or> (\<exists>x. List.find P xs = Some x \<and> y = f x)"
  by (induction xs) auto

lemma sum_list_upd_first:
  fixes g :: "'a \<Rightarrow> 'b::comm_monoid_add"
  shows "List.find P xs = Some x \<Longrightarrow>
    sum_list (map g (upd_first P f xs)) + g x = sum_list (map g xs) + g (f x)"
  by (induction xs) (auto simp: ac_simps split: if_splits)

lemma find_key_Some [dest]:
  "List.find (\<lambda>x. key x = k) xs = Some x \<Longrightarrow> key x = k \<and> x \<in> set xs"
  by (induction xs) (auto split: if_splits)

lemma find_key_distinct:
  "distinct (map key xs) \<Longrightarrow> x \<in> set xs \<Longrightarrow> List.find (\<lambda>y. key y = key x) xs = Some x"
  by (induction xs) (auto simp: image_iff)

lemma find_key_None_iff:
  "List.find (\<lambda>x. key x = k) xs = None \<longleftrightarrow> k \<notin> set (map key xs)"
  by (induction xs) auto

lemma find_append_single:
  "List.find P (xs @ [x]) = (case List.find P xs of None \<Rightarrow> if P x then Some x else None | Some y \<Rightarrow> Some y)"
  by (induction xs) auto

subsection \<open>Lists used as Python lists and deques\<close>

text \<open>
  \<open>xs.remove(x)\<close> deletes the first occurrence, which is \<^const>\<open>remove1\<close>;
  \<open>count_list\<close> counts occurrences (the library's \<open>count_list_remove1\<close> relates them).
\<close>

lemma count_list_remove1_in:
  "a \<in> set xs \<Longrightarrow> Suc (count_list (remove1 a xs) a) = count_list xs a"
  by (induction xs) auto

lemma int_count_list_remove1:
  "a \<in> set xs \<Longrightarrow> int (count_list (remove1 a xs) y) = int (count_list xs y) - (if a = y then 1 else 0)"
  by (induction xs) auto

lemma count_list_pos_iff:
  "0 < count_list xs a \<longleftrightarrow> a \<in> set xs"
  by (induction xs) auto

end
