(* ===== verification/Book.thy ===== *)
theory Book
  imports Lending_Prelude
begin

text \<open>
  The catalog entry of \<open>src/controllers/book.py\<close>.  The dataclass \<open>Book\<close> becomes a
  record with one field per attribute, in the source's order.  The identifier field is
  called \<open>bk_id\<close> (a record field is a constant, and \<open>id\<close> is taken).  Python's
  unbounded \<open>int\<close> is \<^typ>\<open>int\<close>, so a negative copy count stays representable,
  as it is in the source.  The reservation \<open>deque\<close> is a list with its left end
  first: \<open>append\<close> is \<open>xs @ [x]\<close>, \<open>popleft\<close> takes the head and
  \<open>appendleft\<close> is \<open>x # xs\<close>.
\<close>

record book =
  bk_id :: ident
  title :: string
  author :: string
  year :: int
  copies_total :: int
  copies_available :: int
  reservations :: "ident list"

text \<open>
  The generated constructor takes every field but \<open>copies_available\<close>
  (\<open>field(init=False)\<close>), gives \<open>reservations\<close> an empty deque, and
  \<open>__post_init__\<close> sets \<open>copies_available\<close> to \<open>copies_total\<close>.
\<close>

definition mk_book :: "ident \<Rightarrow> string \<Rightarrow> string \<Rightarrow> int \<Rightarrow> int \<Rightarrow> book" where
  "mk_book i t a y c =
     \<lparr>bk_id = i, title = t, author = a, year = y, copies_total = c,
      copies_available = c, reservations = []\<rparr>"

lemma mk_book_fields [simp]:
  "bk_id (mk_book i t a y c) = i" "title (mk_book i t a y c) = t"
  "copies_total (mk_book i t a y c) = c" "copies_available (mk_book i t a y c) = c"
  "reservations (mk_book i t a y c) = []"
  by (simp_all add: mk_book_def)

end
