(* ===== verification/User.thy ===== *)
theory User
  imports Lending_Prelude
begin

text \<open>
  The member record.  \<open>src/controllers/store.py\<close> and
  \<open>src/models/library_controller.py\<close> import \<open>User\<close> from
  \<open>controllers/user.py\<close>, which is not part of the sources; the record follows the
  specification's data model (identifier, name, e-mail and the ordered sequence of
  borrowed book identifiers) and the way the store uses it: \<open>user.id\<close>,
  \<open>user.name\<close> and the list \<open>user.borrowed\<close>, created empty by
  \<open>User(id=..., name=..., email=...)\<close>.
\<close>

record user =
  us_id :: ident
  name :: string
  email :: string
  borrowed :: "ident list"

definition mk_user :: "ident \<Rightarrow> string \<Rightarrow> string \<Rightarrow> user" where
  "mk_user i n e = \<lparr>us_id = i, name = n, email = e, borrowed = []\<rparr>"

lemma mk_user_fields [simp]:
  "us_id (mk_user i n e) = i" "name (mk_user i n e) = n" "borrowed (mk_user i n e) = []"
  by (simp_all add: mk_user_def)

end
