(* ===== verification/Store_Registry.thy ===== *)
theory Store_Registry
  imports Book User
begin

text \<open>
  The state of \<open>LibraryStore\<close> (\<open>src/controllers/store.py\<close>) and its registration
  half: the two lookup helpers \<open>find_book\<close> and \<open>find_user\<close> and the commands
  \<open>add_book\<close> and \<open>add_user\<close>.  The store's three attributes become the fields of
  \<open>library_store\<close>; the undo stack is a Python list used with \<open>append\<close> and
  \<open>pop()\<close>, so its top is the last element.  An undo entry is one of the two
  dictionaries the store pushes, \<open>{"op": "borrow", ...}\<close> or
  \<open>{"op": "return", ..., "autoloan_to_next": ...}\<close>.  Every command returns the
  message it builds; a message is a value of \<open>msg\<close>, one constructor per
  \<open>return f"..."\<close> of the source, carrying the values the f-string interpolates.

  Mutating the object a lookup returned is \<open>update_book\<close> / \<open>update_user\<close>: the
  first entry with the identifier is replaced by its updated copy (\<open>upd_first\<close>).
\<close>

datatype undo_rec =
    OpBorrow ident ident  \<comment> \<open>user id, book id\<close>
  | OpReturn ident ident "ident option"  \<comment> \<open>user id, book id, \<open>autoloan_to_next\<close>\<close>

datatype auto_note =
    NoReservation  \<comment> \<open>\<open>msg_auto = ""\<close>\<close>
  | AutoAssigned string  \<comment> \<open>re-lent to the named user\<close>
  | NextGone  \<comment> \<open>the popped user no longer exists\<close>

datatype msg =
    BookExists ident | BookAdded string
  | UserExists ident | UserAdded string
  | UserNotFound ident | BookNotFound ident
  | Lent string string int  \<comment> \<open>title, user name, copies left\<close>
  | AlreadyQueued string string  \<comment> \<open>user name, title\<close>
  | Queued string string nat  \<comment> \<open>user name, title, position in the queue\<close>
  | NotBorrowed string string  \<comment> \<open>user name, title\<close>
  | Returned string auto_note int  \<comment> \<open>title, promotion note, copies left\<close>
  | NothingToUndo
  | UndoneBorrow string string  \<comment> \<open>title, user name\<close>
  | UndoBorrowFailed
  | UndoReturnFailed
  | UndoneReturn string string  \<comment> \<open>title, user name\<close>
  | UndoNoCopy

record library_store =
  books :: "book list"
  users :: "user list"
  undo_stack :: "undo_rec list"

definition empty_store :: library_store where
  "empty_store = \<lparr>books = [], users = [], undo_stack = []\<rparr>"

definition find_book :: "library_store \<Rightarrow> ident \<Rightarrow> book option" where
  "find_book s book_id = List.find (\<lambda>b. bk_id b = book_id) (books s)"

definition find_user :: "library_store \<Rightarrow> ident \<Rightarrow> user option" where
  "find_user s user_id = List.find (\<lambda>u. us_id u = user_id) (users s)"

definition update_book :: "ident \<Rightarrow> (book \<Rightarrow> book) \<Rightarrow> library_store \<Rightarrow> library_store" where
  "update_book book_id f s = s\<lparr>books := upd_first (\<lambda>b. bk_id b = book_id) f (books s)\<rparr>"

definition update_user :: "ident \<Rightarrow> (user \<Rightarrow> user) \<Rightarrow> library_store \<Rightarrow> library_store" where
  "update_user user_id f s = s\<lparr>users := upd_first (\<lambda>u. us_id u = user_id) f (users s)\<rparr>"

definition push_undo :: "undo_rec \<Rightarrow> library_store \<Rightarrow> library_store" where
  "push_undo r s = s\<lparr>undo_stack := undo_stack s @ [r]\<rparr>"

definition add_book :: "library_store \<Rightarrow> book \<Rightarrow> msg \<times> library_store" where
  "add_book s b =
     (case find_book s (bk_id b) of
        Some _ \<Rightarrow> (BookExists (bk_id b), s)
      | None \<Rightarrow> (BookAdded (title b), s\<lparr>books := books s @ [b]\<rparr>))"

definition add_user :: "library_store \<Rightarrow> user \<Rightarrow> msg \<times> library_store" where
  "add_user s u =
     (case find_user s (us_id u) of
        Some _ \<Rightarrow> (UserExists (us_id u), s)
      | None \<Rightarrow> (UserAdded (name u), s\<lparr>users := users s @ [u]\<rparr>))"

subsection \<open>Lookups after an update\<close>

lemma store_fields_update [simp]:
  "users (update_book k f s) = users s" "undo_stack (update_book k f s) = undo_stack s"
  "books (update_user k g s) = books s" "undo_stack (update_user k g s) = undo_stack s"
  "books (push_undo r s) = books s" "users (push_undo r s) = users s"
  "undo_stack (push_undo r s) = undo_stack s @ [r]"
  by (simp_all add: update_book_def update_user_def push_undo_def)

lemma store_lists_update:
  "books (update_book k f s) = upd_first (\<lambda>b. bk_id b = k) f (books s)"
  "users (update_user k g s) = upd_first (\<lambda>u. us_id u = k) g (users s)"
  by (simp_all add: update_book_def update_user_def)

lemma pop_push_undo [simp]:
  "(push_undo r s)\<lparr>undo_stack := undo_stack s\<rparr> = s"
  by (simp add: push_undo_def)

lemma find_book_update_book [simp]:
  "(\<And>b. bk_id (f b) = bk_id b) \<Longrightarrow>
   find_book (update_book k f s) k' = (if k' = k then map_option f (find_book s k) else find_book s k')"
  by (simp add: find_book_def update_book_def upd_first_simps)

lemma find_user_update_user [simp]:
  "(\<And>u. us_id (g u) = us_id u) \<Longrightarrow>
   find_user (update_user k g s) k' = (if k' = k then map_option g (find_user s k) else find_user s k')"
  by (simp add: find_user_def update_user_def upd_first_simps)

lemma find_cross_update [simp]:
  "find_user (update_book k f s) k' = find_user s k'"
  "find_book (update_user k g s) k' = find_book s k'"
  "find_book (push_undo r s) k' = find_book s k'" "find_user (push_undo r s) k' = find_user s k'"
  by (simp_all add: find_book_def find_user_def)

lemma find_stack_update [simp]:
  "find_book (s\<lparr>undo_stack := st\<rparr>) k = find_book s k" "find_user (s\<lparr>undo_stack := st\<rparr>) k = find_user s k"
  by (simp_all add: find_book_def find_user_def)

lemma update_book_missing:
  "find_book s k = None \<Longrightarrow> update_book k f s = s"
  by (simp add: find_book_def update_book_def upd_first_simps)

lemma update_user_missing:
  "find_user s k = None \<Longrightarrow> update_user k g s = s"
  by (simp add: find_user_def update_user_def upd_first_simps)

lemma find_book_Some_id:
  "find_book s k = Some b \<Longrightarrow> bk_id b = k \<and> b \<in> set (books s)"
  by (auto simp: find_book_def)

lemma find_user_Some_id:
  "find_user s k = Some u \<Longrightarrow> us_id u = k \<and> u \<in> set (users s)"
  by (auto simp: find_user_def)

end
