(* ===== verification/Lending_Engine.thy ===== *)
theory Lending_Engine
  imports Store_Registry
begin

text \<open>
  The lending half of \<open>LibraryStore\<close> (\<open>src/controllers/store.py\<close>, lines 31-92):
  \<open>borrow_book\<close>, \<open>return_book\<close> and \<open>undo_last\<close>.  Each is a function from the
  store to the message and the new store.  Every early \<open>return\<close> of the source is a
  branch that returns the store unchanged (or, for \<open>undo_last\<close>, with the popped
  entry gone), and every statement that mutates an object is an \<open>update_book\<close>,
  \<open>update_user\<close> or \<open>push_undo\<close> in the source's order.  Each lookup is
  performed on the store as it is at that point of the method, so an alias (the
  returning user being also the next one in the queue) is handled as Python handles
  it.
\<close>

definition borrow_book :: "library_store \<Rightarrow> ident \<Rightarrow> ident \<Rightarrow> msg \<times> library_store" where
  "borrow_book s user_id book_id =
     (case (find_user s user_id, find_book s book_id) of
        (None, _) \<Rightarrow> (UserNotFound user_id, s)
      | (Some u, None) \<Rightarrow> (BookNotFound book_id, s)
      | (Some u, Some b) \<Rightarrow>
          if 0 < copies_available b then
            (Lent (title b) (name u) (copies_available b - 1),
             push_undo (OpBorrow user_id book_id)
               (update_user user_id (\<lambda>u. u\<lparr>borrowed := borrowed u @ [bk_id b]\<rparr>)
                 (update_book book_id (\<lambda>b. b\<lparr>copies_available := copies_available b - 1\<rparr>) s)))
          else if user_id \<in> set (reservations b) then (AlreadyQueued (name u) (title b), s)
          else (Queued (name u) (title b) (Suc (length (reservations b))),
                update_book book_id (\<lambda>b. b\<lparr>reservations := reservations b @ [user_id]\<rparr>) s))"

definition return_book :: "library_store \<Rightarrow> ident \<Rightarrow> ident \<Rightarrow> msg \<times> library_store" where
  "return_book s user_id book_id =
     (case (find_user s user_id, find_book s book_id) of
        (None, _) \<Rightarrow> (UserNotFound user_id, s)
      | (Some u, None) \<Rightarrow> (BookNotFound book_id, s)
      | (Some u, Some b) \<Rightarrow>
          if book_id \<notin> set (borrowed u) then (NotBorrowed (name u) (title b), s)
          else
            let s1 = update_book book_id (\<lambda>b. b\<lparr>copies_available := copies_available b + 1\<rparr>)
                       (update_user user_id (\<lambda>u. u\<lparr>borrowed := remove1 book_id (borrowed u)\<rparr>) s)
            in (case reservations b of
                  [] \<Rightarrow> (Returned (title b) NoReservation (copies_available b + 1),
                         push_undo (OpReturn user_id book_id None) s1)
                | next_user_id # rest \<Rightarrow>
                    let s2 = update_book book_id (\<lambda>b. b\<lparr>reservations := rest\<rparr>) s1
                    in (case find_user s2 next_user_id of
                          Some nu \<Rightarrow>
                            (Returned (title b) (AutoAssigned (name nu)) (copies_available b),
                             push_undo (OpReturn user_id book_id (Some next_user_id))
                               (update_user next_user_id (\<lambda>u. u\<lparr>borrowed := borrowed u @ [bk_id b]\<rparr>)
                                 (update_book book_id
                                    (\<lambda>b. b\<lparr>copies_available := copies_available b - 1\<rparr>) s2)))
                        | None \<Rightarrow>
                            (Returned (title b) NextGone (copies_available b + 1),
                             push_undo (OpReturn user_id book_id None) s2))))"

text \<open>
  Step 1 of undoing a return (lines 80-86): only when \<open>autoloan_to_next\<close> is
  truthy, which for a Python string means \<open>Some\<close> of a non-empty string, and the
  promoted user still holds the book, take the copy back from that user, put the user
  back at the front of the queue and give the copy back to the shelf.  The flag says
  whether this happened.
\<close>

definition reclaim_autoloan :: "ident \<Rightarrow> ident option \<Rightarrow> library_store \<Rightarrow> bool \<times> library_store" where
  "reclaim_autoloan book_id next_user_id s =
     (case next_user_id of
        None \<Rightarrow> (False, s)
      | Some nu \<Rightarrow>
          if nu = [] then (False, s)
          else (case find_user s nu of
                  Some v \<Rightarrow>
                    if book_id \<in> set (borrowed v) then
                      (True,
                       update_book book_id (\<lambda>b. b\<lparr>copies_available := copies_available b + 1\<rparr>)
                         (update_book book_id (\<lambda>b. b\<lparr>reservations := nu # reservations b\<rparr>)
                           (update_user nu (\<lambda>v. v\<lparr>borrowed := remove1 book_id (borrowed v)\<rparr>) s)))
                    else (False, s)
                | None \<Rightarrow> (False, s)))"

definition undo_last :: "library_store \<Rightarrow> msg \<times> library_store" where
  "undo_last s =
     (if undo_stack s = [] then (NothingToUndo, s)
      else
        let s0 = s\<lparr>undo_stack := butlast (undo_stack s)\<rparr>
        in (case last (undo_stack s) of
              OpBorrow user_id book_id \<Rightarrow>
                (case (find_user s0 user_id, find_book s0 book_id) of
                   (Some u, Some b) \<Rightarrow>
                     if bk_id b \<in> set (borrowed u) then
                       (UndoneBorrow (title b) (name u),
                        update_book book_id (\<lambda>b. b\<lparr>copies_available := copies_available b + 1\<rparr>)
                          (update_user user_id (\<lambda>u. u\<lparr>borrowed := remove1 (bk_id b) (borrowed u)\<rparr>) s0))
                     else (UndoBorrowFailed, s0)
                 | _ \<Rightarrow> (UndoBorrowFailed, s0))
            | OpReturn user_id book_id next_user_id \<Rightarrow>
                (case (find_user s0 user_id, find_book s0 book_id) of
                   (Some u, Some b) \<Rightarrow>
                     (let (reclaimed, s1) = reclaim_autoloan book_id next_user_id s0;
                          avail = copies_available b + (if reclaimed then 1 else 0)
                      in if 0 < avail then
                           (UndoneReturn (title b) (name u),
                            update_user user_id (\<lambda>u. u\<lparr>borrowed := borrowed u @ [bk_id b]\<rparr>)
                              (update_book book_id (\<lambda>b. b\<lparr>copies_available := copies_available b - 1\<rparr>) s1))
                         else (UndoNoCopy, s1))
                 | _ \<Rightarrow> (UndoReturnFailed, s0))))"

subsection \<open>Borrowing and returning, branch by branch\<close>


text \<open>C3: borrowing a book that has a copy on the shelf takes one copy off the shelf, appends the book to the user's holdings, pushes a borrow entry on the undo stack and touches no other book or user.\<close>

lemma borrow_book_available:
  assumes "find_user s uid = Some u" "find_book s bid = Some b" "0 < copies_available b"
  shows "fst (borrow_book s uid bid) = Lent (title b) (name u) (copies_available b - 1)
    \<and> find_book (snd (borrow_book s uid bid)) bid = Some (b\<lparr>copies_available := copies_available b - 1\<rparr>)
    \<and> find_user (snd (borrow_book s uid bid)) uid = Some (u\<lparr>borrowed := borrowed u @ [bid]\<rparr>)
    \<and> undo_stack (snd (borrow_book s uid bid)) = undo_stack s @ [OpBorrow uid bid]
    \<and> (\<forall>k. k \<noteq> bid \<longrightarrow> find_book (snd (borrow_book s uid bid)) k = find_book s k)
    \<and> (\<forall>k. k \<noteq> uid \<longrightarrow> find_user (snd (borrow_book s uid bid)) k = find_user s k)"
  using assms find_book_Some_id[OF assms(2)] by (simp add: borrow_book_def)

text \<open>C4: borrowing a book with no copy on the shelf never changes availability, holdings or the undo stack; it appends the user to the reservation queue, or reports that the user is already in it, and reports the new queue length as the position.\<close>

lemma borrow_book_unavailable:
  assumes "find_user s uid = Some u" "find_book s bid = Some b" "\<not> 0 < copies_available b"
  shows "fst (borrow_book s uid bid) =
       (if uid \<in> set (reservations b) then AlreadyQueued (name u) (title b)
        else Queued (name u) (title b) (Suc (length (reservations b))))
    \<and> find_book (snd (borrow_book s uid bid)) bid =
       Some (b\<lparr>reservations := (if uid \<in> set (reservations b) then reservations b else reservations b @ [uid])\<rparr>)
    \<and> (\<forall>k. k \<noteq> bid \<longrightarrow> find_book (snd (borrow_book s uid bid)) k = find_book s k)
    \<and> users (snd (borrow_book s uid bid)) = users s
    \<and> undo_stack (snd (borrow_book s uid bid)) = undo_stack s"
  using assms by (simp add: borrow_book_def)

text \<open>C5: returning a held book with an empty reservation queue puts one copy back on the shelf, removes the book from the user's holdings and pushes a return entry with no promotion.\<close>

lemma return_book_no_reservation:
  assumes "find_user s uid = Some u" "find_book s bid = Some b" "bid \<in> set (borrowed u)"
    and "reservations b = []"
  shows "fst (return_book s uid bid) = Returned (title b) NoReservation (copies_available b + 1)
    \<and> find_book (snd (return_book s uid bid)) bid = Some (b\<lparr>copies_available := copies_available b + 1\<rparr>)
    \<and> find_user (snd (return_book s uid bid)) uid = Some (u\<lparr>borrowed := remove1 bid (borrowed u)\<rparr>)
    \<and> undo_stack (snd (return_book s uid bid)) = undo_stack s @ [OpReturn uid bid None]
    \<and> (\<forall>k. k \<noteq> bid \<longrightarrow> find_book (snd (return_book s uid bid)) k = find_book s k)
    \<and> (\<forall>k. k \<noteq> uid \<longrightarrow> find_user (snd (return_book s uid bid)) k = find_user s k)"
  using assms by (simp add: return_book_def)

text \<open>C6: returning a held book whose queue is not empty pops the head of the queue and, when that user exists, lends the copy to them at once: availability ends where it was, the promoted user holds the book, and the undo entry records the promotion.\<close>

lemma return_book_promotes:
  assumes "find_user s uid = Some u" "find_book s bid = Some b" "bid \<in> set (borrowed u)"
    and "reservations b = nu # rest" "find_user s nu = Some v"
  shows "fst (return_book s uid bid) = Returned (title b) (AutoAssigned (name v)) (copies_available b)
    \<and> find_book (snd (return_book s uid bid)) bid = Some (b\<lparr>reservations := rest\<rparr>)
    \<and> find_user (snd (return_book s uid bid)) nu =
        Some (if nu = uid then u\<lparr>borrowed := remove1 bid (borrowed u) @ [bid]\<rparr>
              else v\<lparr>borrowed := borrowed v @ [bid]\<rparr>)
    \<and> (nu \<noteq> uid \<longrightarrow> find_user (snd (return_book s uid bid)) uid = Some (u\<lparr>borrowed := remove1 bid (borrowed u)\<rparr>))
    \<and> undo_stack (snd (return_book s uid bid)) = undo_stack s @ [OpReturn uid bid (Some nu)]
    \<and> (\<forall>k. k \<noteq> bid \<longrightarrow> find_book (snd (return_book s uid bid)) k = find_book s k)
    \<and> (\<forall>k. k \<noteq> uid \<and> k \<noteq> nu \<longrightarrow> find_user (snd (return_book s uid bid)) k = find_user s k)"
proof -
  have "bk_id b = bid" using find_book_Some_id[OF assms(2)] by simp
  moreover have "nu = uid \<Longrightarrow> v = u" using assms(1,5) by simp
  ultimately show ?thesis using assms by (auto simp: return_book_def)
qed

text \<open>when the user popped from the queue does not exist, the reservation is dropped and the return is a plain return: one more copy on the shelf, and an undo entry without promotion.\<close>

lemma return_book_next_gone:
  assumes "find_user s uid = Some u" "find_book s bid = Some b" "bid \<in> set (borrowed u)"
    and "reservations b = nu # rest" "find_user s nu = None"
  shows "fst (return_book s uid bid) = Returned (title b) NextGone (copies_available b + 1)
    \<and> find_book (snd (return_book s uid bid)) bid =
        Some (b\<lparr>copies_available := copies_available b + 1, reservations := rest\<rparr>)
    \<and> find_user (snd (return_book s uid bid)) uid = Some (u\<lparr>borrowed := remove1 bid (borrowed u)\<rparr>)
    \<and> undo_stack (snd (return_book s uid bid)) = undo_stack s @ [OpReturn uid bid None]"
proof -
  have "nu \<noteq> uid" using assms(1,5) by auto
  then show ?thesis using assms by (simp add: return_book_def)
qed


subsection \<open>Failures leave the store unchanged\<close>

text \<open>C9: a borrow or a return naming an unknown user or book reports which lookup failed, the user first, and changes nothing.\<close>

lemma lending_lookup_failure:
  assumes "find_user s uid = None \<or> find_book s bid = None"
  shows "borrow_book s uid bid = return_book s uid bid
    \<and> snd (borrow_book s uid bid) = s
    \<and> fst (borrow_book s uid bid) = (if find_user s uid = None then UserNotFound uid else BookNotFound bid)"
  using assms by (auto simp: borrow_book_def return_book_def split: option.splits)

text \<open>C10: returning a book the user does not hold reports \<open>NotBorrowed\<close> and changes nothing (the specification's Scenario D).\<close>

lemma return_book_not_borrowed:
  assumes "find_user s uid = Some u" "find_book s bid = Some b" "bid \<notin> set (borrowed u)"
  shows "return_book s uid bid = (NotBorrowed (name u) (title b), s)"
  using assms by (simp add: return_book_def)


subsection \<open>The undo stack\<close>

text \<open>Undo always pops exactly one entry, whatever happens to it.\<close>

lemma undo_last_stack:
  "undo_stack s \<noteq> [] \<Longrightarrow> undo_stack (snd (undo_last s)) = butlast (undo_stack s)"
  by (auto simp: undo_last_def reclaim_autoloan_def Let_def split: undo_rec.splits option.splits prod.splits)

lemma undo_last_empty:
  "undo_stack s = [] \<Longrightarrow> undo_last s = (NothingToUndo, s)"
  by (simp add: undo_last_def)

end
