(* ===== verification/Undo_Roundtrip.thy ===== *)
theory Undo_Roundtrip
  imports Lending_Engine
begin

text \<open>
  \<open>undo_last\<close> as the inverse of the operation it undoes.  Python lists keep the
  order in which a user borrowed books, and undo does not restore that order:
  \<open>user.borrowed.remove(b)\<close> deletes the first occurrence while the borrow appended
  at the end, and undoing a return appends at the end what the return deleted at the
  first occurrence.  What undo restores is the store up to the order of each
  \<open>borrowed\<close> list: \<open>store_view\<close> keeps the books, the undo stack and each member
  with the multiset of its holdings.  The theorems show that undoing a successful
  borrow restores that view, and that undoing a successful return restores it when
  the reservation it served (if any) names an existing user with a non-empty
  identifier; \<open>Spec2Isabelle\<close> shows why both conditions are needed.
\<close>

definition member_view :: "user \<Rightarrow> ident \<times> string \<times> string \<times> ident multiset" where
  "member_view u = (us_id u, name u, email u, mset (borrowed u))"

definition store_view :: "library_store \<Rightarrow> book list \<times> (ident \<times> string \<times> string \<times> ident multiset) list \<times> undo_rec list" where
  "store_view s = (books s, map member_view (users s), undo_stack s)"

lemma member_view_remove1_append:
  "bid \<in> set (borrowed u) \<Longrightarrow>
   member_view (u\<lparr>borrowed := remove1 bid (borrowed u) @ [bid]\<rparr>) = member_view u"
  "member_view (u\<lparr>borrowed := remove1 bid (borrowed u @ [bid])\<rparr>) = member_view u"
  by (simp_all add: member_view_def)

lemma undo_return_roundtrip_plain:
  assumes u: "find_user s uid = Some u" and b: "find_book s bid = Some b"
    and h: "bid \<in> set (borrowed u)" and a: "0 \<le> copies_available b" and q: "reservations b = []"
  shows "fst (undo_last (snd (return_book s uid bid))) = UndoneReturn (title b) (name u)
       \<and> store_view (snd (undo_last (snd (return_book s uid bid)))) = store_view s"
proof -
  have bid: "bk_id b = bid" using find_book_Some_id[OF b] by simp
  define s1 where "s1 = update_book bid (\<lambda>b. b\<lparr>copies_available := copies_available b + 1\<rparr>)
                       (update_user uid (\<lambda>u. u\<lparr>borrowed := remove1 bid (borrowed u)\<rparr>) s)"
  have t: "snd (return_book s uid bid) = push_undo (OpReturn uid bid None) s1"
    using u b h q by (simp add: return_book_def s1_def)
  have r: "undo_last (push_undo (OpReturn uid bid None) s1) =
     (UndoneReturn (title b) (name u),
      update_user uid (\<lambda>u. u\<lparr>borrowed := borrowed u @ [bid]\<rparr>)
        (update_book bid (\<lambda>b. b\<lparr>copies_available := copies_available b - 1\<rparr>) s1))"
  proof -
    have "find_user s1 uid = Some (u\<lparr>borrowed := remove1 bid (borrowed u)\<rparr>)"
      and "find_book s1 bid = Some (b\<lparr>copies_available := copies_available b + 1\<rparr>)"
      using u b by (simp_all add: s1_def)
    then show ?thesis using a bid by (simp add: undo_last_def reclaim_autoloan_def)
  qed
  have "books (update_user uid (\<lambda>u. u\<lparr>borrowed := borrowed u @ [bid]\<rparr>)
        (update_book bid (\<lambda>b. b\<lparr>copies_available := copies_available b - 1\<rparr>) s1)) = books s"
    by (simp add: s1_def store_lists_update upd_first_comp upd_first_ident)
  moreover have "map member_view (users (update_user uid (\<lambda>u. u\<lparr>borrowed := borrowed u @ [bid]\<rparr>)
        (update_book bid (\<lambda>b. b\<lparr>copies_available := copies_available b - 1\<rparr>) s1))) = map member_view (users s)"
  proof -
    have "users (update_user uid (\<lambda>u. u\<lparr>borrowed := borrowed u @ [bid]\<rparr>)
        (update_book bid (\<lambda>b. b\<lparr>copies_available := copies_available b - 1\<rparr>) s1)) =
        upd_first (\<lambda>x. us_id x = uid) (\<lambda>u. u\<lparr>borrowed := remove1 bid (borrowed u) @ [bid]\<rparr>) (users s)"
      by (simp add: s1_def store_lists_update upd_first_comp comp_def)
    moreover have "List.find (\<lambda>x. us_id x = uid) (users s) = Some u" using u by (simp add: find_user_def)
    ultimately show ?thesis using h
      by (simp add: map_upd_first_found member_view_def)
  qed
  ultimately show ?thesis using t r by (simp add: store_view_def s1_def)
qed


lemma undo_return_roundtrip_promoted:
  assumes u: "find_user s uid = Some u" and b: "find_book s bid = Some b"
    and h: "bid \<in> set (borrowed u)" and a: "0 \<le> copies_available b"
    and q: "reservations b = nu # rest" and nu: "nu \<noteq> []" and v: "find_user s nu = Some v"
  shows "fst (undo_last (snd (return_book s uid bid))) = UndoneReturn (title b) (name u)
       \<and> store_view (snd (undo_last (snd (return_book s uid bid)))) = store_view s"
proof -
  have bid: "bk_id b = bid" using find_book_Some_id[OF b] by simp
  have vu: "nu = uid \<Longrightarrow> v = u" using u v by simp
  define rmU where "rmU = (\<lambda>u::user. u\<lparr>borrowed := remove1 bid (borrowed u)\<rparr>)"
  define apU where "apU = (\<lambda>u::user. u\<lparr>borrowed := borrowed u @ [bid]\<rparr>)"
  define inc where "inc = (\<lambda>b::book. b\<lparr>copies_available := copies_available b + 1\<rparr>)"
  define dec where "dec = (\<lambda>b::book. b\<lparr>copies_available := copies_available b - 1\<rparr>)"
  define s1 where "s1 = update_book bid inc (update_user uid rmU s)"
  define s2 where "s2 = update_book bid (\<lambda>b. b\<lparr>reservations := rest\<rparr>) s1"
  define s3 where "s3 = update_user nu apU (update_book bid dec s2)"
  define s4 where "s4 = update_book bid inc (update_book bid (\<lambda>b. b\<lparr>reservations := nu # reservations b\<rparr>)
                          (update_user nu rmU s3))"
  have t: "snd (return_book s uid bid) = push_undo (OpReturn uid bid (Some nu)) s3"
    using u b h q v vu bid
    by (simp add: return_book_def s1_def s2_def s3_def rmU_def apU_def inc_def dec_def Let_def)
  have fu3: "find_user s3 uid = Some (if nu = uid then apU (rmU u) else rmU u)"
    using u vu by (cases "nu = uid") (simp_all add: s1_def s2_def s3_def rmU_def apU_def)
  have fv3: "find_user s3 nu = Some (apU (if nu = uid then rmU u else v))"
    using u v by (cases "nu = uid") (simp_all add: s1_def s2_def s3_def rmU_def apU_def)
  have fb3: "find_book s3 bid = Some (dec (b\<lparr>copies_available := copies_available b + 1, reservations := rest\<rparr>))"
    using b by (simp add: s1_def s2_def s3_def inc_def dec_def)
  have re: "reclaim_autoloan bid (Some nu) s3 = (True, s4)"
    using fv3 nu by (simp add: reclaim_autoloan_def s4_def apU_def rmU_def inc_def)
  have r: "undo_last (push_undo (OpReturn uid bid (Some nu)) s3) =
     (UndoneReturn (title b) (name u), update_user uid apU (update_book bid dec s4))"
    using fu3 fb3 re a bid by (simp add: undo_last_def dec_def apU_def rmU_def)
  have "books (update_user uid apU (update_book bid dec s4)) = books s"
  proof -
    have "books (update_user uid apU (update_book bid dec s4)) =
          upd_first (\<lambda>x. bk_id x = bid)
            (dec \<circ> inc \<circ> (\<lambda>b. b\<lparr>reservations := nu # reservations b\<rparr>) \<circ> dec \<circ> (\<lambda>b. b\<lparr>reservations := rest\<rparr>) \<circ> inc)
            (books s)"
      by (simp add: s1_def s2_def s3_def s4_def store_lists_update upd_first_comp inc_def dec_def comp_assoc)
    also have "\<dots> = books s"
      using b q by (intro upd_first_fixed[of _ _ b]) (simp_all add: find_book_def inc_def dec_def)
    finally show ?thesis .
  qed
  moreover have "map member_view (users (update_user uid apU (update_book bid dec s4))) = map member_view (users s)"
  proof (cases "nu = uid")
    case True
    have "users (update_user uid apU (update_book bid dec s4)) =
          upd_first (\<lambda>x. us_id x = uid) (apU \<circ> rmU \<circ> apU \<circ> rmU) (users s)"
      using True by (simp add: s1_def s2_def s3_def s4_def store_lists_update upd_first_comp rmU_def apU_def comp_assoc)
    moreover have "List.find (\<lambda>x. us_id x = uid) (users s) = Some u" using u by (simp add: find_user_def)
    ultimately show ?thesis using h
      by (simp add: map_upd_first_found member_view_def rmU_def apU_def)
  next
    case False
    have "users (update_user uid apU (update_book bid dec s4)) =
          upd_first (\<lambda>x. us_id x = uid) apU (upd_first (\<lambda>x. us_id x = nu) (rmU \<circ> apU)
            (upd_first (\<lambda>x. us_id x = uid) rmU (users s)))"
      by (simp add: s1_def s2_def s3_def s4_def store_lists_update upd_first_comp rmU_def apU_def)
    also have "\<dots> = upd_first (\<lambda>x. us_id x = uid) apU (upd_first (\<lambda>x. us_id x = uid) rmU
            (upd_first (\<lambda>x. us_id x = nu) (rmU \<circ> apU) (users s)))"
      using False by (subst upd_first_commute) (simp_all add: rmU_def apU_def)
    also have "\<dots> = upd_first (\<lambda>x. us_id x = uid) (apU \<circ> rmU)
            (upd_first (\<lambda>x. us_id x = nu) (rmU \<circ> apU) (users s))"
      by (simp add: upd_first_comp rmU_def)
    finally have eq: "users (update_user uid apU (update_book bid dec s4)) = \<dots>" .
    have fu: "List.find (\<lambda>x. us_id x = uid) (upd_first (\<lambda>x. us_id x = nu) (rmU \<circ> apU) (users s)) = Some u"
      using u False by (simp add: find_user_def upd_first_simps rmU_def apU_def)
    have "map member_view (upd_first (\<lambda>x. us_id x = uid) (apU \<circ> rmU)
            (upd_first (\<lambda>x. us_id x = nu) (rmU \<circ> apU) (users s))) =
          map member_view (upd_first (\<lambda>x. us_id x = nu) (rmU \<circ> apU) (users s))"
      using fu h by (simp add: map_upd_first_found member_view_def rmU_def apU_def)
    also have "\<dots> = map member_view (users s)"
      by (simp add: map_upd_first_inv member_view_def rmU_def apU_def)
    finally show ?thesis using eq by simp
  qed
  moreover have "undo_stack s4 = undo_stack s"
    by (simp add: s1_def s2_def s3_def s4_def)
  ultimately show ?thesis using t r by (simp add: store_view_def)
qed

lemma undo_borrow_view:
  assumes u: "find_user s uid = Some u" and b: "find_book s bid = Some b" and a: "0 < copies_available b"
  shows "fst (undo_last (snd (borrow_book s uid bid))) = UndoneBorrow (title b) (name u)
       \<and> store_view (snd (undo_last (snd (borrow_book s uid bid)))) = store_view s"
proof -
  have bid: "bk_id b = bid" using find_book_Some_id[OF b] by simp
  define g where "g = (\<lambda>u::user. u\<lparr>borrowed := borrowed u @ [bid]\<rparr>)"
  define f where "f = (\<lambda>b::book. b\<lparr>copies_available := copies_available b - 1\<rparr>)"
  define s1 where "s1 = update_user uid g (update_book bid f s)"
  have t: "borrow_book s uid bid = (Lent (title b) (name u) (copies_available b - 1), push_undo (OpBorrow uid bid) s1)"
    using u b a bid by (simp add: borrow_book_def s1_def f_def g_def)
  have fu: "find_user s1 uid = Some (g u)" and fb: "find_book s1 bid = Some (f b)"
    using u b by (simp_all add: s1_def f_def g_def)
  have r: "undo_last (push_undo (OpBorrow uid bid) s1) =
     (UndoneBorrow (title b) (name u),
      update_book bid (\<lambda>b. b\<lparr>copies_available := copies_available b + 1\<rparr>)
        (update_user uid (\<lambda>u. u\<lparr>borrowed := remove1 bid (borrowed u)\<rparr>) s1))"
    using fu fb bid by (simp add: undo_last_def push_undo_def f_def g_def)
  have "books (update_book bid (\<lambda>b. b\<lparr>copies_available := copies_available b + 1\<rparr>)
        (update_user uid (\<lambda>u. u\<lparr>borrowed := remove1 bid (borrowed u)\<rparr>) s1)) = books s"
    by (simp add: s1_def store_lists_update upd_first_comp f_def upd_first_ident)
  moreover have "map member_view (users (update_book bid (\<lambda>b. b\<lparr>copies_available := copies_available b + 1\<rparr>)
        (update_user uid (\<lambda>u. u\<lparr>borrowed := remove1 bid (borrowed u)\<rparr>) s1))) = map member_view (users s)"
    by (simp add: s1_def store_lists_update upd_first_comp g_def map_upd_first_inv member_view_def)
  moreover have "undo_stack s1 = undo_stack s" by (simp add: s1_def)
  ultimately show ?thesis using t r by (simp add: store_view_def)
qed

text \<open>C7: undoing a return restores the store, including the reservation queue and the holdings of the promoted user, provided the head of the queue (if any) has a non-empty identifier and exists.\<close>

theorem undo_return_roundtrip:
  assumes "find_user s uid = Some u" "find_book s bid = Some b"
    and "bid \<in> set (borrowed u)" "0 \<le> copies_available b"
    and "\<forall>nu rest. reservations b = nu # rest \<longrightarrow> nu \<noteq> [] \<and> find_user s nu \<noteq> None"
  shows "fst (undo_last (snd (return_book s uid bid))) = UndoneReturn (title b) (name u)
       \<and> store_view (snd (undo_last (snd (return_book s uid bid)))) = store_view s"
proof (cases "reservations b")
  case Nil
  with assms show ?thesis using undo_return_roundtrip_plain by blast
next
  case (Cons nu rest)
  with assms obtain v where "nu \<noteq> []" "find_user s nu = Some v" by auto
  with assms Cons show ?thesis
    using undo_return_roundtrip_promoted[where nu = nu and rest = rest and v = v] by blast
qed

text \<open>C8: a borrow with a copy on the shelf reports the loan, and undoing it reports the undone borrow, gives the copy back and restores the store.\<close>

theorem undo_borrow_roundtrip:
  assumes u: "find_user s uid = Some u" and b: "find_book s bid = Some b" and a: "0 < copies_available b"
  shows "fst (borrow_book s uid bid) = Lent (title b) (name u) (copies_available b - 1)
       \<and> fst (undo_last (snd (borrow_book s uid bid))) = UndoneBorrow (title b) (name u)
       \<and> store_view (snd (undo_last (snd (borrow_book s uid bid)))) = store_view s"
  using undo_borrow_view[OF u b a] u b a by (simp add: borrow_book_def)


end
