(* ===== verification/Store_Invariants.thy ===== *)
theory Store_Invariants
  imports Lending_Engine
begin

text \<open>
  The invariant every reachable store satisfies, and the step relation that defines
  reachability.  The store's commands are the five calls \<open>LibraryController\<close>
  (\<open>src/models/library_controller.py\<close>) makes: a registration builds a fresh
  \<open>Book\<close> or \<open>User\<close> object and hands it to the store, the lending commands pass the
  two identifiers through.  \<open>step\<close> dispatches one such call, \<open>run\<close> performs a
  sequence of them and collects the messages, and \<open>reachable\<close> is the least set of
  stores that holds the empty store \<open>LibraryStore()\<close> and is closed under
  \<open>step\<close>.

  The invariant \<open>store_inv\<close> says:
  \<^item> book and user identifiers are distinct;
  \<^item> for every book, available copies plus copies held by users equal the total
    (\<open>held\<close> counts occurrences of the book in all \<open>borrowed\<close> lists);
  \<^item> availability never drops below \<open>min 0 copies_total\<close>: below zero only for a
    book registered with a negative total, which the code accepts;
  \<^item> every reservation names a registered user, every held book a registered
    book, and every undo entry registered users and books.
  Each operation is shown to keep it through a few transfer lemmas: giving a copy
  back (\<open>inv_give_back\<close>), lending one (\<open>inv_lend\<close>), editing a reservation queue
  (\<open>inv_update_queue\<close>) and pushing or popping an undo entry.
\<close>

subsection \<open>The command interface, runs and reachable stores\<close>

datatype event =
    AddBook ident string string int int  \<comment> \<open>\<open>add_book(Book(id, title, author, year, copies))\<close>\<close>
  | AddUser ident string string  \<comment> \<open>\<open>add_user(User(id, name, email))\<close>\<close>
  | Borrow ident ident  \<comment> \<open>\<open>borrow_book(user_id, book_id)\<close>\<close>
  | Return ident ident  \<comment> \<open>\<open>return_book(user_id, book_id)\<close>\<close>
  | Undo  \<comment> \<open>\<open>undo_last()\<close>\<close>

fun step :: "library_store \<Rightarrow> event \<Rightarrow> msg \<times> library_store" where
  "step s (AddBook i t a y c) = add_book s (mk_book i t a y c)"
| "step s (AddUser i n e) = add_user s (mk_user i n e)"
| "step s (Borrow u b) = borrow_book s u b"
| "step s (Return u b) = return_book s u b"
| "step s Undo = undo_last s"

fun run :: "library_store \<Rightarrow> event list \<Rightarrow> msg list \<times> library_store" where
  "run s [] = ([], s)"
| "run s (e # es) = (let (m, s') = step s e; (ms, s'') = run s' es in (m # ms, s''))"

inductive reachable :: "library_store \<Rightarrow> bool" where
  init: "reachable empty_store"
| step: "reachable s \<Longrightarrow> reachable (snd (step s e))"

subsection \<open>The invariant\<close>

definition held :: "library_store \<Rightarrow> ident \<Rightarrow> nat" where
  "held s k = sum_list (map (\<lambda>u. count_list (borrowed u) k) (users s))"

fun undo_rec_known :: "library_store \<Rightarrow> undo_rec \<Rightarrow> bool" where
  "undo_rec_known s (OpBorrow u b) = (u \<in> set (map us_id (users s)) \<and> b \<in> set (map bk_id (books s)))"
| "undo_rec_known s (OpReturn u b nu) = (u \<in> set (map us_id (users s)) \<and> b \<in> set (map bk_id (books s))
     \<and> set_option nu \<subseteq> set (map us_id (users s)))"

definition book_ok :: "library_store \<Rightarrow> book \<Rightarrow> bool" where
  "book_ok s b \<longleftrightarrow> copies_available b + int (held s (bk_id b)) = copies_total b
     \<and> min 0 (copies_total b) \<le> copies_available b
     \<and> set (reservations b) \<subseteq> set (map us_id (users s))"

definition user_ok :: "library_store \<Rightarrow> user \<Rightarrow> bool" where
  "user_ok s u \<longleftrightarrow> set (borrowed u) \<subseteq> set (map bk_id (books s))"

definition store_inv :: "library_store \<Rightarrow> bool" where
  "store_inv s \<longleftrightarrow> distinct (map bk_id (books s)) \<and> distinct (map us_id (users s))
     \<and> (\<forall>b\<in>set (books s). book_ok s b) \<and> (\<forall>u\<in>set (users s). user_ok s u)
     \<and> (\<forall>r\<in>set (undo_stack s). undo_rec_known s r)"

lemma store_inv_find:
  "store_inv s \<longleftrightarrow> distinct (map bk_id (books s)) \<and> distinct (map us_id (users s))
     \<and> (\<forall>k b. find_book s k = Some b \<longrightarrow> book_ok s b) \<and> (\<forall>k u. find_user s k = Some u \<longrightarrow> user_ok s u)
     \<and> (\<forall>r\<in>set (undo_stack s). undo_rec_known s r)"
proof -
  have bk: "(\<forall>b\<in>set (books s). book_ok s b) \<longleftrightarrow> (\<forall>k b. find_book s k = Some b \<longrightarrow> book_ok s b)"
    if "distinct (map bk_id (books s))"
    using that find_key_distinct[of bk_id "books s"] by (fastforce simp: find_book_def)
  have us: "(\<forall>u\<in>set (users s). user_ok s u) \<longleftrightarrow> (\<forall>k u. find_user s k = Some u \<longrightarrow> user_ok s u)"
    if "distinct (map us_id (users s))"
    using that find_key_distinct[of us_id "users s"] by (fastforce simp: find_user_def)
  show ?thesis unfolding store_inv_def using bk us by blast
qed

lemma store_ids_update [simp]:
  "(\<And>b. bk_id (f b) = bk_id b) \<Longrightarrow> map bk_id (books (update_book k f s)) = map bk_id (books s)"
  "(\<And>u. us_id (g u) = us_id u) \<Longrightarrow> map us_id (users (update_user k g s)) = map us_id (users s)"
  by (simp_all add: store_lists_update upd_first_simps)

lemma held_update [simp]:
  "held (update_book k f s) = held s" "held (push_undo r s) = held s"
  "held (s\<lparr>undo_stack := st\<rparr>) = held s" "held (s\<lparr>books := bs\<rparr>) = held s"
  by (simp_all add: held_def fun_eq_iff)

lemma held_update_user:
  assumes "find_user s k = Some u"
  shows "int (held (update_user k g s) x) + int (count_list (borrowed u) x) =
         int (held s x) + int (count_list (borrowed (g u)) x)"
proof -
  have "List.find (\<lambda>u. us_id u = k) (users s) = Some u" using assms by (simp add: find_user_def)
  from sum_list_upd_first[OF this, of "\<lambda>u. count_list (borrowed u) x" g]
  show ?thesis by (simp add: held_def store_lists_update flip: of_nat_add)
qed

lemma update_book_user_commute:
  "update_book k f (update_user k' g s) = update_user k' g (update_book k f s)"
  by (simp add: update_book_def update_user_def)

lemma held_pos_avail:
  assumes "store_inv s" "find_book s bid = Some b" "find_user s uid = Some u" "bid \<in> set (borrowed u)"
  shows "0 \<le> copies_available b" "0 < held s bid"
proof -
  have "0 < count_list (borrowed u) bid" using assms(4) by (simp add: count_list_pos_iff)
  moreover have "int (held s bid) \<ge> int (count_list (borrowed u) bid)"
  proof -
    have "List.find (\<lambda>u. us_id u = uid) (users s) = Some u" using assms(3) by (simp add: find_user_def)
    then have "u \<in> set (users s)" by auto
    then show ?thesis unfolding held_def by (simp add: member_le_sum_list)
  qed
  ultimately show "0 < held s bid" by simp
  moreover have "book_ok s b" using assms(1,2) by (auto simp: store_inv_find)
  moreover have "bk_id b = bid" using find_book_Some_id[OF assms(2)] by simp
  ultimately show "0 \<le> copies_available b" by (auto simp: book_ok_def)
qed


lemma undo_rec_known_stack [simp]:
  "undo_rec_known (s\<lparr>undo_stack := st\<rparr>) r = undo_rec_known s r"
  by (cases r) simp_all

lemma undo_rec_known_mono:
  "undo_rec_known s r \<Longrightarrow> set (map bk_id (books s)) \<subseteq> set (map bk_id (books s')) \<Longrightarrow>
   set (map us_id (users s)) \<subseteq> set (map us_id (users s')) \<Longrightarrow> undo_rec_known s' r"
  by (cases r) auto

lemma undo_rec_known_cong:
  "map bk_id (books s') = map bk_id (books s) \<Longrightarrow> map us_id (users s') = map us_id (users s) \<Longrightarrow>
   undo_rec_known s' r = undo_rec_known s r"
  by (cases r) simp_all

lemma user_ok_cong:
  "map bk_id (books s') = map bk_id (books s) \<Longrightarrow> user_ok s' u = user_ok s u"
  by (simp add: user_ok_def)

lemma store_inv_transfer:
  assumes inv: "store_inv s"
    and ids: "map bk_id (books s') = map bk_id (books s)" "map us_id (users s') = map us_id (users s)"
    and bks: "\<And>k b'. find_book s' k = Some b' \<Longrightarrow> book_ok s' b'"
    and uss: "\<And>k u'. find_user s' k = Some u' \<Longrightarrow> user_ok s u'"
    and stk: "set (undo_stack s') \<subseteq> set (undo_stack s)"
  shows "store_inv s'"
proof -
  have "distinct (map bk_id (books s'))" "distinct (map us_id (users s'))"
    using inv ids by (simp_all add: store_inv_def)
  moreover have "\<forall>r\<in>set (undo_stack s'). undo_rec_known s' r"
    using inv stk undo_rec_known_cong[OF ids] by (auto simp: store_inv_def)
  ultimately show ?thesis
    using bks uss user_ok_cong[OF ids(1)] by (simp add: store_inv_find)
qed

lemma inv_give_back:
  assumes inv: "store_inv s" and u: "find_user s uid = Some u" and h: "bid \<in> set (borrowed u)"
  shows "store_inv (update_book bid (\<lambda>b. b\<lparr>copies_available := copies_available b + 1\<rparr>)
                     (update_user uid (\<lambda>u. u\<lparr>borrowed := remove1 bid (borrowed u)\<rparr>) s))"
    (is "store_inv ?s'")
proof (rule store_inv_transfer[OF inv])
  have hd: "int (held ?s' x) = int (held s x) - (if x = bid then 1 else 0)" for x
    using held_update_user[OF u, of "\<lambda>u. u\<lparr>borrowed := remove1 bid (borrowed u)\<rparr>" x] h
    by (simp del: count_list_remove1 add: int_count_list_remove1 split: if_splits)
  show "book_ok ?s' b'" if "find_book ?s' k = Some b'" for k b'
  proof (cases "k = bid")
    case True
    with that obtain b where b: "find_book s bid = Some b" and b': "b' = b\<lparr>copies_available := copies_available b + 1\<rparr>"
      by auto
    have "book_ok s b" using inv b by (auto simp: store_inv_find)
    moreover have "bk_id b = bid" using find_book_Some_id[OF b] by simp
    ultimately show ?thesis using b' hd[of bid] by (simp add: book_ok_def)
  next
    case False
    with that have b: "find_book s k = Some b'" by simp
    have "book_ok s b'" using inv b by (auto simp: store_inv_find)
    moreover have "bk_id b' \<noteq> bid" using find_book_Some_id[OF b] False by simp
    ultimately show ?thesis using hd[of "bk_id b'"] by (simp add: book_ok_def)
  qed
  show "user_ok s u'" if "find_user ?s' k = Some u'" for k u'
  proof (cases "k = uid")
    case True
    with that have "u' = u\<lparr>borrowed := remove1 bid (borrowed u)\<rparr>" using u by simp
    moreover have "user_ok s u" using inv u by (auto simp: store_inv_find)
    ultimately show ?thesis using set_remove1_subset by (fastforce simp: user_ok_def)
  next
    case False
    with that inv show ?thesis by (auto simp: store_inv_find)
  qed
qed simp_all


lemma inv_lend:
  assumes inv: "store_inv s" and u: "find_user s uid = Some u" and b: "find_book s bid = Some b"
    and a: "0 < copies_available b"
  shows "store_inv (update_user uid (\<lambda>u. u\<lparr>borrowed := borrowed u @ [bid]\<rparr>)
                     (update_book bid (\<lambda>b. b\<lparr>copies_available := copies_available b - 1\<rparr>) s))"
    (is "store_inv ?s'")
proof (rule store_inv_transfer[OF inv])
  have hd: "int (held ?s' x) = int (held s x) + (if x = bid then 1 else 0)" for x
    using held_update_user[of "update_book bid (\<lambda>b. b\<lparr>copies_available := copies_available b - 1\<rparr>) s" uid u
        "\<lambda>u. u\<lparr>borrowed := borrowed u @ [bid]\<rparr>" x] u
    by simp
  have bid: "bk_id b = bid" "bid \<in> set (map bk_id (books s))"
    using find_book_Some_id[OF b] by auto
  show "book_ok ?s' b'" if "find_book ?s' k = Some b'" for k b'
  proof (cases "k = bid")
    case True
    with that b have b': "b' = b\<lparr>copies_available := copies_available b - 1\<rparr>" by simp
    have "book_ok s b" using inv b by (auto simp: store_inv_find)
    then show ?thesis using b' hd[of bid] bid a by (simp add: book_ok_def)
  next
    case False
    with that have b: "find_book s k = Some b'" by simp
    have "book_ok s b'" using inv b by (auto simp: store_inv_find)
    moreover have "bk_id b' \<noteq> bid" using find_book_Some_id[OF b] False by simp
    ultimately show ?thesis using hd[of "bk_id b'"] by (simp add: book_ok_def)
  qed
  show "user_ok s u'" if "find_user ?s' k = Some u'" for k u'
  proof (cases "k = uid")
    case True
    with that u have "u' = u\<lparr>borrowed := borrowed u @ [bid]\<rparr>" by simp
    moreover have "user_ok s u" using inv u by (auto simp: store_inv_find)
    ultimately show ?thesis using bid by (simp add: user_ok_def)
  next
    case False
    with that inv show ?thesis by (auto simp: store_inv_find)
  qed
qed simp_all

lemma inv_update_queue:
  assumes inv: "store_inv s"
    and f: "\<And>b. bk_id (f b) = bk_id b \<and> copies_total (f b) = copies_total b
               \<and> copies_available (f b) = copies_available b"
    and q: "\<And>b. set (reservations (f b)) \<subseteq> set (reservations b) \<union> set (map us_id (users s))"
  shows "store_inv (update_book bid f s)"
proof (rule store_inv_transfer[OF inv])
  show "book_ok (update_book bid f s) b'" if "find_book (update_book bid f s) k = Some b'" for k b'
  proof (cases "k = bid")
    case True
    with that f obtain b where b: "find_book s bid = Some b" and b': "b' = f b" by auto
    have "book_ok s b" using inv b by (auto simp: store_inv_find)
    then show ?thesis using b' f[of b] q[of b] by (auto simp: book_ok_def)
  next
    case False
    with that f have "find_book s k = Some b'" by simp
    with inv show ?thesis by (auto simp: store_inv_find book_ok_def)
  qed
  show "user_ok s u'" if "find_user (update_book bid f s) k = Some u'" for k u'
    using that inv by (auto simp: store_inv_find)
qed (simp_all add: f)

lemma inv_push_undo:
  "store_inv s \<Longrightarrow> undo_rec_known s r \<Longrightarrow> store_inv (push_undo r s)"
  by (simp add: store_inv_def push_undo_def held_def book_ok_def user_ok_def)

lemma inv_pop_undo:
  "store_inv s \<Longrightarrow> store_inv (s\<lparr>undo_stack := butlast (undo_stack s)\<rparr>)"
  by (auto simp: store_inv_def held_def book_ok_def user_ok_def dest: in_set_butlastD)



lemma known_ids:
  "find_user s k = Some u \<Longrightarrow> k \<in> set (map us_id (users s))"
  "find_book s k = Some b \<Longrightarrow> k \<in> set (map bk_id (books s))"
  by (auto dest!: find_user_Some_id find_book_Some_id)

lemma reclaim_autoloan_inv:
  assumes inv: "store_inv s"
  shows "store_inv (snd (reclaim_autoloan bid nu s))"
proof (cases "\<exists>n v. nu = Some n \<and> n \<noteq> [] \<and> find_user s n = Some v \<and> bid \<in> set (borrowed v)")
  case False
  then have "snd (reclaim_autoloan bid nu s) = s"
    by (auto simp: reclaim_autoloan_def split: option.splits)
  with inv show ?thesis by simp
next
  case True
  then obtain n v where n: "nu = Some n" "n \<noteq> []" and v: "find_user s n = Some v" and h: "bid \<in> set (borrowed v)"
    by blast
  let ?q = "update_book bid (\<lambda>b. b\<lparr>reservations := n # reservations b\<rparr>) s"
  have "store_inv ?q"
    using inv known_ids(1)[OF v] by (intro inv_update_queue) auto
  moreover have "find_user ?q n = Some v" using v by simp
  ultimately have "store_inv (update_book bid (\<lambda>b. b\<lparr>copies_available := copies_available b + 1\<rparr>)
                     (update_user n (\<lambda>v. v\<lparr>borrowed := remove1 bid (borrowed v)\<rparr>) ?q))"
    using h by (rule inv_give_back)
  then show ?thesis using n v h by (simp add: reclaim_autoloan_def update_book_user_commute)
qed

lemma reclaim_autoloan_lookup:
  assumes "find_book s bid = Some b"
  shows "\<exists>b1. find_book (snd (reclaim_autoloan bid nu s)) bid = Some b1
           \<and> copies_available b1 = copies_available b + (if fst (reclaim_autoloan bid nu s) then 1 else 0)"
    and "find_user (snd (reclaim_autoloan bid nu s)) k = None \<longleftrightarrow> find_user s k = None"
  using assms by (auto simp: reclaim_autoloan_def split: option.splits)

lemma borrow_book_inv:
  assumes inv: "store_inv s"
  shows "store_inv (snd (borrow_book s uid bid))"
proof (cases "find_user s uid")
  case (Some u)
  show ?thesis
  proof (cases "find_book s bid")
    case (Some b)
    have bid: "bk_id b = bid" using find_book_Some_id[OF Some] by simp
    have ids: "uid \<in> set (map us_id (users s))" "bid \<in> set (map bk_id (books s))"
      using known_ids \<open>find_user s uid = Some u\<close> Some by auto
    show ?thesis
    proof (cases "0 < copies_available b")
      case True
      have "store_inv (update_user uid (\<lambda>u. u\<lparr>borrowed := borrowed u @ [bid]\<rparr>)
                     (update_book bid (\<lambda>b. b\<lparr>copies_available := copies_available b - 1\<rparr>) s))"
        using inv \<open>find_user s uid = Some u\<close> Some True by (rule inv_lend)
      then show ?thesis using \<open>find_user s uid = Some u\<close> Some True bid ids
        by (simp add: borrow_book_def inv_push_undo)
    next
      case False
      have "store_inv (update_book bid (\<lambda>b. b\<lparr>reservations := reservations b @ [uid]\<rparr>) s)"
        using inv ids by (intro inv_update_queue) auto
      with inv show ?thesis using \<open>find_user s uid = Some u\<close> Some False
        by (simp add: borrow_book_def)
    qed
  qed (use inv \<open>find_user s uid = Some u\<close> in \<open>simp add: borrow_book_def\<close>)
qed (use inv in \<open>simp add: borrow_book_def\<close>)

lemma return_book_inv:
  assumes inv: "store_inv s"
  shows "store_inv (snd (return_book s uid bid))"
proof (cases "\<exists>u b. find_user s uid = Some u \<and> find_book s bid = Some b \<and> bid \<in> set (borrowed u)")
  case False
  then have "snd (return_book s uid bid) = s" by (auto simp: return_book_def split: option.splits)
  with inv show ?thesis by simp
next
  case True
  then obtain u b where u: "find_user s uid = Some u" and b: "find_book s bid = Some b"
    and h: "bid \<in> set (borrowed u)" by blast
  have bid: "bk_id b = bid" using find_book_Some_id[OF b] by simp
  have ids: "uid \<in> set (map us_id (users s))" "bid \<in> set (map bk_id (books s))"
    using known_ids u b by auto
  have bok: "book_ok s b" using inv b by (auto simp: store_inv_find)
  define s1 where "s1 = update_book bid (\<lambda>b. b\<lparr>copies_available := copies_available b + 1\<rparr>)
                       (update_user uid (\<lambda>u. u\<lparr>borrowed := remove1 bid (borrowed u)\<rparr>) s)"
  have inv1: "store_inv s1" unfolding s1_def using inv u h by (rule inv_give_back)
  have ids1: "map us_id (users s1) = map us_id (users s)" "map bk_id (books s1) = map bk_id (books s)"
    by (simp_all add: s1_def)
  show ?thesis
  proof (cases "reservations b")
    case Nil
    then have "snd (return_book s uid bid) = push_undo (OpReturn uid bid None) s1"
      using u b h by (simp add: return_book_def s1_def)
    then show ?thesis using inv1 ids ids1 by (simp add: inv_push_undo)
  next
    case (Cons nu rest)
    define s2 where "s2 = update_book bid (\<lambda>b. b\<lparr>reservations := rest\<rparr>) s1"
    have "set rest \<subseteq> set (map us_id (users s1))" using bok Cons ids1 by (auto simp: book_ok_def)
    then have inv2: "store_inv s2" unfolding s2_def using inv1 by (intro inv_update_queue) auto
    have ids2: "map us_id (users s2) = map us_id (users s)" "map bk_id (books s2) = map bk_id (books s)"
      using ids1 by (simp_all add: s2_def)
    show ?thesis
    proof (cases "find_user s2 nu")
      case None
      then have "snd (return_book s uid bid) = push_undo (OpReturn uid bid None) s2"
        using u b h Cons by (simp add: return_book_def s1_def s2_def Let_def)
      then show ?thesis using inv2 ids ids2 by (simp add: inv_push_undo)
    next
      case (Some v)
      have b2: "find_book s2 bid = Some (b\<lparr>copies_available := copies_available b + 1, reservations := rest\<rparr>)"
        using b by (simp add: s1_def s2_def)
      have a0: "0 \<le> copies_available b" using held_pos_avail[OF inv b u h] by simp
      have inv3: "store_inv (update_user nu (\<lambda>u. u\<lparr>borrowed := borrowed u @ [bid]\<rparr>)
                     (update_book bid (\<lambda>b. b\<lparr>copies_available := copies_available b - 1\<rparr>) s2))"
        by (rule inv_lend[OF inv2 Some b2]) (simp add: a0)
      have "snd (return_book s uid bid) = push_undo (OpReturn uid bid (Some nu))
              (update_user nu (\<lambda>u. u\<lparr>borrowed := borrowed u @ [bid]\<rparr>)
                (update_book bid (\<lambda>b. b\<lparr>copies_available := copies_available b - 1\<rparr>) s2))"
        using u b h Cons Some bid by (simp add: return_book_def s1_def s2_def Let_def)
      moreover have "nu \<in> set (map us_id (users s))" using known_ids(1)[OF Some] ids2 by simp
      ultimately show ?thesis using inv3 ids ids2 by (simp add: inv_push_undo)
    qed
  qed
qed


lemma undo_last_inv:
  assumes inv: "store_inv s"
  shows "store_inv (snd (undo_last s))"
proof (cases "undo_stack s = []")
  case True
  with inv show ?thesis by (simp add: undo_last_def)
next
  case False
  define s0 where "s0 = s\<lparr>undo_stack := butlast (undo_stack s)\<rparr>"
  have inv0: "store_inv s0" unfolding s0_def using inv by (rule inv_pop_undo)
  show ?thesis
  proof (cases "last (undo_stack s)")
    case (OpBorrow uid bid)
    show ?thesis
    proof (cases "\<exists>u b. find_user s0 uid = Some u \<and> find_book s0 bid = Some b \<and> bk_id b \<in> set (borrowed u)")
      case True
      then obtain u b where u: "find_user s0 uid = Some u" and b: "find_book s0 bid = Some b"
        and h: "bk_id b \<in> set (borrowed u)" by blast
      have bid: "bk_id b = bid" using find_book_Some_id[OF b] by simp
      have "store_inv (update_book bid (\<lambda>b. b\<lparr>copies_available := copies_available b + 1\<rparr>)
                     (update_user uid (\<lambda>u. u\<lparr>borrowed := remove1 bid (borrowed u)\<rparr>) s0))"
        using inv0 u h bid by (intro inv_give_back) simp_all
      then show ?thesis using False OpBorrow u b h bid by (simp add: undo_last_def s0_def)
    next
      case nf: False
      then have "snd (undo_last s) = s0" using False OpBorrow
        by (auto simp: undo_last_def s0_def Let_def split: option.splits)
      with inv0 show ?thesis by simp
    qed
  next
    case (OpReturn uid bid nu)
    show ?thesis
    proof (cases "\<exists>u b. find_user s0 uid = Some u \<and> find_book s0 bid = Some b")
      case True
      then obtain u b where u: "find_user s0 uid = Some u" and b: "find_book s0 bid = Some b" by blast
      have bid: "bk_id b = bid" using find_book_Some_id[OF b] by simp
      obtain r s1 where rs: "reclaim_autoloan bid nu s0 = (r, s1)" by fastforce
      have inv1: "store_inv s1" using reclaim_autoloan_inv[OF inv0, of bid nu] rs by simp
      obtain b1 where b1: "find_book s1 bid = Some b1"
          and a1: "copies_available b1 = copies_available b + (if r then 1 else 0)"
        using reclaim_autoloan_lookup(1)[OF b, where nu = nu] rs by auto
      obtain u1 where u1: "find_user s1 uid = Some u1"
        using reclaim_autoloan_lookup(2)[OF b, where nu = nu and k = uid] rs u by auto
      show ?thesis
      proof (cases "0 < copies_available b + (if r then 1 else 0)")
        case True
        have "store_inv (update_user uid (\<lambda>u. u\<lparr>borrowed := borrowed u @ [bid]\<rparr>)
                     (update_book bid (\<lambda>b. b\<lparr>copies_available := copies_available b - 1\<rparr>) s1))"
          by (rule inv_lend[OF inv1 u1 b1]) (simp add: a1 True)
        then show ?thesis using False OpReturn u b rs True bid by (simp add: undo_last_def s0_def)
      next
        case nz: False
        then have "snd (undo_last s) = s1" using False OpReturn u b rs by (simp add: undo_last_def s0_def)
        with inv1 show ?thesis by simp
      qed
    next
      case nf: False
      then have "snd (undo_last s) = s0" using False OpReturn
        by (auto simp: undo_last_def s0_def Let_def split: option.splits)
      with inv0 show ?thesis by simp
    qed
  qed
qed

lemma add_book_inv:
  assumes inv: "store_inv s"
  shows "store_inv (snd (add_book s (mk_book i t a y c)))"
proof (cases "find_book s i")
  case None
  let ?s' = "s\<lparr>books := books s @ [mk_book i t a y c]\<rparr>"
  have new: "i \<notin> set (map bk_id (books s))" using None by (simp add: find_book_def find_key_None_iff)
  have h0: "held s i = 0"
  proof -
    have "\<forall>u\<in>set (users s). i \<notin> set (borrowed u)"
      using inv new by (auto simp: store_inv_def user_ok_def)
    then show ?thesis unfolding held_def by (induction "users s" arbitrary: s) auto
  qed
  have "store_inv ?s'"
    using inv new h0 by (auto simp: store_inv_def book_ok_def user_ok_def held_def intro: undo_rec_known_mono)
  with None show ?thesis by (simp add: add_book_def)
qed (use inv in \<open>simp add: add_book_def\<close>)

lemma add_user_inv:
  assumes inv: "store_inv s"
  shows "store_inv (snd (add_user s (mk_user i n e)))"
proof (cases "find_user s i")
  case None
  have new: "i \<notin> set (map us_id (users s))" using None by (simp add: find_user_def find_key_None_iff)
  have "store_inv (s\<lparr>users := users s @ [mk_user i n e]\<rparr>)"
    using inv new unfolding store_inv_def book_ok_def user_ok_def held_def
    by (auto intro: undo_rec_known_mono)
  with None show ?thesis by (simp add: add_user_def)
qed (use inv in \<open>simp add: add_user_def\<close>)

lemma run_Cons_parts [simp]:
  "snd (run s (e # es)) = snd (run (snd (step s e)) es)"
  "fst (run s (e # es)) = fst (step s e) # fst (run (snd (step s e)) es)"
  by (simp_all add: split_def Let_def)

declare run.simps(2) [simp del]

lemma reachable_run:
  "reachable s \<Longrightarrow> reachable (snd (run s es))"
  by (induction es arbitrary: s) (auto intro: reachable.step)

lemma reachable_run_empty:
  "reachable (snd (run empty_store es))"
  by (rule reachable_run[OF reachable.init])

lemma step_inv:
  "store_inv s \<Longrightarrow> store_inv (snd (step s e))"
  by (cases e) (simp_all add: add_book_inv add_user_inv borrow_book_inv return_book_inv undo_last_inv)

lemma empty_store_inv: "store_inv empty_store"
  by (simp add: store_inv_def empty_store_def)

lemma reachable_inv:
  "reachable s \<Longrightarrow> store_inv s"
  by (induction rule: reachable.induct) (simp_all add: empty_store_inv step_inv)

lemma find_ids_iff:
  "find_user s k \<noteq> None \<longleftrightarrow> k \<in> us_id ` set (users s)"
  "find_book s k \<noteq> None \<longleftrightarrow> k \<in> bk_id ` set (books s)"
  by (simp_all add: find_user_def find_book_def find_key_None_iff)

lemma lending_user_ids:
  "map us_id (users (snd (borrow_book s u b))) = map us_id (users s)"
  "map us_id (users (snd (return_book s u b))) = map us_id (users s)"
  "map us_id (users (snd (reclaim_autoloan b nxt s))) = map us_id (users s)"
  by (simp_all add: borrow_book_def return_book_def reclaim_autoloan_def push_undo_def Let_def
      split: option.splits list.splits if_splits)

lemma undo_last_user_ids:
  "map us_id (users (snd (undo_last s))) = map us_id (users s)"
proof -
  have r: "reclaim_autoloan b nxt s' = (x, t) \<Longrightarrow> map us_id (users t) = map us_id (users s')"
    for b nxt s' x t using lending_user_ids(3)[of b nxt s'] by simp
  show ?thesis
    by (simp add: undo_last_def Let_def r split: undo_rec.splits option.splits prod.splits)
qed

lemmas store_eval = empty_store_def add_book_def add_user_def borrow_book_def return_book_def
  undo_last_def reclaim_autoloan_def find_book_def find_user_def update_book_def update_user_def
  push_undo_def mk_book_def mk_user_def

subsection \<open>Properties of every reachable store\<close>

text \<open>C1: in every reachable store, a book registered with a non-negative number of copies has between zero and that many copies available.\<close>

theorem reachable_copies_bounds:
  assumes "reachable s" "b \<in> set (books s)" "0 \<le> copies_total b"
  shows "0 \<le> copies_available b \<and> copies_available b \<le> copies_total b"
proof -
  have "book_ok s b" using reachable_inv[OF assms(1)] assms(2) by (simp add: store_inv_def)
  with assms(3) show ?thesis by (auto simp: book_ok_def)
qed

text \<open>C2: in every reachable store, the copies of a book on the shelf plus the copies its borrowers hold equal the copies it was registered with.\<close>

theorem reachable_copies_ledger:
  assumes "reachable s" "b \<in> set (books s)"
  shows "copies_available b + int (held s (bk_id b)) = copies_total b"
  using reachable_inv[OF assms(1)] assms(2) by (simp add: store_inv_def book_ok_def)

text \<open>C15: registration keeps identifiers unique: no two books and no two users of a reachable store share an identifier.\<close>

theorem reachable_ids_distinct:
  "reachable s \<Longrightarrow> distinct (map bk_id (books s)) \<and> distinct (map us_id (users s))"
  using reachable_inv by (simp add: store_inv_def)

text \<open>C13: a reservation queue of a reachable store names only registered users, so the promotion that \<open>return_book\<close> attempts always finds the user it pops.\<close>

theorem reachable_return_never_drops:
  assumes "reachable s"
  shows "\<forall>t a. fst (return_book s uid bid) \<noteq> Returned t NextGone a"
proof -
  have inv: "store_inv s" using reachable_inv[OF assms] .
  have reg: "find_user s nu \<noteq> None"
    if b: "find_book s bid = Some b" and q: "reservations b = nu # rest" for b nu rest
  proof -
    have "book_ok s b" using inv b by (auto simp: store_inv_find)
    with q have "nu \<in> us_id ` set (users s)" by (auto simp: book_ok_def)
    then show ?thesis by (simp only: find_ids_iff)
  qed
  show ?thesis
  proof (cases "find_book s bid")
    case (Some b)
    then show ?thesis using reg[OF Some]
      by (auto simp: return_book_def Let_def split: option.splits list.splits if_splits)
  qed (simp add: return_book_def split: option.splits)
qed

text \<open>C14: every entry of the undo stack of a reachable store names a registered user and book, so undoing a return never fails for want of them.\<close>

theorem reachable_undo_return_resolves:
  assumes "reachable s"
  shows "fst (undo_last s) \<noteq> UndoReturnFailed"
proof -
  have inv: "store_inv s" using reachable_inv[OF assms] .
  show ?thesis
  proof (cases "undo_stack s = []")
    case False
    then have "undo_rec_known s (last (undo_stack s))" using inv by (simp add: store_inv_def)
    then show ?thesis using False
      by (cases "last (undo_stack s)")
         (auto simp: undo_last_def Let_def find_ids_iff[symmetric] split: option.splits prod.splits)
  qed (simp add: undo_last_def)
qed

end
