(* ===== verification/Undo_History.thy ===== *)
theory Undo_History
  imports Undo_Roundtrip Store_Invariants "HOL-Library.Sublist"
begin

text \<open>
  The undo stack of \<open>LibraryStore\<close> as a history.  \<open>undo_ok s\<close> says that undoing
  repeatedly, until the stack is empty, succeeds at every step (each pop reports an
  undone borrow or return).  The recursion is on the length of the stack, which every
  undo shortens.  The proof that reachable stores have this property relates a store
  to its extensions (\<open>store_ext\<close>): the same undo stack, the same books and users up
  to the order of holdings, with more books and users appended and longer reservation
  queues.  Registration and queueing extend the store without pushing, an undo on an
  extension behaves as on the original, and a pushed borrow or return is undone back
  to the store it was pushed on (\<open>Undo_Roundtrip\<close>).
\<close>

definition undo_success :: "msg \<Rightarrow> bool" where
  "undo_success m = (case m of UndoneBorrow _ _ \<Rightarrow> True | UndoneReturn _ _ \<Rightarrow> True | _ \<Rightarrow> False)"

function undo_ok :: "library_store \<Rightarrow> bool" where
  "undo_ok s =
     (if undo_stack s = [] then True
      else undo_success (fst (undo_last s)) \<and> undo_ok (snd (undo_last s)))"
  by pat_completeness auto
termination
  by (relation "measure (\<lambda>s. length (undo_stack s))") (auto simp: undo_last_stack)

declare undo_ok.simps [simp del]

definition book_ext :: "book \<Rightarrow> book \<Rightarrow> bool" where
  "book_ext b1 b2 \<longleftrightarrow> bk_id b2 = bk_id b1 \<and> title b2 = title b1 \<and> author b2 = author b1
     \<and> year b2 = year b1 \<and> copies_total b2 = copies_total b1 \<and> copies_available b2 = copies_available b1
     \<and> prefix (reservations b1) (reservations b2)"

definition store_ext :: "library_store \<Rightarrow> library_store \<Rightarrow> bool" where
  "store_ext s1 s2 \<longleftrightarrow> undo_stack s2 = undo_stack s1
     \<and> list_all2 book_ext (books s1) (take (length (books s1)) (books s2))
     \<and> list_all2 (\<lambda>u1 u2. member_view u1 = member_view u2) (users s1) (take (length (users s1)) (users s2))"

subsection \<open>Searching and updating related lists\<close>

lemma list_all2_find:
  "list_all2 R xs ys \<Longrightarrow> (\<And>x y. R x y \<Longrightarrow> P x = P y) \<Longrightarrow> List.find P xs = Some x \<Longrightarrow>
   \<exists>y. List.find P ys = Some y \<and> R x y"
  by (induction rule: list_all2_induct) (auto split: if_splits)

lemma list_all2_upd_first:
  "list_all2 R xs ys \<Longrightarrow> (\<And>x y. R x y \<Longrightarrow> P x = P y) \<Longrightarrow> (\<And>x y. R x y \<Longrightarrow> P x \<Longrightarrow> R (f x) (f y)) \<Longrightarrow>
   list_all2 R (upd_first P f xs) (upd_first P f ys)"
  by (induction rule: list_all2_induct) auto

lemma find_append_Some:
  "List.find P ys = Some y \<Longrightarrow> List.find P (ys @ e) = Some y"
  by (induction ys) auto

lemma upd_first_append_found:
  "List.find P ys \<noteq> None \<Longrightarrow> upd_first P f (ys @ e) = upd_first P f ys @ e"
  by (induction ys) auto

lemma find_take_Some:
  "List.find P (take n xs) = Some y \<Longrightarrow> List.find P xs = Some y"
  using find_append_Some[of P "take n xs" y "drop n xs"] by simp

lemma length_upd_first [simp]: "length (upd_first P f xs) = length xs"
  by (induction xs) auto

lemma upd_first_take:
  "List.find P (take n xs) \<noteq> None \<Longrightarrow> take n (upd_first P f xs) = upd_first P f (take n xs)"
  by (induction xs arbitrary: n) (auto simp: take_Cons split: nat.splits)

lemma list_all2_map_eq:
  "map f xs = map f ys \<Longrightarrow> list_all2 (\<lambda>x y. f x = f y) xs ys"
  by (induction xs arbitrary: ys) (auto simp: Cons_eq_map_conv)

subsection \<open>Extensions of a store\<close>

lemma book_ext_fields:
  "book_ext b1 b2 \<Longrightarrow> bk_id b2 = bk_id b1 \<and> title b2 = title b1 \<and> copies_available b2 = copies_available b1"
  by (simp add: book_ext_def)

lemma book_ext_refl: "book_ext b b"
  by (simp add: book_ext_def)

lemma book_ext_avail:
  "book_ext b1 b2 \<Longrightarrow> book_ext (b1\<lparr>copies_available := x\<rparr>) (b2\<lparr>copies_available := x\<rparr>)"
  by (auto simp: book_ext_def)

lemma book_ext_push_front:
  "book_ext b1 b2 \<Longrightarrow>
   book_ext (b1\<lparr>reservations := nu # reservations b1\<rparr>) (b2\<lparr>reservations := nu # reservations b2\<rparr>)"
  by (auto simp: book_ext_def)

lemma book_ext_snoc:
  "book_ext b (b\<lparr>reservations := reservations b @ [u]\<rparr>)"
  by (simp add: book_ext_def)

lemma store_ext_view:
  "store_view s1 = store_view s2 \<Longrightarrow> store_ext s1 s2"
  by (simp add: store_ext_def store_view_def list_all2_map_eq list.rel_refl book_ext_refl)
     (metis length_map list_all2_map_eq order_refl take_all)

lemma member_view_fields:
  "member_view u1 = member_view u2 \<Longrightarrow> us_id u2 = us_id u1 \<and> name u2 = name u1 \<and> set (borrowed u2) = set (borrowed u1)"
  by (simp add: member_view_def) (metis set_mset_mset)

lemma member_view_remove1:
  "member_view u1 = member_view u2 \<Longrightarrow>
   member_view (u1\<lparr>borrowed := remove1 x (borrowed u1)\<rparr>) = member_view (u2\<lparr>borrowed := remove1 x (borrowed u2)\<rparr>)"
  by (simp add: member_view_def)

lemma member_view_snoc:
  "member_view u1 = member_view u2 \<Longrightarrow>
   member_view (u1\<lparr>borrowed := borrowed u1 @ [x]\<rparr>) = member_view (u2\<lparr>borrowed := borrowed u2 @ [x]\<rparr>)"
  by (simp add: member_view_def)

lemma find_book_ext:
  assumes "store_ext s1 s2" "find_book s1 k = Some b1"
  shows "\<exists>b2. find_book s2 k = Some b2 \<and> book_ext b1 b2"
proof -
  have "list_all2 book_ext (books s1) (take (length (books s1)) (books s2))"
    using assms(1) by (simp add: store_ext_def)
  moreover have "List.find (\<lambda>b. bk_id b = k) (books s1) = Some b1" using assms(2) by (simp add: find_book_def)
  moreover have "\<And>x y. book_ext x y \<Longrightarrow> (bk_id x = k) = (bk_id y = k)"
    by (simp add: book_ext_def)
  ultimately obtain b2 where "List.find (\<lambda>b. bk_id b = k) (take (length (books s1)) (books s2)) = Some b2"
      "book_ext b1 b2"
    using list_all2_find[where P = "\<lambda>b. bk_id b = k"] by blast
  then show ?thesis by (auto simp: find_book_def dest: find_take_Some)
qed

lemma find_user_ext:
  assumes "store_ext s1 s2" "find_user s1 k = Some u1"
  shows "\<exists>u2. find_user s2 k = Some u2 \<and> member_view u1 = member_view u2"
proof -
  have "list_all2 (\<lambda>u1 u2. member_view u1 = member_view u2) (users s1) (take (length (users s1)) (users s2))"
    using assms(1) by (simp add: store_ext_def)
  moreover have "List.find (\<lambda>u. us_id u = k) (users s1) = Some u1" using assms(2) by (simp add: find_user_def)
  moreover have "\<And>x y. member_view x = member_view y \<Longrightarrow> (us_id x = k) = (us_id y = k)"
    by (simp add: member_view_def)
  ultimately obtain u2 where "List.find (\<lambda>u. us_id u = k) (take (length (users s1)) (users s2)) = Some u2"
      "member_view u1 = member_view u2"
    using list_all2_find[where P = "\<lambda>u. us_id u = k"] by blast
  then show ?thesis by (auto simp: find_user_def dest: find_take_Some)
qed

lemma ext_update_book:
  assumes ext: "store_ext s1 s2" and found: "find_book s1 k = Some b1"
    and f: "\<And>b1 b2. book_ext b1 b2 \<Longrightarrow> book_ext (f b1) (f b2)"
  shows "store_ext (update_book k f s1) (update_book k f s2)"
proof -
  let ?n = "length (books s1)" and ?P = "\<lambda>b. bk_id b = k"
  have r: "list_all2 book_ext (books s1) (take ?n (books s2))" using ext by (simp add: store_ext_def)
  have key: "\<And>x y. book_ext x y \<Longrightarrow> ?P x = ?P y" by (simp add: book_ext_def)
  have "List.find ?P (books s1) = Some b1" using found by (simp add: find_book_def)
  then have "List.find ?P (take ?n (books s2)) \<noteq> None"
    using list_all2_find[where P = ?P, OF r key] by blast
  then have "take ?n (upd_first ?P f (books s2)) = upd_first ?P f (take ?n (books s2))"
    by (rule upd_first_take)
  moreover have "list_all2 book_ext (upd_first ?P f (books s1)) (upd_first ?P f (take ?n (books s2)))"
    using r key f by (rule list_all2_upd_first)
  ultimately show ?thesis using ext by (simp add: store_ext_def store_lists_update)
qed

lemma ext_update_user:
  assumes ext: "store_ext s1 s2" and found: "find_user s1 k = Some u1"
    and g: "\<And>u1 u2. member_view u1 = member_view u2 \<Longrightarrow> member_view (g u1) = member_view (g u2)"
  shows "store_ext (update_user k g s1) (update_user k g s2)"
proof -
  let ?n = "length (users s1)" and ?P = "\<lambda>u. us_id u = k"
  have r: "list_all2 (\<lambda>u1 u2. member_view u1 = member_view u2) (users s1) (take ?n (users s2))"
    using ext by (simp add: store_ext_def)
  have key: "\<And>x y. member_view x = member_view y \<Longrightarrow> ?P x = ?P y" by (simp add: member_view_def)
  have "List.find ?P (users s1) = Some u1" using found by (simp add: find_user_def)
  then have "List.find ?P (take ?n (users s2)) \<noteq> None"
    using list_all2_find[where P = ?P, OF r key] by blast
  then have "take ?n (upd_first ?P g (users s2)) = upd_first ?P g (take ?n (users s2))"
    by (rule upd_first_take)
  moreover have "list_all2 (\<lambda>u1 u2. member_view u1 = member_view u2)
      (upd_first ?P g (users s1)) (upd_first ?P g (take ?n (users s2)))"
    using r key g by (rule list_all2_upd_first)
  ultimately show ?thesis using ext by (simp add: store_ext_def store_lists_update)
qed

lemma ext_stack:
  "store_ext s1 s2 \<Longrightarrow> store_ext (s1\<lparr>undo_stack := st\<rparr>) (s2\<lparr>undo_stack := st\<rparr>)"
  by (simp add: store_ext_def)

lemma reclaim_ext:
  assumes ext: "store_ext s1 s2" and fb: "find_book s1 b = Some bk"
    and known: "\<And>nu. nxt = Some nu \<Longrightarrow> find_user s1 nu \<noteq> None"
  shows "fst (reclaim_autoloan b nxt s2) = fst (reclaim_autoloan b nxt s1)
    \<and> store_ext (snd (reclaim_autoloan b nxt s1)) (snd (reclaim_autoloan b nxt s2))"
proof (cases "\<exists>nu. nxt = Some nu \<and> nu \<noteq> []")
  case False
  then have "reclaim_autoloan b nxt s1 = (False, s1)" "reclaim_autoloan b nxt s2 = (False, s2)"
    by (auto simp: reclaim_autoloan_def split: option.splits)
  then show ?thesis using ext by simp
next
  case True
  then obtain nu where nu: "nxt = Some nu" "nu \<noteq> []" by blast
  obtain v1 where v1: "find_user s1 nu = Some v1" using known[OF nu(1)] by blast
  obtain v2 where v2: "find_user s2 nu = Some v2" and mv: "member_view v1 = member_view v2"
    using find_user_ext[OF ext v1] by blast
  have same: "b \<in> set (borrowed v2) \<longleftrightarrow> b \<in> set (borrowed v1)" using member_view_fields[OF mv] by simp
  show ?thesis
  proof (cases "b \<in> set (borrowed v1)")
    case False
    then show ?thesis using nu v1 v2 same ext by (simp add: reclaim_autoloan_def)
  next
    case True
    let ?g = "\<lambda>v. v\<lparr>borrowed := remove1 b (borrowed v)\<rparr>"
    let ?q = "\<lambda>bk. bk\<lparr>reservations := nu # reservations bk\<rparr>"
    let ?i = "\<lambda>bk. bk\<lparr>copies_available := copies_available bk + 1\<rparr>"
    have e0: "store_ext (update_user nu ?g s1) (update_user nu ?g s2)"
      using ext v1 by (rule ext_update_user) (simp add: member_view_def)
    have e1: "store_ext (update_book b ?q (update_user nu ?g s1)) (update_book b ?q (update_user nu ?g s2))"
      using e0 by (rule ext_update_book) (use fb in \<open>simp_all add: book_ext_def\<close>)
    have e2: "store_ext (update_book b ?i (update_book b ?q (update_user nu ?g s1)))
                        (update_book b ?i (update_book b ?q (update_user nu ?g s2)))"
      using e1 by (rule ext_update_book) (use fb in \<open>simp_all add: book_ext_def\<close>)
    then show ?thesis using nu v1 v2 same True by (simp add: reclaim_autoloan_def)
  qed
qed

lemma undo_last_ext:
  assumes known: "\<forall>r\<in>set (undo_stack s1). undo_rec_known s1 r" and ext: "store_ext s1 s2"
    and ok: "undo_success (fst (undo_last s1))"
  shows "fst (undo_last s2) = fst (undo_last s1) \<and> store_ext (snd (undo_last s1)) (snd (undo_last s2))"
proof -
  have st: "undo_stack s2 = undo_stack s1" using ext by (simp add: store_ext_def)
  have ne: "undo_stack s1 \<noteq> []" using ok by (auto simp: undo_last_def Let_def undo_success_def)
  define t1 where "t1 = s1\<lparr>undo_stack := butlast (undo_stack s1)\<rparr>"
  define t2 where "t2 = s2\<lparr>undo_stack := butlast (undo_stack s1)\<rparr>"
  have e0: "store_ext t1 t2" unfolding t1_def t2_def using ext by (rule ext_stack)
  have kn: "undo_rec_known s1 (last (undo_stack s1))" using known ne by simp
  show ?thesis
  proof (cases "last (undo_stack s1)")
    case (OpBorrow u b)
    obtain u1 b1 where u1: "find_user t1 u = Some u1" and b1: "find_book t1 b = Some b1"
        and h1: "bk_id b1 \<in> set (borrowed u1)"
      using ok ne OpBorrow
      by (auto simp: undo_last_def Let_def undo_success_def t1_def split: option.splits if_splits)
    obtain u2 where u2: "find_user t2 u = Some u2" and mu: "member_view u1 = member_view u2"
      using find_user_ext[OF e0 u1] by blast
    obtain b2 where b2: "find_book t2 b = Some b2" and eb: "book_ext b1 b2"
      using find_book_ext[OF e0 b1] by blast
    have id: "bk_id b2 = b" "bk_id b1 = b" using find_book_Some_id[OF b2] find_book_Some_id[OF b1] by simp_all
    have h2: "bk_id b2 \<in> set (borrowed u2)" using h1 member_view_fields[OF mu] id by simp
    let ?g = "\<lambda>u. u\<lparr>borrowed := remove1 b (borrowed u)\<rparr>"
    let ?i = "\<lambda>bk. bk\<lparr>copies_available := copies_available bk + 1\<rparr>"
    have r1: "undo_last s1 = (UndoneBorrow (title b1) (name u1), update_book b ?i (update_user u ?g t1))"
      using ne OpBorrow u1 b1 h1 id by (simp add: undo_last_def Let_def t1_def)
    have r2: "undo_last s2 = (UndoneBorrow (title b2) (name u2), update_book b ?i (update_user u ?g t2))"
      using ne st OpBorrow u2 b2 h2 id by (simp add: undo_last_def Let_def t2_def)
    have "store_ext (update_user u ?g t1) (update_user u ?g t2)"
      using e0 u1 by (rule ext_update_user) (simp add: member_view_def)
    then have "store_ext (update_book b ?i (update_user u ?g t1)) (update_book b ?i (update_user u ?g t2))"
      by (rule ext_update_book) (use b1 in \<open>simp_all add: book_ext_def\<close>)
    then show ?thesis using r1 r2 book_ext_fields[OF eb] member_view_fields[OF mu] by simp
  next
    case (OpReturn u b nxt)
    obtain u1 b1 where u1: "find_user t1 u = Some u1" and b1: "find_book t1 b = Some b1"
      using ok ne OpReturn
      by (auto simp: undo_last_def Let_def undo_success_def t1_def split: option.splits)
    obtain u2 where u2: "find_user t2 u = Some u2" and mu: "member_view u1 = member_view u2"
      using find_user_ext[OF e0 u1] by blast
    obtain b2 where b2: "find_book t2 b = Some b2" and eb: "book_ext b1 b2"
      using find_book_ext[OF e0 b1] by blast
    have nk: "find_user t1 nu \<noteq> None" if "nxt = Some nu" for nu
  proof -
    have "nu \<in> us_id ` set (users t1)" using kn OpReturn that by (simp add: t1_def)
    then show ?thesis using find_ids_iff(1)[of t1 nu] by blast
  qed
    obtain f1 c1 where c1: "reclaim_autoloan b nxt t1 = (f1, c1)" by (cases "reclaim_autoloan b nxt t1")
    obtain f2 c2 where c2: "reclaim_autoloan b nxt t2 = (f2, c2)" by (cases "reclaim_autoloan b nxt t2")
    have "fst (reclaim_autoloan b nxt t2) = fst (reclaim_autoloan b nxt t1)
        \<and> store_ext (snd (reclaim_autoloan b nxt t1)) (snd (reclaim_autoloan b nxt t2))"
      by (rule reclaim_ext[OF e0 b1]) (rule nk)
    then have fc: "f2 = f1" "store_ext c1 c2" using c1 c2 by simp_all
    have pos: "0 < copies_available b1 + (if f1 then 1 else 0)"
      using ok ne OpReturn u1 b1 c1 by (auto simp: undo_last_def Let_def undo_success_def t1_def split: if_splits)
    let ?g = "\<lambda>u. u\<lparr>borrowed := borrowed u @ [b]\<rparr>"
    let ?d = "\<lambda>bk. bk\<lparr>copies_available := copies_available bk - 1\<rparr>"
    have id: "bk_id b1 = b" using find_book_Some_id[OF b1] by simp
    have r1: "undo_last s1 = (UndoneReturn (title b1) (name u1), update_user u ?g (update_book b ?d c1))"
      using ne OpReturn u1 b1 c1 pos id by (simp add: undo_last_def Let_def t1_def)
    have r2: "undo_last s2 = (UndoneReturn (title b2) (name u2), update_user u ?g (update_book b ?d c2))"
      using ne st OpReturn u2 b2 c2 pos fc(1) book_ext_fields[OF eb] id by (simp add: undo_last_def Let_def t2_def)
    obtain bc where bc: "find_book c1 b = Some bc"
      using reclaim_autoloan_lookup(1)[OF b1, of nxt] c1 by auto
    have uc: "find_user (update_book b ?d c1) u \<noteq> None"
      using reclaim_autoloan_lookup(2)[OF b1, where nu = nxt and k = u] c1 u1 by simp
    then obtain uc where uc: "find_user (update_book b ?d c1) u = Some uc" by blast
    have "store_ext (update_book b ?d c1) (update_book b ?d c2)"
      using fc(2) bc by (rule ext_update_book) (simp add: book_ext_def)
    then have "store_ext (update_user u ?g (update_book b ?d c1)) (update_user u ?g (update_book b ?d c2))"
      using uc by (rule ext_update_user) (simp add: member_view_def)
    then show ?thesis using r1 r2 book_ext_fields[OF eb] member_view_fields[OF mu] by simp
  qed
qed

lemma list_all2_upd_first_right:
  "(\<And>x. R x x) \<Longrightarrow> (\<And>x. P x \<Longrightarrow> R x (f x)) \<Longrightarrow> list_all2 R xs (upd_first P f xs)"
  by (induction xs) (auto intro: list.rel_refl)

lemma store_ext_refl: "store_ext s s"
  by (simp add: store_ext_def list.rel_refl book_ext_refl)

lemma ext_add_book: "store_ext s (snd (add_book s b))"
  by (simp add: add_book_def store_ext_def list.rel_refl book_ext_refl split: option.splits)

lemma ext_add_user: "store_ext s (snd (add_user s u))"
  by (simp add: add_user_def store_ext_def list.rel_refl book_ext_refl split: option.splits)

lemma ext_queue:
  "store_ext s (update_book k (\<lambda>b. b\<lparr>reservations := reservations b @ [u]\<rparr>) s)"
  by (simp add: store_ext_def store_lists_update list_all2_upd_first_right book_ext_refl book_ext_snoc
      list.rel_refl)

lemma undo_ok_ext:
  "store_inv s1 \<Longrightarrow> store_ext s1 s2 \<Longrightarrow> undo_ok s1 \<Longrightarrow> undo_ok s2"
proof (induction "length (undo_stack s1)" arbitrary: s1 s2 rule: less_induct)
  case less
  have st: "undo_stack s2 = undo_stack s1" using less.prems(2) by (simp add: store_ext_def)
  show ?case
  proof (cases "undo_stack s1 = []")
    case True
    then show ?thesis using st by (simp add: undo_ok.simps)
  next
    case False
    then have ok: "undo_success (fst (undo_last s1))" and ok1: "undo_ok (snd (undo_last s1))"
      using less.prems(3) by (simp_all add: undo_ok.simps[of s1])
    have "fst (undo_last s2) = fst (undo_last s1) \<and> store_ext (snd (undo_last s1)) (snd (undo_last s2))"
      using less.prems(1,2) ok by (intro undo_last_ext) (simp_all add: store_inv_def)
    moreover have "undo_ok (snd (undo_last s2))"
    proof (rule less.hyps)
      show "length (undo_stack (snd (undo_last s1))) < length (undo_stack s1)"
        using False by (simp add: undo_last_stack)
      show "store_inv (snd (undo_last s1))" using less.prems(1) by (rule undo_last_inv)
      show "store_ext (snd (undo_last s1)) (snd (undo_last s2))" using calculation by blast
      show "undo_ok (snd (undo_last s1))" by (rule ok1)
    qed
    ultimately show ?thesis using False st ok by (simp add: undo_ok.simps[of s2])
  qed
qed

lemma undo_ok_pushed:
  assumes inv: "store_inv s" and ok: "undo_ok s" and ne: "undo_stack s' \<noteq> []"
    and m: "undo_success (fst (undo_last s'))" and v: "store_view (snd (undo_last s')) = store_view s"
  shows "undo_ok s'"
proof -
  have "undo_ok (snd (undo_last s'))" using undo_ok_ext[OF inv store_ext_view[OF v[symmetric]] ok] .
  then show ?thesis using ne m by (simp add: undo_ok.simps[of s'])
qed

lemma borrow_undo_ok:
  assumes inv: "store_inv s" and ok: "undo_ok s"
  shows "undo_ok (snd (borrow_book s u b))"
proof (cases "\<exists>usr bk. find_user s u = Some usr \<and> find_book s b = Some bk")
  case False
  then have "snd (borrow_book s u b) = s" by (auto simp: borrow_book_def split: option.splits)
  then show ?thesis using ok by simp
next
  case True
  then obtain usr bk where fu: "find_user s u = Some usr" and fb: "find_book s b = Some bk" by blast
  show ?thesis
  proof (cases "0 < copies_available bk")
    case True
    have v: "fst (undo_last (snd (borrow_book s u b))) = UndoneBorrow (title bk) (name usr)
        \<and> store_view (snd (undo_last (snd (borrow_book s u b)))) = store_view s"
      by (rule undo_borrow_view[OF fu fb True])
    have ne: "undo_stack (snd (borrow_book s u b)) \<noteq> []" using fu fb True by (simp add: borrow_book_def)
    show ?thesis by (rule undo_ok_pushed[OF inv ok ne]) (use v in \<open>simp_all add: undo_success_def\<close>)
  next
    case False
    then have "snd (borrow_book s u b) = s \<or>
        snd (borrow_book s u b) = update_book b (\<lambda>b. b\<lparr>reservations := reservations b @ [u]\<rparr>) s"
      using fu fb by (simp add: borrow_book_def)
    then show ?thesis using ok undo_ok_ext[OF inv ext_queue] by auto
  qed
qed

lemma return_undo_ok:
  assumes inv: "store_inv s" and ok: "undo_ok s" and named: "\<forall>v\<in>set (users s). us_id v \<noteq> []"
  shows "undo_ok (snd (return_book s u b))"
proof (cases "\<exists>usr bk. find_user s u = Some usr \<and> find_book s b = Some bk \<and> b \<in> set (borrowed usr)")
  case False
  then have "snd (return_book s u b) = s" by (auto simp: return_book_def split: option.splits)
  then show ?thesis using ok by simp
next
  case True
  then obtain usr bk where fu: "find_user s u = Some usr" and fb: "find_book s b = Some bk"
      and h: "b \<in> set (borrowed usr)" by blast
  have a: "0 \<le> copies_available bk" by (rule held_pos_avail(1)[OF inv fb fu h])
  have ne: "undo_stack (snd (return_book s u b)) \<noteq> []"
    using fu fb h by (auto simp: return_book_def Let_def split: list.splits option.splits)
  have v: "fst (undo_last (snd (return_book s u b))) = UndoneReturn (title bk) (name usr)
      \<and> store_view (snd (undo_last (snd (return_book s u b)))) = store_view s"
  proof (cases "reservations bk")
    case Nil
    then show ?thesis by (rule undo_return_roundtrip_plain[OF fu fb h a])
  next
    case (Cons nu rest)
    have "book_ok s bk" using inv fb by (auto simp: store_inv_find)
    then have "nu \<in> us_id ` set (users s)" using Cons by (auto simp: book_ok_def)
    then obtain v where v: "find_user s nu = Some v" and nn: "nu \<noteq> []"
      using named find_ids_iff(1)[of s nu] by auto
    show ?thesis by (rule undo_return_roundtrip_promoted[OF fu fb h a Cons nn v])
  qed
  show ?thesis by (rule undo_ok_pushed[OF inv ok ne]) (use v in \<open>simp_all add: undo_success_def\<close>)
qed

lemma undo_undo_ok:
  "undo_ok s \<Longrightarrow> undo_ok (snd (undo_last s))"
  by (cases "undo_stack s = []") (simp_all add: undo_last_empty undo_ok.simps[of s])

lemma step_undo_ok:
  assumes inv: "store_inv s" and ok: "undo_ok s" and named: "\<forall>v\<in>set (users s). us_id v \<noteq> []"
  shows "undo_ok (snd (step s ev))"
proof (cases ev)
  case (AddBook i t a y c)
  then show ?thesis using undo_ok_ext[OF inv ext_add_book ok] by simp
next
  case (AddUser i n e)
  then show ?thesis using undo_ok_ext[OF inv ext_add_user ok] by simp
next
  case (Borrow u b)
  then show ?thesis using borrow_undo_ok[OF inv ok] by simp
next
  case (Return u b)
  then show ?thesis using return_undo_ok[OF inv ok named] by simp
next
  case Undo
  then show ?thesis using undo_undo_ok[OF ok] by simp
qed

lemma step_user_ids_grow:
  "us_id ` set (users s) \<subseteq> us_id ` set (users (snd (step s ev)))"
proof (cases "\<exists>i n e. ev = AddUser i n e")
  case True
  then show ?thesis by (auto simp: add_user_def split: option.splits)
next
  case False
  then have "map us_id (users (snd (step s ev))) = map us_id (users s)"
    by (cases ev) (simp_all add: add_book_def lending_user_ids undo_last_user_ids split: option.splits)
  then show ?thesis by (metis list.set_map order_refl)
qed

text \<open>C27: in every reachable store whose users all have non-empty identifiers, the undo history is consistent: undoing repeatedly succeeds at every step until the stack is empty.\<close>

theorem reachable_undo_ok:
  "reachable s \<Longrightarrow> \<forall>u\<in>set (users s). us_id u \<noteq> [] \<Longrightarrow> undo_ok s"
proof (induction rule: reachable.induct)
  case init
  then show ?case by (simp add: undo_ok.simps empty_store_def)
next
  case (step s ev)
  have named: "\<forall>v\<in>set (users s). us_id v \<noteq> []"
  proof
    fix v assume "v \<in> set (users s)"
    then have "us_id v \<in> us_id ` set (users (snd (step s ev)))" using step_user_ids_grow[of s ev] by blast
    then show "us_id v \<noteq> []" using step.prems by auto
  qed
  show ?case by (rule step_undo_ok[OF reachable_inv[OF step.hyps(1)] step.IH[OF named] named])
qed

end
