(* ===== verification/Controller.thy ===== *)
theory Controller
  imports Store_Invariants
begin

text \<open>
  \<open>LibraryController\<close> (\<open>src/models/library_controller.py\<close>): the layer between the
  window and the store.  It owns a store, strips every string argument with Python's
  \<open>str.strip()\<close>, builds the \<open>Book\<close> or \<open>User\<close> object, forwards the call and
  passes the returned message to its logger.  The logger is a callback, by default a
  no-op; \<open>MainWindow.set_logger\<close> would install one that appends the message to the
  activity list.  The model keeps that list as the messages, oldest first, when such a
  logger is installed (\<open>ActivityLog\<close>).  \<open>seed_sample_data\<close> registers the sample
  books and users directly on the store, without logging.

  \<open>str.strip()\<close> removes leading and trailing characters for which
  \<open>str.isspace()\<close> holds.  Characters are bytes here, so the model covers the ASCII
  whitespace (tab to carriage return, the separators 28 to 31, and space); Python's
  non-ASCII whitespace (such as U+00A0) is outside the model.
\<close>

definition py_space :: "char \<Rightarrow> bool" where
  "py_space c \<longleftrightarrow> of_char c \<in> {9, 10, 11, 12, 13, 28, 29, 30, 31, 32 :: nat}"

text \<open>A two-byte UTF-8 sequence, for the accented letters of the sample data.\<close>

definition utf8_2 :: "nat \<Rightarrow> nat \<Rightarrow> string" where
  "utf8_2 a b = [char_of a, char_of b]"

definition strip :: "string \<Rightarrow> string" where
  "strip s = rev (dropWhile py_space (rev (dropWhile py_space s)))"

text \<open>
  The logger is \<open>logger or (lambda msg: None)\<close>: without one every message is
  dropped; the window's \<open>set_logger\<close> installs \<open>MainWindow._log\<close>, which appends
  the message to the activity list.  \<open>log\<close> is that list as far as this controller
  has filled it.
\<close>

datatype logger = NoLogger | ActivityLog

record library_controller =
  store :: library_store
  logger :: logger
  log :: "msg list"

definition make_controller :: "logger \<Rightarrow> library_controller" where
  "make_controller l = \<lparr>store = empty_store, logger = l, log = []\<rparr>"

definition new_controller :: library_controller where
  "new_controller = make_controller NoLogger"

text \<open>
  \<open>log_item\<close> is \<open>MainWindow._log\<close>, the callback \<open>set_logger\<close> would install: it
  adds the message to the activity list (\<open>scrollToBottom\<close> only scrolls).  The
  controller's \<open>log\<close> field is that list.
\<close>

definition log_item :: "msg list \<Rightarrow> msg \<Rightarrow> msg list" where
  "log_item items m = items @ [m]"

definition ctl_log :: "library_controller \<Rightarrow> msg \<Rightarrow> library_controller" where
  "ctl_log c m = (case logger c of NoLogger \<Rightarrow> c | ActivityLog \<Rightarrow> c\<lparr>log := log_item (log c) m\<rparr>)"

definition ctl_forward :: "library_controller \<Rightarrow> msg \<times> library_store \<Rightarrow> library_controller" where
  "ctl_forward c r = ctl_log (c\<lparr>store := snd r\<rparr>) (fst r)"

definition ctl_add_book :: "library_controller \<Rightarrow> string \<Rightarrow> string \<Rightarrow> string \<Rightarrow> int \<Rightarrow> int \<Rightarrow> library_controller" where
  "ctl_add_book c i t a y n =
     ctl_forward c (add_book (store c) (mk_book (strip i) (strip t) (strip a) y n))"

definition ctl_add_user :: "library_controller \<Rightarrow> string \<Rightarrow> string \<Rightarrow> string \<Rightarrow> library_controller" where
  "ctl_add_user c i n e = ctl_forward c (add_user (store c) (mk_user (strip i) (strip n) (strip e)))"

definition ctl_borrow :: "library_controller \<Rightarrow> string \<Rightarrow> string \<Rightarrow> library_controller" where
  "ctl_borrow c u b = ctl_forward c (borrow_book (store c) (strip u) (strip b))"

definition ctl_return :: "library_controller \<Rightarrow> string \<Rightarrow> string \<Rightarrow> library_controller" where
  "ctl_return c u b = ctl_forward c (return_book (store c) (strip u) (strip b))"

definition ctl_undo :: "library_controller \<Rightarrow> library_controller" where
  "ctl_undo c = ctl_forward c (undo_last (store c))"

definition seed_sample_data :: "library_controller \<Rightarrow> library_controller" where
  "seed_sample_data c =
     c\<lparr>store :=
        snd (add_user
          (snd (add_user
            (snd (add_book
              (snd (add_book (store c) (mk_book ''B001'' ''El Quijote'' ''Cervantes'' 1605 2)))
              (mk_book ''B002'' (''Cien a'' @ utf8_2 195 177 @ ''os de soledad'')
                 (''Garc'' @ utf8_2 195 173 @ ''a M'' @ utf8_2 195 161 @ ''rquez'') 1967 1)))
            (mk_user ''U001'' ''Ana'' ''ana@example.com'')))
          (mk_user ''U002'' ''Luis'' ''luis@example.com''))\<rparr>"

definition get_books :: "library_controller \<Rightarrow> book list" where
  "get_books c = books (store c)"

definition get_users :: "library_controller \<Rightarrow> user list" where
  "get_users c = users (store c)"

lemma strip_no_leading:
  "dropWhile py_space (strip s) = strip s"
proof -
  let ?t = "dropWhile py_space s"
  let ?u = "rev (dropWhile py_space (rev ?t))"
  have split: "?t = ?u @ rev (takeWhile py_space (rev ?t))"
    by (metis rev_append rev_rev_ident takeWhile_dropWhile_id)
  have "dropWhile py_space ?u = ?u"
  proof (cases "?u = []")
    case True
    then show ?thesis by (metis dropWhile.simps(1))
  next
    case False
    have t: "?t \<noteq> []" using False split by (metis Nil_is_append_conv)
    have "hd ?u = hd ?t" using split False by (metis hd_append2)
    then show ?thesis using hd_dropWhile[OF t] by (simp add: dropWhile_eq_self_iff)
  qed
  then show ?thesis by (simp add: strip_def)
qed

lemma strip_strip: "strip (strip s) = strip s"
proof -
  have "strip (strip s) = rev (dropWhile py_space (rev (strip s)))"
    using strip_no_leading[of s] by (simp add: strip_def[of "strip s"])
  also have "\<dots> = strip s" by (simp add: strip_def)
  finally show ?thesis .
qed

lemma strip_split:
  "s = takeWhile py_space s @ strip s @ rev (takeWhile py_space (rev (dropWhile py_space s)))"
proof -
  let ?t = "dropWhile py_space s"
  have "?t = strip s @ rev (takeWhile py_space (rev ?t))"
    unfolding strip_def by (metis rev_append rev_rev_ident takeWhile_dropWhile_id)
  then show ?thesis by (metis takeWhile_dropWhile_id)
qed

text \<open>\<open>strip\<close> is the \<open>str.strip()\<close> of Python: the input is a run of whitespace, the stripped string and another run of whitespace, and the stripped string neither starts nor ends with whitespace.\<close>

theorem strip_spec:
  "\<exists>p q. s = p @ strip s @ q \<and> (\<forall>c\<in>set p. py_space c) \<and> (\<forall>c\<in>set q. py_space c)
     \<and> (strip s \<noteq> [] \<longrightarrow> \<not> py_space (hd (strip s)) \<and> \<not> py_space (last (strip s)))"
proof -
  let ?t = "dropWhile py_space s"
  define p where "p = takeWhile py_space s"
  define q where "q = rev (takeWhile py_space (rev ?t))"
  have "s = p @ strip s @ q" unfolding p_def q_def by (rule strip_split)
  moreover have "\<forall>c\<in>set p. py_space c" "\<forall>c\<in>set q. py_space c"
    unfolding p_def q_def by (auto dest: set_takeWhileD)
  moreover have "\<not> py_space (hd (strip s))" if ne: "strip s \<noteq> []"
  proof -
    have "dropWhile py_space (strip s) \<noteq> []" using ne strip_no_leading[of s] by simp
    from hd_dropWhile[OF this] show ?thesis by (simp add: strip_no_leading)
  qed
  moreover have "\<not> py_space (last (strip s))" if ne: "strip s \<noteq> []"
  proof -
    have "dropWhile py_space (rev ?t) \<noteq> []" using ne by (simp add: strip_def)
    from hd_dropWhile[OF this] show ?thesis by (simp add: strip_def last_rev)
  qed
  ultimately show ?thesis by blast
qed

lemma ctl_forward_fields [simp]:
  "store (ctl_forward c r) = snd r \<and> logger (ctl_forward c r) = logger c
   \<and> log (ctl_forward c r) = (case logger c of NoLogger \<Rightarrow> log c | ActivityLog \<Rightarrow> log c @ [fst r])"
  by (simp add: ctl_forward_def ctl_log_def log_item_def split: logger.splits)

lemma ctl_forward_reachable:
  "reachable (store c) \<Longrightarrow> reachable (store (ctl_forward c (step (store c) ev)))"
  by (simp add: reachable.step)

lemma seed_sample_data_run:
  "store (seed_sample_data c) =
     snd (run (store c) [AddBook ''B001'' ''El Quijote'' ''Cervantes'' 1605 2,
        AddBook ''B002'' (''Cien a'' @ utf8_2 195 177 @ ''os de soledad'')
                 (''Garc'' @ utf8_2 195 173 @ ''a M'' @ utf8_2 195 161 @ ''rquez'') 1967 1,
        AddUser ''U001'' ''Ana'' ''ana@example.com'', AddUser ''U002'' ''Luis'' ''luis@example.com''])"
  by (simp add: seed_sample_data_def)

lemma seed_sample_data_reachable:
  "reachable (store c) \<Longrightarrow> reachable (store (seed_sample_data c))"
  unfolding seed_sample_data_run by (rule reachable_run)

text \<open>C22: the controller ignores whitespace around identifiers: borrowing, returning or registering with padded strings acts exactly as with the stripped ones.\<close>

theorem ctl_ids_whitespace_insensitive:
  "ctl_borrow c u b = ctl_borrow c (strip u) (strip b)
   \<and> ctl_return c u b = ctl_return c (strip u) (strip b)
   \<and> ctl_add_user c i n e = ctl_add_user c (strip i) (strip n) (strip e)"
  by (simp add: ctl_borrow_def ctl_return_def ctl_add_user_def strip_strip)

text \<open>Every controller command applied to a reachable store leaves a reachable store, so every property of reachable stores holds for the store the window displays.\<close>

theorem ctl_keeps_reachable:
  assumes "reachable (store c)"
  shows "reachable (store (ctl_add_book c i t a y n)) \<and> reachable (store (ctl_add_user c i t a))
    \<and> reachable (store (ctl_borrow c u b)) \<and> reachable (store (ctl_return c u b)) \<and> reachable (store (ctl_undo c))"
  using ctl_forward_reachable[OF assms, of "AddBook (strip i) (strip t) (strip a) y n"]
    ctl_forward_reachable[OF assms, of "AddUser (strip i) (strip t) (strip a)"]
    ctl_forward_reachable[OF assms, of "Borrow (strip u) (strip b)"]
    ctl_forward_reachable[OF assms, of "Return (strip u) (strip b)"] ctl_forward_reachable[OF assms, of Undo]
  by (simp add: ctl_add_book_def ctl_add_user_def ctl_borrow_def ctl_return_def ctl_undo_def)

text \<open>the sample data registers books B001 (two copies) and B002 (one copy) and users U001 and U002, all copies on the shelf, logging nothing, and the result is a reachable store.\<close>

theorem seed_sample_data_store:
  "reachable (store (seed_sample_data new_controller))
   \<and> map bk_id (books (store (seed_sample_data new_controller))) = [''B001'', ''B002'']
   \<and> map copies_available (books (store (seed_sample_data new_controller))) = [2, 1]
   \<and> map us_id (users (store (seed_sample_data new_controller))) = [''U001'', ''U002'']
   \<and> log (seed_sample_data new_controller) = []"
proof -
  have "reachable (store (seed_sample_data new_controller))"
    by (rule seed_sample_data_reachable) (simp add: new_controller_def make_controller_def reachable.init)
  moreover have "books (store (seed_sample_data new_controller)) =
      [mk_book ''B001'' ''El Quijote'' ''Cervantes'' 1605 2,
       mk_book ''B002'' (''Cien a'' @ utf8_2 195 177 @ ''os de soledad'')
                 (''Garc'' @ utf8_2 195 173 @ ''a M'' @ utf8_2 195 161 @ ''rquez'') 1967 1]"
    by (simp add: seed_sample_data_def new_controller_def make_controller_def store_eval utf8_2_def)
  moreover have "map us_id (users (store (seed_sample_data new_controller))) = [''U001'', ''U002'']"
    by (simp add: seed_sample_data_def new_controller_def make_controller_def store_eval utf8_2_def)
  ultimately show ?thesis by (simp add: seed_sample_data_def new_controller_def make_controller_def)
qed

text \<open>registering a book through a controller with the activity log installed strips the identifier, title and author before the store sees them, and logs the message of the store.\<close>

theorem ctl_add_book_strips:
  "books (store (ctl_add_book (make_controller ActivityLog) '' B7 '' ''  Rayuela'' ''Cortazar '' 1963 3)) =
     [mk_book ''B7'' ''Rayuela'' ''Cortazar'' 1963 3]
   \<and> log (ctl_add_book (make_controller ActivityLog) '' B7 '' ''  Rayuela'' ''Cortazar '' 1963 3) =
     [BookAdded ''Rayuela'']"
  by (simp add: ctl_add_book_def ctl_forward_def ctl_log_def log_item_def make_controller_def store_eval strip_def
      py_space_def)

end
