(* ===== verification/Window.thy ===== *)
theory Window
  imports Controller
begin

text \<open>
  The input side of \<open>MainWindow\<close> (\<open>src/views/main_window.py\<close>).  The window is
  built around the controller \<open>main.py\<close> creates, seeds it with the sample data
  (line 30), and then turns each button press into one controller call after checking
  the form:
  \<^item> \<open>on_add_book\<close> converts the year and copies fields with Python's \<open>int()\<close>
    and alerts when either conversion raises \<open>ValueError\<close>;
  \<^item> \<open>on_add_user\<close>, \<open>on_borrow\<close> and \<open>on_return\<close> strip their fields and alert
    when one of them is empty;
  \<^item> \<open>on_undo\<close> calls the controller directly.
  The table refreshes that follow every call only read the store; their rows and
  filters are in \<open>Window_Tables\<close>.
  \<open>set_logger\<close> would install the activity-list logger; nothing calls it.

  \<open>int(text)\<close> in base 10 strips whitespace, accepts one optional sign and then a
  digit sequence in which single underscores may separate digits.  \<open>py_int\<close> follows
  that grammar on ASCII text; a \<open>ValueError\<close> is \<open>None\<close>.
\<close>

definition py_digit :: "char \<Rightarrow> bool" where
  "py_digit c \<longleftrightarrow> (48 :: nat) \<le> of_char c \<and> of_char c \<le> (57 :: nat)"

definition digit_val :: "char \<Rightarrow> int" where
  "digit_val c = int (of_char c) - 48"

fun parse_digits :: "string \<Rightarrow> int \<Rightarrow> int option" where
  "parse_digits [] acc = Some acc"
| "parse_digits (c # cs) acc =
     (if py_digit c then parse_digits cs (10 * acc + digit_val c)
      else if c = CHR ''_'' \<and> cs \<noteq> [] \<and> py_digit (hd cs) then parse_digits cs acc
      else None)"

definition py_int :: "string \<Rightarrow> int option" where
  "py_int s =
     (case strip s of
        [] \<Rightarrow> None
      | c # cs \<Rightarrow>
          if c = CHR ''-'' \<or> c = CHR ''+'' then
            (case cs of
               [] \<Rightarrow> None
             | d # _ \<Rightarrow> if py_digit d
                         then map_option (\<lambda>n. if c = CHR ''-'' then - n else n) (parse_digits cs 0)
                         else None)
          else if py_digit c then parse_digits (c # cs) 0
          else None)"

text \<open>Python's \<open>str(n)\<close> for an integer, the printer the parser is checked against.\<close>

fun nat_str :: "nat \<Rightarrow> string" where
  "nat_str n = (if n < 10 then [char_of (48 + n)] else nat_str (n div 10) @ [char_of (48 + n mod 10)])"

declare nat_str.simps [simp del]

definition int_str :: "int \<Rightarrow> string" where
  "int_str i = (if i < 0 then CHR ''-'' # nat_str (nat (- i)) else nat_str (nat i))"

datatype alert = NumbersRequired | UserFieldsRequired | LoanFieldsRequired

datatype ui_action =
    AddBookForm string string string string string  \<comment> \<open>id, title, author, year and copies as typed\<close>
  | AddUserForm string string string  \<comment> \<open>id, name, e-mail\<close>
  | BorrowForm string string  \<comment> \<open>user id, book id\<close>
  | ReturnForm string string
  | UndoButton

definition on_add_book :: "library_controller \<Rightarrow> string \<Rightarrow> string \<Rightarrow> string \<Rightarrow> string \<Rightarrow> string \<Rightarrow> alert option \<times> library_controller" where
  "on_add_book c i t a ys cs =
     (case (py_int ys, py_int cs) of
        (Some y, Some n) \<Rightarrow> (None, ctl_add_book c i t a y n)
      | _ \<Rightarrow> (Some NumbersRequired, c))"

definition on_add_user :: "library_controller \<Rightarrow> string \<Rightarrow> string \<Rightarrow> string \<Rightarrow> alert option \<times> library_controller" where
  "on_add_user c i n e =
     (let uid = strip i; nm = strip n; em = strip e
      in if uid = [] \<or> nm = [] \<or> em = [] then (Some UserFieldsRequired, c)
         else (None, ctl_add_user c uid nm em))"

definition on_borrow :: "library_controller \<Rightarrow> string \<Rightarrow> string \<Rightarrow> alert option \<times> library_controller" where
  "on_borrow c u b =
     (let uid = strip u; bid = strip b
      in if uid = [] \<or> bid = [] then (Some LoanFieldsRequired, c) else (None, ctl_borrow c uid bid))"

definition on_return :: "library_controller \<Rightarrow> string \<Rightarrow> string \<Rightarrow> alert option \<times> library_controller" where
  "on_return c u b =
     (let uid = strip u; bid = strip b
      in if uid = [] \<or> bid = [] then (Some LoanFieldsRequired, c) else (None, ctl_return c uid bid))"

definition on_undo :: "library_controller \<Rightarrow> alert option \<times> library_controller" where
  "on_undo c = (None, ctl_undo c)"

text \<open>The buttons of the window, each connected to its handler (lines 60, 92 and 125--127).\<close>

fun window_step :: "library_controller \<Rightarrow> ui_action \<Rightarrow> alert option \<times> library_controller" where
  "window_step c (AddBookForm i t a ys cs) = on_add_book c i t a ys cs"
| "window_step c (AddUserForm i n e) = on_add_user c i n e"
| "window_step c (BorrowForm u b) = on_borrow c u b"
| "window_step c (ReturnForm u b) = on_return c u b"
| "window_step c UndoButton = on_undo c"

definition window_init :: "library_controller \<Rightarrow> library_controller" where
  "window_init c = seed_sample_data c"

definition set_logger :: "library_controller \<Rightarrow> library_controller" where
  "set_logger c = c\<lparr>logger := ActivityLog\<rparr>"

inductive window_reachable :: "library_controller \<Rightarrow> bool" where
  start: "window_reachable (window_init new_controller)"
| press: "window_reachable c \<Longrightarrow> window_reachable (snd (window_step c a))"

lemmas window_handlers = on_add_book_def on_add_user_def on_borrow_def on_return_def on_undo_def

subsection \<open>The integer fields\<close>

lemma parse_digits_append:
  "\<forall>c\<in>set xs. py_digit c \<Longrightarrow>
   parse_digits (xs @ ys) acc = parse_digits ys (foldl (\<lambda>a c. 10 * a + digit_val c) acc xs)"
  by (induction xs arbitrary: acc) auto

lemma digit_char [simp]:
  "k < 10 \<Longrightarrow> py_digit (char_of (48 + k)) \<and> digit_val (char_of (48 + k)) = int k"
  by (simp add: py_digit_def digit_val_def of_char_of)

lemma nat_str_digits: "\<forall>c\<in>set (nat_str n). py_digit c"
  by (induction n rule: nat_str.induct) (subst nat_str.simps, auto)

lemma nat_str_value:
  "foldl (\<lambda>a c. 10 * a + digit_val c) acc (nat_str n) = acc * 10 ^ length (nat_str n) + int n"
proof (induction n arbitrary: acc rule: nat_str.induct)
  case (1 n)
  show ?case
  proof (cases "n < 10")
    case True
    then show ?thesis by (simp add: nat_str.simps[of n])
  next
    case False
    then have "foldl (\<lambda>a c. 10 * a + digit_val c) acc (nat_str n) =
        10 * (acc * 10 ^ length (nat_str (n div 10)) + int (n div 10)) + int (n mod 10)"
      using "1.IH" by (subst nat_str.simps) simp
    also have "\<dots> = acc * 10 ^ length (nat_str n) + int n"
    proof -
      have "int (n mod 10) + 10 * int (n div 10) = int n"
        using div_mult_mod_eq[of n 10] by linarith
      then show ?thesis using False by (simp add: nat_str.simps[of n] algebra_simps)
    qed
    finally show ?thesis .
  qed
qed

lemma nat_str_Cons: "\<exists>d ds. nat_str n = d # ds \<and> py_digit d"
proof -
  have "nat_str n \<noteq> []" by (subst nat_str.simps) simp
  then obtain d ds where "nat_str n = d # ds" by (cases "nat_str n") auto
  moreover have "py_digit d" using nat_str_digits[of n] calculation by simp
  ultimately show ?thesis by blast
qed

lemma strip_no_space: "\<forall>c\<in>set s. \<not> py_space c \<Longrightarrow> strip s = s"
proof -
  assume h: "\<forall>c\<in>set s. \<not> py_space c"
  then have "dropWhile py_space s = s" by (cases s) simp_all
  moreover have "dropWhile py_space (rev s) = rev s" using h by (cases "rev s") auto
  ultimately show ?thesis by (simp add: strip_def)
qed

lemma digit_not_space: "py_digit c \<Longrightarrow> \<not> py_space c"
  by (auto simp: py_digit_def py_space_def)

lemma parse_nat_str: "parse_digits (nat_str n) 0 = Some (int n)"
  using parse_digits_append[OF nat_str_digits, of n "[]" 0] nat_str_value[of 0 n] by simp

text \<open>The model of \<open>int()\<close> reads back what \<open>str()\<close> prints: every integer, negative ones included, parses from its decimal text to itself.\<close>

theorem py_int_int_str: "py_int (int_str i) = Some i"
proof (cases "i < 0")
  case True
  obtain d ds where nd: "nat_str (nat (- i)) = d # ds" "py_digit d" using nat_str_Cons by blast
  have "strip (int_str i) = int_str i"
    using True nat_str_digits[of "nat (- i)"] digit_not_space
    by (intro strip_no_space) (auto simp: int_str_def py_space_def)
  then show ?thesis using True nd parse_nat_str[of "nat (- i)"] by (simp add: py_int_def int_str_def)
next
  case False
  obtain d ds where nd: "nat_str (nat i) = d # ds" "py_digit d" using nat_str_Cons by blast
  have "strip (int_str i) = int_str i"
    using False nat_str_digits[of "nat i"] digit_not_space by (intro strip_no_space) (auto simp: int_str_def)
  moreover have "d \<noteq> CHR ''-'' \<and> d \<noteq> CHR ''+''" using nd(2) by (auto simp: py_digit_def)
  ultimately show ?thesis using False nd parse_nat_str[of "nat i"] by (simp add: py_int_def int_str_def)
qed

text \<open>on sample fields the model of \<open>int()\<close> answers as Python does: surrounding blanks, a sign, leading zeros and single underscores between digits are accepted; an empty field, a decimal point, a doubled or leading underscore and a blank after the sign raise \<open>ValueError\<close>.\<close>

lemma py_int_samples:
  "py_int '' 42 '' = Some 42 \<and> py_int ''-7'' = Some (-7) \<and> py_int ''+1_000'' = Some 1000
   \<and> py_int ''007'' = Some 7 \<and> py_int '''' = None \<and> py_int ''12.5'' = None
   \<and> py_int ''1__0'' = None \<and> py_int ''_1'' = None \<and> py_int ''- 5'' = None"
  by (simp add: py_int_def strip_def py_space_def py_digit_def digit_val_def)

subsection \<open>The store behind the window\<close>

text \<open>
  Borrowing, returning and undoing never change the list of user ids; only \<open>add_user\<close>
  extends it.  Every button press is either rejected by the form check, leaving the
  controller alone, or one controller call, and the window only ever registers users
  whose stripped id is non-empty.
\<close>

lemma step_user_ids:
  "us_id ` set (users (snd (step s ev))) \<subseteq> us_id ` set (users s) \<union> {i. \<exists>n e. ev = AddUser i n e}"
proof (cases "\<exists>i n e. ev = AddUser i n e")
  case True
  then show ?thesis by (auto simp: add_user_def split: option.splits)
next
  case False
  then have "map us_id (users (snd (step s ev))) = map us_id (users s)"
    by (cases ev) (simp_all add: add_book_def lending_user_ids undo_last_user_ids split: option.splits)
  then show ?thesis by (metis list.set_map sup.cobounded1)
qed

lemma window_step_cases:
  "snd (window_step c a) = c \<or>
   (\<exists>ev. snd (window_step c a) = ctl_forward c (step (store c) ev) \<and> (\<forall>i n e. ev = AddUser i n e \<longrightarrow> i \<noteq> []))"
proof (cases a)
  case (AddBookForm i t au ys cs)
  then show ?thesis
    by (auto simp: window_handlers Let_def ctl_add_book_def split: option.splits intro: exI[where x = "AddBook (strip i) (strip t) (strip au) y n" for y n])
next
  case (AddUserForm i n e)
  then show ?thesis
    by (auto simp: window_handlers Let_def ctl_add_user_def strip_strip intro!: exI[where x = "AddUser (strip i) (strip n) (strip e)"])
next
  case (BorrowForm u b)
  then show ?thesis by (auto simp: window_handlers Let_def ctl_borrow_def strip_strip intro!: exI[where x = "Borrow (strip u) (strip b)"])
next
  case (ReturnForm u b)
  then show ?thesis by (auto simp: window_handlers Let_def ctl_return_def strip_strip intro!: exI[where x = "Return (strip u) (strip b)"])
qed (auto simp: window_handlers Let_def ctl_undo_def intro!: exI[where x = Undo])

lemma window_init_store:
  "map us_id (users (store (window_init new_controller))) = [''U001'', ''U002'']
   \<and> logger (window_init new_controller) = NoLogger \<and> log (window_init new_controller) = []"
  by (simp add: window_init_def seed_sample_data_def new_controller_def make_controller_def store_eval
      utf8_2_def)

lemma window_reachable_store:
  "window_reachable c \<Longrightarrow> reachable (store c) \<and> (\<forall>u\<in>set (users (store c)). us_id u \<noteq> [])"
proof (induction rule: window_reachable.induct)
  case start
  have "reachable (store (window_init new_controller))"
    unfolding window_init_def
    by (rule seed_sample_data_reachable) (simp add: new_controller_def make_controller_def reachable.init)
  moreover have "us_id u \<noteq> []" if "u \<in> set (users (store (window_init new_controller)))" for u
  proof -
    have "us_id u \<in> set (map us_id (users (store (window_init new_controller))))" using that by simp
    then have "us_id u \<in> {''U001'', ''U002''}" by (simp only: window_init_store list.set)
    moreover have "x \<in> {''U001'', ''U002''} \<Longrightarrow> x \<noteq> []" for x :: string by auto
    ultimately show ?thesis by blast
  qed
  ultimately show ?case by blast
next
  case (press c a)
  from window_step_cases[of c a] show ?case
  proof
    assume "snd (window_step c a) = c"
    then show ?thesis using press.IH by simp
  next
    assume "\<exists>ev. snd (window_step c a) = ctl_forward c (step (store c) ev) \<and> (\<forall>i n e. ev = AddUser i n e \<longrightarrow> i \<noteq> [])"
    then obtain ev where ev: "snd (window_step c a) = ctl_forward c (step (store c) ev)"
      and ne: "\<forall>i n e. ev = AddUser i n e \<longrightarrow> i \<noteq> []" by blast
    have "reachable (store (snd (window_step c a)))"
      unfolding ev by (rule ctl_forward_reachable) (use press.IH in blast)
    moreover have "us_id u \<noteq> []" if u: "u \<in> set (users (store (snd (window_step c a))))" for u
    proof -
      have "us_id u \<in> us_id ` set (users (snd (step (store c) ev)))" using u ev by simp
      then have "us_id u \<in> us_id ` set (users (store c)) \<or> (\<exists>n e. ev = AddUser (us_id u) n e)"
        using step_user_ids[of "store c" ev] by blast
      then show ?thesis using press.IH ne by (elim disjE exE imageE) auto
    qed
    ultimately show ?thesis by blast
  qed
qed

text \<open>C23: the activity list of the window stays empty: \<open>set_logger\<close> is never called, so the controller the window drives keeps its no-op logger and no message of the store is ever logged, whatever buttons are pressed.\<close>

lemma window_log_silent:
  "window_reachable c \<Longrightarrow> logger c = NoLogger \<and> log c = []"
proof (induction rule: window_reachable.induct)
  case start
  then show ?case using window_init_store by blast
next
  case (press c a)
  then show ?case using window_step_cases[of c a] by auto
qed

text \<open>C24: in every state the window can reach, each reservation queued for a book names a registered user with a non-empty id, so the side condition of the undo-return round trip holds for the head of every queue.\<close>

lemma window_queue_registered:
  assumes "window_reachable c" "find_book (store c) bid = Some b" "nu \<in> set (reservations b)"
  shows "nu \<noteq> [] \<and> find_user (store c) nu \<noteq> None"
proof -
  have r: "reachable (store c)" and ne: "\<forall>u\<in>set (users (store c)). us_id u \<noteq> []"
    using window_reachable_store[OF assms(1)] by blast+
  have "b \<in> set (books (store c))" using assms(2) by (auto simp: find_book_def)
  then have "book_ok (store c) b" using reachable_inv[OF r] by (simp add: store_inv_def)
  then have "nu \<in> us_id ` set (users (store c))" using assms(3) by (auto simp: book_ok_def)
  moreover from this have "nu \<noteq> []" using ne by (auto elim!: imageE)
  ultimately show ?thesis using find_ids_iff(1)[of "store c" nu] by blast
qed

text \<open>the window accepts a negative number of copies: \<open>int(' -1')\<close> parses, no alert is raised, and the book is registered with -1 copies available.\<close>

lemma window_accepts_negative_copies:
  "window_step (window_init new_controller) (AddBookForm ''B9'' ''Atlas'' ''Anon'' ''2000'' '' -1'') =
     (None, ctl_add_book (window_init new_controller) ''B9'' ''Atlas'' ''Anon'' 2000 (-1))
   \<and> map_option copies_available
       (find_book (store (snd (window_step (window_init new_controller)
          (AddBookForm ''B9'' ''Atlas'' ''Anon'' ''2000'' '' -1'')))) ''B9'') = Some (-1)"
  by (simp add: window_handlers py_int_def strip_def py_space_def py_digit_def digit_val_def ctl_add_book_def
      window_init_def seed_sample_data_def new_controller_def make_controller_def store_eval utf8_2_def)

end
