(* ===== verification/Window_Tables.thy ===== *)
theory Window_Tables
  imports Window
begin

text \<open>
  The read side of \<open>MainWindow\<close>: the rows \<open>on_list_books\<close> and \<open>on_list_users\<close>
  write into the two tables and whether they then re-apply the filter (its box visible
  and its text not blank), and the filters \<open>filter_books_table\<close> and
  \<open>filter_users_table\<close> that hide every row none of whose cells contains the query.
  Text is UTF-8; \<open>py_lower\<close> is \<open>str.lower()\<close> on ASCII letters and on the Latin-1
  capitals \<open>U+00C0\<close> to \<open>U+00DE\<close> (except \<open>U+00D7\<close>), and \<open>s in t\<close> is
  \<open>str_contains\<close>, a substring test that on valid UTF-8 agrees with the test on code points.
\<close>

definition lower_char :: "char \<Rightarrow> char" where
  "lower_char c = (if (65 :: nat) \<le> of_char c \<and> of_char c \<le> (90 :: nat) then char_of (of_char c + (32 :: nat)) else c)"

definition latin1_upper :: "char \<Rightarrow> bool" where
  "latin1_upper d \<longleftrightarrow> (128 :: nat) \<le> of_char d \<and> of_char d \<le> (158 :: nat) \<and> of_char d \<noteq> (151 :: nat)"

fun py_lower :: "string \<Rightarrow> string" where
  "py_lower [] = []"
| "py_lower [c] = [lower_char c]"
| "py_lower (c # d # cs) =
     (if of_char c = (195 :: nat) \<and> latin1_upper d then c # char_of (of_char d + (32 :: nat)) # py_lower cs
      else lower_char c # py_lower (d # cs))"

fun str_contains :: "string \<Rightarrow> string \<Rightarrow> bool" where
  "str_contains n [] = (n = [])"
| "str_contains n (h # hs) = (take (length n) (h # hs) = n \<or> str_contains n hs)"

definition book_row :: "book \<Rightarrow> string list" where
  "book_row b = [bk_id b, title b, author b, int_str (year b), int_str (copies_total b),
                 int_str (copies_available b), nat_str (length (reservations b))]"

fun join_str :: "string \<Rightarrow> string list \<Rightarrow> string" where
  "join_str sep [] = []"
| "join_str sep [x] = x"
| "join_str sep (x # y # xs) = x @ sep @ join_str sep (y # xs)"

definition user_row :: "user \<Rightarrow> string list" where
  "user_row u = [us_id u, name u, email u,
                 if borrowed u = [] then [char_of (226 :: nat), char_of (128 :: nat), char_of (148 :: nat)]
                 else join_str '', '' (borrowed u)]"

definition filter_books_table :: "string \<Rightarrow> string list list \<Rightarrow> bool list" where
  "filter_books_table text rows =
     (let t = py_lower (strip text)
      in map (\<lambda>row. \<not> (t = [] \<or> list_ex (\<lambda>cell. str_contains t (py_lower cell)) row)) rows)"

text \<open>\<open>filter_users_table\<close> is the same code on the users table.\<close>

definition filter_users_table :: "string \<Rightarrow> string list list \<Rightarrow> bool list" where
  "filter_users_table text rows = filter_books_table text rows"

definition on_list_books :: "library_controller \<Rightarrow> bool \<Rightarrow> string \<Rightarrow> string list list \<times> bool" where
  "on_list_books c visible text = (map book_row (get_books c), visible \<and> strip text \<noteq> [])"

definition on_list_users :: "library_controller \<Rightarrow> bool \<Rightarrow> string \<Rightarrow> string list list \<times> bool" where
  "on_list_users c visible text = (map user_row (get_users c), visible \<and> strip text \<noteq> [])"

subsection \<open>Substrings and lower case\<close>

lemma str_contains_iff:
  "str_contains n h \<longleftrightarrow> (\<exists>ps ss. h = ps @ n @ ss)"
proof (induction h)
  case Nil
  then show ?case by simp
next
  case (Cons x hs)
  show ?case
  proof
    assume "str_contains n (x # hs)"
    then consider "take (length n) (x # hs) = n" | "str_contains n hs" by auto
    then show "\<exists>ps ss. x # hs = ps @ n @ ss"
    proof cases
      case 1
      then show ?thesis by (metis append_Nil append_take_drop_id)
    next
      case 2
      then obtain ps ss where "hs = ps @ n @ ss" using Cons.IH by blast
      then show ?thesis by (metis append_Cons)
    qed
  next
    assume "\<exists>ps ss. x # hs = ps @ n @ ss"
    then obtain ps ss where e: "x # hs = ps @ n @ ss" by blast
    show "str_contains n (x # hs)"
    proof (cases ps)
      case Nil
      then show ?thesis using e by (metis str_contains.simps(2) append_Nil append_eq_conv_conj)
    next
      case (Cons p ps')
      then have "hs = ps' @ n @ ss" using e by simp
      then show ?thesis using Cons.IH by auto
    qed
  qed
qed

lemma str_contains_trans:
  "str_contains a b \<Longrightarrow> str_contains b c \<Longrightarrow> str_contains a c"
  unfolding str_contains_iff by (metis append.assoc)

lemma str_contains_refl: "str_contains a a"
  unfolding str_contains_iff by (metis append_Nil append_Nil2)






text \<open>C30: refining a filter never shows more rows: when the normalised first query is a substring of the normalised second one, every row hidden by the first is hidden by the second.\<close>

theorem filter_refine:
  assumes "str_contains (py_lower (strip q1)) (py_lower (strip q2))" "i < length rows"
    and "filter_books_table q1 rows ! i"
  shows "filter_books_table q2 rows ! i"
proof -
  have h1: "py_lower (strip q1) \<noteq> []" "\<not> list_ex (\<lambda>cell. str_contains (py_lower (strip q1)) (py_lower cell)) (rows ! i)"
    using assms(2,3) by (simp_all add: filter_books_table_def Let_def)
  have "py_lower (strip q2) \<noteq> []" using assms(1) h1(1) by (auto simp: str_contains_iff)
  moreover have "\<not> list_ex (\<lambda>cell. str_contains (py_lower (strip q2)) (py_lower cell)) (rows ! i)"
    using h1(2) assms(1) str_contains_trans by (fastforce simp: list_ex_iff)
  ultimately show ?thesis using assms(2) by (simp add: filter_books_table_def Let_def)
qed


end
