(* ===== verification/Table_Sorting.thy ===== *)
theory Table_Sorting
  imports Window_Tables "HOL-Library.List_Lexorder" "HOL-Library.Char_ord"
begin

text \<open>
  How Qt fills and filters the two tables of \<open>MainWindow\<close>.  A table is its rows,
  each row its cells (\<open>None\<close> for a cell with no item) and the flag
  \<open>setRowHidden\<close> set on it.  \<open>tune_table\<close> (\<open>src/styles/style.py\<close>, line 22)
  turns sorting on, and \<open>on_list_books\<close> and \<open>on_list_users\<close> then fill the table
  with \<open>setRowCount\<close> and one \<open>setItem(row, col, ...)\<close> per cell, row by row.
  \<open>setRowCount\<close> keeps the first rows, their items and their hidden flags, and
  appends empty shown rows.  \<open>QTableWidget.setItem\<close> moves the row to its sorted
  position when sorting is enabled and the item goes into the sort column.  Its
  implementation (\<open>QTableModel::setItem\<close>) compares the item with the column's
  items up to the first empty cell, the row being set left out.  The position is a
  \<open>lower_bound\<close> under \<open><\<close> (ascending) or \<open>>\<close> (descending) on the item's text.
  The row is moved there with its hidden flag (the vertical header keeps hidden
  sections through the model's layout change) and the item set in it.  Item texts
  compare as strings (\<open>QString::compare\<close>, which for ASCII is the lexicographic
  order of \<open>List_Lexorder\<close>).  A header's sort indicator starts on section 0,
  descending (\<open>qt_initial_sort\<close>); \<open>qt_default_sort\<close> is the state
  \<open>setSortingEnabled(True)\<close> leaves.  \<open>qt_filter\<close> is the loop of
  \<open>filter_books_table\<close> and \<open>filter_users_table\<close> over the cells the table holds.
\<close>

datatype sort_dir = AscendingOrder | DescendingOrder

record sort_state =
  sort_enabled :: bool
  sort_section :: nat
  sort_order :: sort_dir

definition qt_initial_sort :: sort_state where
  "qt_initial_sort = \<lparr>sort_enabled = False, sort_section = 0, sort_order = DescendingOrder\<rparr>"

definition qt_default_sort :: sort_state where
  "qt_default_sort = \<lparr>sort_enabled = True, sort_section = 0, sort_order = DescendingOrder\<rparr>"

type_synonym qt_row = "string option list \<times> bool"
type_synonym qt_table = "qt_row list"

definition set_row_count :: "nat \<Rightarrow> nat \<Rightarrow> qt_table \<Rightarrow> qt_table" where
  "set_row_count k n t = take n t @ replicate (n - length t) (replicate k None, False)"

definition column_items :: "nat \<Rightarrow> qt_table \<Rightarrow> string list" where
  "column_items c t = map the (takeWhile (\<lambda>x. x \<noteq> None) (map (\<lambda>row. fst row ! c) t))"

fun sorts_before :: "sort_dir \<Rightarrow> string \<Rightarrow> string \<Rightarrow> bool" where
  "sorts_before AscendingOrder x v = (x < v)"
| "sorts_before DescendingOrder x v = (v < x)"

definition insertion_row :: "sort_dir \<Rightarrow> string \<Rightarrow> string list \<Rightarrow> nat" where
  "insertion_row d v xs = length (takeWhile (\<lambda>x. sorts_before d x v) xs)"

definition move_row :: "nat \<Rightarrow> nat \<Rightarrow> 'a list \<Rightarrow> 'a list" where
  "move_row r p t = (let rest = take r t @ drop (Suc r) t in take p rest @ [t ! r] @ drop p rest)"

definition set_cell :: "nat \<Rightarrow> nat \<Rightarrow> string \<Rightarrow> qt_table \<Rightarrow> qt_table" where
  "set_cell r c v t = t[r := ((fst (t ! r))[c := Some v], snd (t ! r))]"

definition set_item :: "sort_state \<Rightarrow> nat \<Rightarrow> nat \<Rightarrow> string \<Rightarrow> qt_table \<Rightarrow> qt_table" where
  "set_item ss r c v t =
     (if sort_enabled ss \<and> c = sort_section ss then
        let xs = column_items c t;
            xs' = (if r < length xs then take r xs @ drop (Suc r) xs else xs);
            p = insertion_row (sort_order ss) v xs'
        in if p \<noteq> r then set_cell p c v (move_row r p t) else set_cell r c v t
      else set_cell r c v t)"

fun fill_row :: "sort_state \<Rightarrow> nat \<Rightarrow> nat \<Rightarrow> string list \<Rightarrow> qt_table \<Rightarrow> qt_table" where
  "fill_row ss r c [] t = t"
| "fill_row ss r c (v # vs) t = fill_row ss r (Suc c) vs (set_item ss r c v t)"

fun fill_rows :: "sort_state \<Rightarrow> nat \<Rightarrow> string list list \<Rightarrow> qt_table \<Rightarrow> qt_table" where
  "fill_rows ss r [] t = t"
| "fill_rows ss r (row # rows) t = fill_rows ss (Suc r) rows (fill_row ss r 0 row t)"

definition qt_set_rows :: "sort_state \<Rightarrow> nat \<Rightarrow> string list list \<Rightarrow> qt_table \<Rightarrow> qt_table" where
  "qt_set_rows ss k rows t = fill_rows ss 0 rows (set_row_count k (length rows) t)"

definition cell_text :: "string option \<Rightarrow> string" where
  "cell_text x = (case x of None \<Rightarrow> [] | Some s \<Rightarrow> s)"

definition qt_filter :: "(string \<Rightarrow> string list list \<Rightarrow> bool list) \<Rightarrow> string \<Rightarrow> qt_table \<Rightarrow> qt_table" where
  "qt_filter f text t = map2 (\<lambda>row h. (fst row, h)) t (f text (map (\<lambda>row. map cell_text (fst row)) t))"

abbreviation blank_row :: "nat \<Rightarrow> qt_row" where
  "blank_row k \<equiv> (replicate k None, False)"

abbreviation id_row :: "nat \<Rightarrow> string \<Rightarrow> qt_row" where
  "id_row j x \<equiv> (Some x # replicate j None, False)"

subsection \<open>Shape\<close>

lemma length_move_row [simp]: "r < length t \<Longrightarrow> length (move_row r p t) = length t"
  by (simp add: move_row_def Let_def min_def)

lemma length_set_item [simp]: "r < length t \<Longrightarrow> length (set_item ss r c v t) = length t"
  by (auto simp: set_item_def set_cell_def Let_def)

lemma length_fill_row [simp]: "r < length t \<Longrightarrow> length (fill_row ss r c vs t) = length t"
  by (induction vs arbitrary: c t) simp_all

lemma length_fill_rows: "length t = r + length rows \<Longrightarrow> length (fill_rows ss r rows t) = length t"
  by (induction rows arbitrary: r t) simp_all

lemma length_qt_set_rows [simp]: "length (qt_set_rows ss k rows t) = length rows"
  by (simp add: qt_set_rows_def length_fill_rows set_row_count_def)

lemma length_qt_filter [simp]:
  "length (f text (map (\<lambda>row. map cell_text (fst row)) t)) = length t \<Longrightarrow> length (qt_filter f text t) = length t"
  by (simp add: qt_filter_def)

subsection \<open>Filling row by row\<close>

lemma fill_row_plain:
  "\<not> sort_enabled ss \<or> sort_section ss < c \<Longrightarrow> r < length t \<Longrightarrow> c + length vs \<le> length (fst (t ! r)) \<Longrightarrow>
   fill_row ss r c vs t
     = t[r := (take c (fst (t ! r)) @ map Some vs @ drop (c + length vs) (fst (t ! r)), snd (t ! r))]"
proof (induction vs arbitrary: c t)
  case Nil
  then show ?case by simp
next
  case (Cons v vs)
  let ?t = "t[r := ((fst (t ! r))[c := Some v], snd (t ! r))]"
  have "fill_row ss r c (v # vs) t = fill_row ss r (Suc c) vs ?t"
    using Cons.prems(1) by (auto simp: set_item_def set_cell_def)
  also have "\<dots> = ?t[r := (take (Suc c) (fst (?t ! r)) @ map Some vs @ drop (Suc c + length vs) (fst (?t ! r)),
                           snd (?t ! r))]"
    using Cons.prems by (intro Cons.IH) auto
  also have "\<dots> = t[r := (take c (fst (t ! r)) @ map Some (v # vs) @ drop (c + length (v # vs)) (fst (t ! r)),
                         snd (t ! r))]"
    using Cons.prems by (simp add: take_Suc_conv_app_nth)
  finally show ?case .
qed

subsection \<open>Hidden flags\<close>

text \<open>A fill moves rows with their flags and appends shown rows, so it hides no row that
  was shown; the filter sets every flag from the cells.\<close>

lemma shown_set_cell:
  assumes "list_all (\<lambda>x. \<not> snd x) t"
  shows "list_all (\<lambda>x. \<not> snd x) (set_cell p c v t)"
proof (cases "p < length t")
  case True
  then show ?thesis using assms
    by (auto simp: set_cell_def list_all_iff dest!: set_update_subset_insert[THEN subsetD])
qed (use assms in \<open>simp add: set_cell_def list_update_beyond not_less\<close>)

lemma shown_move_row: "r < length t \<Longrightarrow> list_all P t \<Longrightarrow> list_all P (move_row r p t)"
  by (auto simp: move_row_def Let_def list_all_iff dest: in_set_takeD in_set_dropD)

lemma shown_set_item:
  "r < length t \<Longrightarrow> list_all (\<lambda>x. \<not> snd x) t \<Longrightarrow> list_all (\<lambda>x. \<not> snd x) (set_item ss r c v t)"
  by (simp add: set_item_def Let_def shown_set_cell shown_move_row)

lemma shown_fill_row:
  "r < length t \<Longrightarrow> list_all (\<lambda>x. \<not> snd x) t \<Longrightarrow> list_all (\<lambda>x. \<not> snd x) (fill_row ss r c vs t)"
  by (induction vs arbitrary: c t) (simp_all add: shown_set_item)

lemma shown_fill_rows:
  "length t = r + length rows \<Longrightarrow> list_all (\<lambda>x. \<not> snd x) t \<Longrightarrow> list_all (\<lambda>x. \<not> snd x) (fill_rows ss r rows t)"
  by (induction rows arbitrary: r t) (simp_all add: shown_fill_row)

lemma shown_qt_set_rows:
  "list_all (\<lambda>x. \<not> snd x) t \<Longrightarrow> list_all (\<lambda>x. \<not> snd x) (qt_set_rows ss k rows t)"
  unfolding qt_set_rows_def
  by (rule shown_fill_rows) (auto simp: set_row_count_def list_all_iff dest: in_set_takeD)

lemma qt_filter_shown:
  "list_all Not (f text (map (\<lambda>row. map cell_text (fst row)) t)) \<Longrightarrow> list_all (\<lambda>x. \<not> snd x) (qt_filter f text t)"
  by (auto simp: qt_filter_def list_all_iff dest: set_zip_rightD)

text \<open>The first \<open>setItem\<close> of a fill into empty rows leaves the row where it is.\<close>

lemma fill_first:
  assumes "length ys = j"
  shows "fill_row qt_default_sort 0 0 (y # ys) (replicate (Suc m) (blank_row (Suc j)))
           = (Some y # map Some ys, False) # replicate m (blank_row (Suc j))"
proof -
  have s: "set_item qt_default_sort 0 0 y ((None # replicate j None, False) # replicate m (blank_row (Suc j)))
             = id_row j y # replicate m (blank_row (Suc j))"
    by (simp add: set_item_def qt_default_sort_def column_items_def insertion_row_def set_cell_def)
  have "fill_row qt_default_sort 0 0 (y # ys) (replicate (Suc m) (blank_row (Suc j)))
          = fill_row qt_default_sort 0 1 ys (id_row j y # replicate m (blank_row (Suc j)))"
    using s by simp
  also have "\<dots> = (Some y # map Some ys, False) # replicate m (blank_row (Suc j))"
    using fill_row_plain[of qt_default_sort 1 0 "id_row j y # replicate m (blank_row (Suc j))" ys] assms
    by (simp add: qt_default_sort_def)
  finally show ?thesis .
qed

text \<open>Under the descending sort of column 0, an id no smaller than the ids above sorts
  to the top: its row moves there, and the rest of the row is written into the row that
  now has its index, the one holding the first id.\<close>

lemma fill_desc_step:
  assumes "length ys = j" "length cs = j" "\<not> y < d" "d = (case ds of [] \<Rightarrow> i0 | x # _ \<Rightarrow> x)"
  shows "fill_row qt_default_sort (Suc (length ds)) 0 (y # ys)
           (map (id_row j) ds @ (Some i0 # cs, False) # replicate (Suc m) (blank_row (Suc j)))
         = map (id_row j) (y # ds) @ (Some i0 # map Some ys, False) # replicate m (blank_row (Suc j))"
proof -
  let ?t = "map (id_row j) ds @ (Some i0 # cs, False) # replicate (Suc m) (blank_row (Suc j))"
  let ?u = "id_row j y # map (id_row j) ds @ (Some i0 # cs, False) # replicate m (blank_row (Suc j))"
  have c: "column_items 0 ?t = ds @ [i0]"
    by (simp add: column_items_def takeWhile_append comp_def)
  have p: "insertion_row DescendingOrder y (ds @ [i0]) = 0"
    using assms(3,4) by (cases ds) (simp_all add: insertion_row_def)
  have mv: "move_row (Suc (length ds)) 0 ?t
              = blank_row (Suc j) # map (id_row j) ds @ (Some i0 # cs, False) # replicate m (blank_row (Suc j))"
    by (simp add: move_row_def nth_append)
  have "set_item qt_default_sort (Suc (length ds)) 0 y ?t = ?u"
    using c p mv by (simp add: set_item_def qt_default_sort_def set_cell_def)
  moreover have "fill_row qt_default_sort (Suc (length ds)) 1 ys ?u
      = map (id_row j) (y # ds) @ (Some i0 # map Some ys, False) # replicate m (blank_row (Suc j))"
    using fill_row_plain[of qt_default_sort 1 "Suc (length ds)" ?u ys] assms(1,2)
    by (simp add: qt_default_sort_def nth_append list_update_append)
  ultimately show ?thesis by (simp add: One_nat_def)
qed

lemma fill_desc:
  assumes "list_all (\<lambda>r. length r = Suc j) rows" "sorted (d # map hd rows)" "length cs = j"
    "d = (case ds of [] \<Rightarrow> i0 | x # _ \<Rightarrow> x)"
  shows "fill_rows qt_default_sort (Suc (length ds)) rows
           (map (id_row j) ds @ (Some i0 # cs, False) # replicate (length rows) (blank_row (Suc j)))
         = map (id_row j) (rev (map hd rows) @ ds)
             @ [(Some i0 # (if rows = [] then cs else map Some (tl (last rows))), False)]"
  using assms
proof (induction rows arbitrary: ds cs d)
  case Nil
  then show ?case by simp
next
  case (Cons row rows)
  obtain y ys where row: "row = y # ys" "length ys = j"
    using Cons.prems(1) by (cases row) auto
  have "d \<le> y" using Cons.prems(2) row by simp
  then have "\<not> y < d" by (simp add: not_less)
  then have "fill_row qt_default_sort (Suc (length ds)) 0 row
      (map (id_row j) ds @ (Some i0 # cs, False) # replicate (length (row # rows)) (blank_row (Suc j)))
    = map (id_row j) (y # ds) @ (Some i0 # map Some ys, False) # replicate (length rows) (blank_row (Suc j))"
    using fill_desc_step[OF row(2) Cons.prems(3) _ Cons.prems(4)] row by simp
  moreover have "fill_rows qt_default_sort (Suc (length (y # ds))) rows
      (map (id_row j) (y # ds) @ (Some i0 # map Some ys, False) # replicate (length rows) (blank_row (Suc j)))
    = map (id_row j) (rev (map hd rows) @ y # ds)
        @ [(Some i0 # (if rows = [] then map Some ys else map Some (tl (last rows))), False)]"
    using Cons.prems(1,2) row by (intro Cons.IH) simp_all
  ultimately show ?case using row by simp
qed

lemma qt_fill_desc:
  assumes "rows \<noteq> []" "list_all (\<lambda>r. length r = Suc j) rows" "sorted (map hd rows)"
  shows "qt_set_rows qt_default_sort (Suc j) rows []
           = map (id_row j) (rev (map hd (tl rows))) @ [(Some (hd (hd rows)) # map Some (tl (last rows)), False)]"
proof -
  obtain y ys rest where r: "rows = (y # ys) # rest" "length ys = j"
    using assms(1,2) by (cases rows; cases "hd rows") auto
  have "fill_row qt_default_sort 0 0 (y # ys) (replicate (Suc (length rest)) (blank_row (Suc j)))
      = map (id_row j) [] @ (Some y # map Some ys, False) # replicate (length rest) (blank_row (Suc j))"
    using fill_first[OF r(2)] by simp
  moreover have "fill_rows qt_default_sort (Suc (length ([] :: string list))) rest
      (map (id_row j) [] @ (Some y # map Some ys, False) # replicate (length rest) (blank_row (Suc j)))
    = map (id_row j) (rev (map hd rest) @ [])
        @ [(Some y # (if rest = [] then map Some ys else map Some (tl (last rest))), False)]"
    using assms(2,3) r by (intro fill_desc) simp_all
  ultimately show ?thesis using r by (simp add: qt_set_rows_def set_row_count_def)
qed

text \<open>The first fill of the books table from a store whose ids ascend.\<close>

lemma qt_fill_books:
  assumes "get_books c \<noteq> []" "sorted (map bk_id (get_books c))"
  shows "qt_set_rows qt_default_sort 7 (map book_row (get_books c)) []
           = map (\<lambda>b. id_row 6 (bk_id b)) (rev (tl (get_books c)))
             @ [(Some (bk_id (hd (get_books c))) # map Some (tl (book_row (last (get_books c)))), False)]"
proof -
  have h: "hd \<circ> book_row = bk_id" by (simp add: book_row_def fun_eq_iff)
  have "list_all (\<lambda>r. length r = Suc 6) (map book_row (get_books c))"
    by (simp add: book_row_def list_all_iff)
  from qt_fill_desc[OF _ this] show ?thesis
    using assms by (simp add: h last_map hd_map book_row_def rev_map[symmetric] map_tl comp_def)
qed

end
