(* ===== verification/Window_View.thy ===== *)
theory Window_View
  imports Table_Sorting
begin

text \<open>
  The state of \<open>MainWindow\<close> as the user sees it: which tab is current, the two
  tables (their headers, their Qt rows with the hidden flags, visibility, the settings
  \<open>tune_table\<close> of \<open>src/styles/style.py\<close> gives them and the sort state it
  enables), the two filter boxes and the captions of the two list buttons.
  \<open>mw_init\<close> is \<open>__init__\<close>: the three tabs are built, the sample data seeded and
  both lists filled.  \<open>mw_step\<close> is one user action: pressing a button of the
  current tab, toggling a list, typing in a visible filter box, or selecting a tab.

  A table is filled as Qt fills it (\<open>Table_Sorting\<close>): \<open>setRowCount\<close>, then one
  \<open>setItem\<close> per cell under the table's sort state, rows moving with their hidden
  flags; the filters then hide rows by the cells the table holds.  A widget on a tab
  that is not current is not visible (\<open>isVisible()\<close> is false), so the refreshes
  \<open>on_list_books\<close> and \<open>on_list_users\<close> re-apply a filter only when its box is
  shown on the current tab.
\<close>

record table_style =
  alternating_rows :: bool
  read_only :: bool
  select_rows :: bool
  stretch_columns :: bool
  highlight_sections :: bool

record table_widget =
  tw_columns :: nat
  tw_headers :: "string list"
  tw_table :: qt_table
  tw_visible :: bool
  tw_style :: "table_style option"
  tw_sort :: sort_state

definition tw_hidden :: "table_widget \<Rightarrow> bool list" where
  "tw_hidden t = map snd (tw_table t)"

record line_edit =
  le_text :: string
  le_visible :: bool

record main_window =
  mw_controller :: library_controller
  mw_tab :: nat
  table_books :: table_widget
  book_filter :: line_edit
  btn_list_books :: string
  table_users :: table_widget
  user_filter :: line_edit
  btn_list_users :: string

definition tune_table :: "table_widget \<Rightarrow> table_widget" where
  "tune_table t = t\<lparr>tw_style := Some \<lparr>alternating_rows = True, read_only = True, select_rows = True,
     stretch_columns = True, highlight_sections = False\<rparr>,
     tw_sort := (tw_sort t)\<lparr>sort_enabled := True\<rparr>\<rparr>"

definition new_table :: "nat \<Rightarrow> string list \<Rightarrow> table_widget" where
  "new_table n hs = tune_table \<lparr>tw_columns = n, tw_headers = hs, tw_table = [], tw_visible = True,
     tw_style = None, tw_sort = qt_initial_sort\<rparr>"

definition tab_books :: "table_widget \<times> line_edit \<times> string" where
  "tab_books =
     ((new_table 7 [''ID'', ''T'' @ utf8_2 195 173 @ ''tulo'', ''Autor'', ''A'' @ utf8_2 195 177 @ ''o'',
        ''Totales'', ''Disponibles'', ''En cola''])\<lparr>tw_visible := False\<rparr>,
      \<lparr>le_text = [], le_visible = False\<rparr>, ''Listar libros'')"

definition tab_users :: "table_widget \<times> line_edit \<times> string" where
  "tab_users =
     ((new_table 4 [''ID'', ''Nombre'', ''Email'', ''Prestados'']) \<lparr>tw_visible := False\<rparr>,
      \<lparr>le_text = [], le_visible = False\<rparr>, ''Listar usuarios'')"

definition fill_table :: "string list list \<Rightarrow> table_widget \<Rightarrow> table_widget" where
  "fill_table rs t = t\<lparr>tw_table := qt_set_rows (tw_sort t) (tw_columns t) rs (tw_table t)\<rparr>"

definition filter_table :: "(string \<Rightarrow> string list list \<Rightarrow> bool list) \<Rightarrow> string \<Rightarrow> table_widget \<Rightarrow> table_widget" where
  "filter_table f s t = t\<lparr>tw_table := qt_filter f s (tw_table t)\<rparr>"

definition book_filter_shown :: "main_window \<Rightarrow> bool" where
  "book_filter_shown w \<longleftrightarrow> le_visible (book_filter w) \<and> mw_tab w = 0"

definition user_filter_shown :: "main_window \<Rightarrow> bool" where
  "user_filter_shown w \<longleftrightarrow> le_visible (user_filter w) \<and> mw_tab w = 1"

definition view_list_books :: "main_window \<Rightarrow> main_window" where
  "view_list_books w =
     (case on_list_books (mw_controller w) (book_filter_shown w) (le_text (book_filter w)) of
        (rs, refilter) \<Rightarrow>
          let tb = fill_table rs (table_books w)
          in w\<lparr>table_books := if refilter then filter_table filter_books_table (le_text (book_filter w)) tb
                              else tb\<rparr>)"

definition view_list_users :: "main_window \<Rightarrow> main_window" where
  "view_list_users w =
     (case on_list_users (mw_controller w) (user_filter_shown w) (le_text (user_filter w)) of
        (rs, refilter) \<Rightarrow>
          let tu = fill_table rs (table_users w)
          in w\<lparr>table_users := if refilter then filter_table filter_users_table (le_text (user_filter w)) tu
                              else tu\<rparr>)"

definition mw_init :: "library_controller \<Rightarrow> main_window" where
  "mw_init c =
     (case tab_books of (tb, bf, bb) \<Rightarrow> case tab_users of (tu, uf, bu) \<Rightarrow>
        view_list_users (view_list_books
          \<lparr>mw_controller = seed_sample_data c, mw_tab = 0, table_books = tb, book_filter = bf,
           btn_list_books = bb, table_users = tu, user_filter = uf, btn_list_users = bu\<rparr>))"

definition type_book_filter :: "main_window \<Rightarrow> string \<Rightarrow> main_window" where
  "type_book_filter w s =
     (if s = le_text (book_filter w) then w
      else w\<lparr>book_filter := (book_filter w)\<lparr>le_text := s\<rparr>,
             table_books := filter_table filter_books_table s (table_books w)\<rparr>)"

definition type_user_filter :: "main_window \<Rightarrow> string \<Rightarrow> main_window" where
  "type_user_filter w s =
     (if s = le_text (user_filter w) then w
      else w\<lparr>user_filter := (user_filter w)\<lparr>le_text := s\<rparr>,
             table_users := filter_table filter_users_table s (table_users w)\<rparr>)"

definition on_toggle_list_books :: "main_window \<Rightarrow> main_window" where
  "on_toggle_list_books w =
     (if \<not> tw_visible (table_books w) then
        let w1 = view_list_books w
        in w1\<lparr>table_books := (table_books w1)\<lparr>tw_visible := True\<rparr>,
              book_filter := (book_filter w1)\<lparr>le_visible := True\<rparr>,
              btn_list_books := ''Ocultar lista de libros''\<rparr>
      else
        let w1 = w\<lparr>table_books := (table_books w)\<lparr>tw_visible := False\<rparr>\<rparr>;
            w2 = type_book_filter w1 []
        in w2\<lparr>book_filter := (book_filter w2)\<lparr>le_visible := False\<rparr>, btn_list_books := ''Listar libros''\<rparr>)"

definition on_toggle_list_users :: "main_window \<Rightarrow> main_window" where
  "on_toggle_list_users w =
     (if \<not> tw_visible (table_users w) then
        let w1 = view_list_users w
        in w1\<lparr>table_users := (table_users w1)\<lparr>tw_visible := True\<rparr>,
              user_filter := (user_filter w1)\<lparr>le_visible := True\<rparr>,
              btn_list_users := ''Ocultar lista de usuarios''\<rparr>
      else
        let w1 = w\<lparr>table_users := (table_users w)\<lparr>tw_visible := False\<rparr>\<rparr>;
            w2 = type_user_filter w1 []
        in w2\<lparr>user_filter := (user_filter w2)\<lparr>le_visible := False\<rparr>, btn_list_users := ''Listar usuarios''\<rparr>)"

fun action_tab :: "ui_action \<Rightarrow> nat" where
  "action_tab (AddBookForm i t a y c) = 0"
| "action_tab (AddUserForm i n e) = 1"
| "action_tab (BorrowForm u b) = 2"
| "action_tab (ReturnForm u b) = 2"
| "action_tab UndoButton = 2"

fun view_press :: "main_window \<Rightarrow> ui_action \<Rightarrow> main_window" where
  "view_press w act =
     (case window_step (mw_controller w) act of
        (Some al, c') \<Rightarrow> w\<lparr>mw_controller := c'\<rparr>
      | (None, c') \<Rightarrow>
          (case act of
             AddBookForm i t a y n \<Rightarrow> view_list_books (w\<lparr>mw_controller := c'\<rparr>)
           | AddUserForm i n e \<Rightarrow> view_list_users (w\<lparr>mw_controller := c'\<rparr>)
           | _ \<Rightarrow> view_list_users (view_list_books (w\<lparr>mw_controller := c'\<rparr>))))"

datatype view_event =
    Press ui_action
  | ToggleBooks
  | ToggleUsers
  | TypeBookFilter string
  | TypeUserFilter string
  | SelectTab nat

fun mw_step :: "main_window \<Rightarrow> view_event \<Rightarrow> main_window" where
  "mw_step w (Press act) = (if action_tab act = mw_tab w then view_press w act else w)"
| "mw_step w ToggleBooks = (if mw_tab w = 0 then on_toggle_list_books w else w)"
| "mw_step w ToggleUsers = (if mw_tab w = 1 then on_toggle_list_users w else w)"
| "mw_step w (TypeBookFilter s) = (if book_filter_shown w then type_book_filter w s else w)"
| "mw_step w (TypeUserFilter s) = (if user_filter_shown w then type_user_filter w s else w)"
| "mw_step w (SelectTab n) = (if n < 3 then w\<lparr>mw_tab := n\<rparr> else w)"

inductive view_reachable :: "main_window \<Rightarrow> bool" where
  start: "view_reachable (mw_init new_controller)"
| act: "view_reachable w \<Longrightarrow> view_reachable (mw_step w e)"

text \<open>
  A session that shows a stale filter: list the users on the \<open>Usuarios\<close> tab and
  filter them by \<open>U001\<close>, lend \<open>B001\<close> to \<open>U001\<close> on the \<open>Prestamos\<close> tab,
  and come back.
\<close>

definition stale_filter_view :: main_window where
  "stale_filter_view = fold (\<lambda>e w. mw_step w e)
     [SelectTab 1, ToggleUsers, TypeUserFilter ''U001'', SelectTab 2, Press (BorrowForm ''U001'' ''B001''),
      SelectTab 1] (mw_init new_controller)"

subsection \<open>What the tables hold\<close>

lemma length_filter_table [simp]:
  "length (filter_books_table s rs) = length rs" "length (filter_users_table s rs) = length rs"
  by (simp_all add: filter_books_table_def filter_users_table_def Let_def)

lemma length_filter_table_widget [simp]:
  "length (tw_table (filter_table filter_books_table s t)) = length (tw_table t)"
  "length (tw_table (filter_table filter_users_table s t)) = length (tw_table t)"
  by (simp_all add: filter_table_def)

lemma tw_hidden_visible [simp]: "tw_hidden (t\<lparr>tw_visible := v\<rparr>) = tw_hidden t"
  by (simp add: tw_hidden_def)

lemma view_list_fields [simp]:
  "mw_controller (view_list_books w) = mw_controller w" "mw_tab (view_list_books w) = mw_tab w"
  "table_users (view_list_books w) = table_users w" "book_filter (view_list_books w) = book_filter w"
  "user_filter (view_list_books w) = user_filter w"
  "length (tw_table (table_books (view_list_books w))) = length (get_books (mw_controller w))"
  "mw_controller (view_list_users w) = mw_controller w" "mw_tab (view_list_users w) = mw_tab w"
  "table_books (view_list_users w) = table_books w" "book_filter (view_list_users w) = book_filter w"
  "user_filter (view_list_users w) = user_filter w"
  "length (tw_table (table_users (view_list_users w))) = length (get_users (mw_controller w))"
  by (simp_all add: view_list_books_def view_list_users_def on_list_books_def on_list_users_def Let_def
      fill_table_def)

lemma view_list_users_books [simp]:
  "table_users (view_list_users (view_list_books w)) = table_users (view_list_users w)"
  by (simp add: view_list_users_def user_filter_shown_def Let_def split: prod.splits)

lemma add_user_keeps_books: "get_books (ctl_add_user c i n e) = get_books c"
  by (simp add: ctl_add_user_def get_books_def add_user_def split: option.splits)

lemma add_book_keeps_users: "get_users (ctl_add_book c i t a y n) = get_users c"
  by (simp add: ctl_add_book_def get_users_def add_book_def split: option.splits)

lemma view_press_cases:
  "mw_controller (view_press w act) = snd (window_step (mw_controller w) act)
   \<and> (table_books (view_press w act) = table_books w \<or>
      table_books (view_press w act) = table_books (view_list_books (w\<lparr>mw_controller := snd (window_step (mw_controller w) act)\<rparr>)))
   \<and> (table_users (view_press w act) = table_users w \<or>
      table_users (view_press w act) = table_users (view_list_users (w\<lparr>mw_controller := snd (window_step (mw_controller w) act)\<rparr>)))"
  by (auto simp: split: option.splits prod.splits ui_action.splits)

lemma view_press_counts:
  assumes "length (tw_table (table_books w)) = length (get_books (mw_controller w))"
    and "length (tw_table (table_users w)) = length (get_users (mw_controller w))"
  shows "length (tw_table (table_books (view_press w act))) = length (get_books (mw_controller (view_press w act)))
    \<and> length (tw_table (table_users (view_press w act))) = length (get_users (mw_controller (view_press w act)))"
  using assms
  by (cases act) (auto simp: window_handlers Let_def add_user_keeps_books add_book_keeps_users
      split: option.splits prod.splits)

lemma type_filter_fields [simp]:
  "mw_controller (type_book_filter w s) = mw_controller w" "table_users (type_book_filter w s) = table_users w"
  "length (tw_table (table_books (type_book_filter w s))) = length (tw_table (table_books w))"
  "mw_controller (type_user_filter w s) = mw_controller w" "table_books (type_user_filter w s) = table_books w"
  "length (tw_table (table_users (type_user_filter w s))) = length (tw_table (table_users w))"
  by (simp_all add: type_book_filter_def type_user_filter_def)

text \<open>C34: the tables keep one row per record: in every state of the window the books
  table has as many rows as the store has books and the users table as many as it has
  users, whatever the row moves of the sorted fills, and the controller is one the window
  can reach.  Every handler that changes the store refreshes the tables it changes.\<close>

theorem view_one_row_per_record:
  "view_reachable w \<Longrightarrow>
     length (tw_table (table_books w)) = length (get_books (mw_controller w))
   \<and> length (tw_table (table_users w)) = length (get_users (mw_controller w))
   \<and> window_reachable (mw_controller w)"
proof (induction rule: view_reachable.induct)
  case start
  then show ?case
    by (simp add: mw_init_def tab_books_def tab_users_def window_reachable.start window_init_def[symmetric])
next
  case (act w e)
  then show ?case
  proof (cases e)
    case (Press a)
    have "window_reachable (snd (window_step (mw_controller w) a))"
      using act.IH by (intro window_reachable.press) simp
    then show ?thesis using Press act.IH view_press_counts[of w a] view_press_cases[of w a] by auto
  qed (auto simp: on_toggle_list_books_def on_toggle_list_users_def Let_def)
qed

lemma mw_init_tables:
  "tw_table (table_books (mw_init c))
     = tw_table (fill_table (map book_row (get_books (seed_sample_data c))) (fst tab_books))"
  "tw_table (table_users (mw_init c))
     = tw_table (fill_table (map user_row (get_users (seed_sample_data c))) (fst tab_users))"
  by (simp_all add: mw_init_def tab_books_def tab_users_def view_list_books_def view_list_users_def
      on_list_books_def on_list_users_def book_filter_shown_def user_filter_shown_def Let_def)

lemma tab_books_table:
  "tw_sort (fst tab_books) = qt_default_sort" "tw_columns (fst tab_books) = 7" "tw_table (fst tab_books) = []"
  by (simp_all add: tab_books_def new_table_def tune_table_def qt_initial_sort_def qt_default_sort_def)

text \<open>C17: filling the books table scrambles it.  \<open>tune_table\<close> enables sorting before
  the table is filled, so setting the sort-column item of a row moves that row, and the
  later \<open>setItem\<close> calls of the loop write into whatever row now has that index.  Under
  the initial sort indicator (column 0, descending), the first listing of any non-empty
  store whose book ids ascend shows every book but the first as its id alone, the last
  first, and the row of the first book holding the title, author and counts of the last
  book.\<close>

theorem sorted_fill_scrambles:
  assumes "get_books c \<noteq> []" "sorted (map bk_id (get_books c))"
  shows "tw_table (fill_table (map book_row (get_books c)) (fst tab_books))
           = map (\<lambda>b. id_row 6 (bk_id b)) (rev (tl (get_books c)))
             @ [(Some (bk_id (hd (get_books c))) # map Some (tl (book_row (last (get_books c)))), False)]"
  using qt_fill_books[OF assms] by (simp add: fill_table_def tab_books_table)

lemma view_reachable_fold:
  "view_reachable w \<Longrightarrow> view_reachable (fold (\<lambda>e w. mw_step w e) es w)"
  by (induction es arbitrary: w) (simp_all add: view_reachable.act)

subsection \<open>Blank filters\<close>

lemma filter_blank_shows_all:
  "strip s = [] \<Longrightarrow> list_all Not (filter_books_table s rs)"
  "strip s = [] \<Longrightarrow> list_all Not (filter_users_table s rs)"
  by (simp_all add: filter_books_table_def filter_users_table_def list_all_iff)

lemma hidden_all_shown: "list_all Not (tw_hidden t) \<longleftrightarrow> list_all (\<lambda>x. \<not> snd x) (tw_table t)"
  by (simp add: tw_hidden_def list_all_iff)

lemma filter_table_blank:
  "strip s = [] \<Longrightarrow> list_all Not (tw_hidden (filter_table filter_books_table s t))"
  "strip s = [] \<Longrightarrow> list_all Not (tw_hidden (filter_table filter_users_table s t))"
  by (simp_all add: hidden_all_shown filter_table_def qt_filter_shown filter_blank_shows_all)

lemma fill_table_blank:
  "list_all Not (tw_hidden t) \<Longrightarrow> list_all Not (tw_hidden (fill_table rs t))"
  by (simp add: hidden_all_shown fill_table_def shown_qt_set_rows)

lemma view_list_blank:
  "strip (le_text (book_filter w)) = [] \<Longrightarrow> list_all Not (tw_hidden (table_books w))
   \<Longrightarrow> list_all Not (tw_hidden (table_books (view_list_books w)))"
  "strip (le_text (user_filter w)) = [] \<Longrightarrow> list_all Not (tw_hidden (table_users w))
   \<Longrightarrow> list_all Not (tw_hidden (table_users (view_list_users w)))"
  by (simp_all add: view_list_books_def view_list_users_def on_list_books_def on_list_users_def Let_def
      fill_table_blank)

lemma type_filter_blank:
  "strip (le_text (book_filter w)) = [] \<longrightarrow> list_all Not (tw_hidden (table_books w)) \<Longrightarrow>
   strip (le_text (book_filter (type_book_filter w s))) = [] \<longrightarrow> list_all Not (tw_hidden (table_books (type_book_filter w s)))"
  "strip (le_text (user_filter w)) = [] \<longrightarrow> list_all Not (tw_hidden (table_users w)) \<Longrightarrow>
   strip (le_text (user_filter (type_user_filter w s))) = [] \<longrightarrow> list_all Not (tw_hidden (table_users (type_user_filter w s)))"
  by (simp_all add: type_book_filter_def type_user_filter_def filter_table_blank)

lemma type_filter_other [simp]:
  "user_filter (type_book_filter w s) = user_filter w" "book_filter (type_user_filter w s) = book_filter w"
  by (simp_all add: type_book_filter_def type_user_filter_def)

lemma view_press_filters [simp]:
  "book_filter (view_press w act) = book_filter w" "user_filter (view_press w act) = user_filter w"
  by (auto split: option.splits prod.splits ui_action.splits)

text \<open>C16: a blank filter hides nothing: in every state of the window, when the text of a table's filter box strips to nothing, no row of that table is hidden, whichever tab the lists were refreshed from.\<close>

theorem blank_filter_hides_nothing:
  "view_reachable w \<Longrightarrow>
     (strip (le_text (book_filter w)) = [] \<longrightarrow> list_all Not (tw_hidden (table_books w)))
   \<and> (strip (le_text (user_filter w)) = [] \<longrightarrow> list_all Not (tw_hidden (table_users w)))"
proof (induction rule: view_reachable.induct)
  case start
  obtain tb bf bb where tb: "tab_books = (tb, bf, bb)" by (cases tab_books) auto
  obtain tu uf bu where tu: "tab_users = (tu, uf, bu)" by (cases tab_users) auto
  let ?w = "\<lparr>mw_controller = seed_sample_data new_controller, mw_tab = 0, table_books = tb, book_filter = bf,
           btn_list_books = bb, table_users = tu, user_filter = uf, btn_list_users = bu\<rparr>"
  have i: "mw_init new_controller = view_list_users (view_list_books ?w)" by (simp add: mw_init_def tb tu)
  have "le_text bf = []" "tw_hidden tb = []" "le_text uf = []" "tw_hidden tu = []"
    using tb tu by (auto simp: tab_books_def tab_users_def new_table_def tune_table_def tw_hidden_def)
  then show ?case
    using view_list_blank(1)[of ?w] view_list_blank(2)[of "view_list_books ?w"] unfolding i
    by (simp add: strip_def)
next
  case (act w e)
  show ?case
  proof (cases e)
    case (Press a)
    let ?w = "w\<lparr>mw_controller := snd (window_step (mw_controller w) a)\<rparr>"
    show ?thesis using Press act.IH view_press_cases[of w a] view_list_blank(1)[of ?w] view_list_blank(2)[of ?w]
      by (auto simp del: view_press.simps)
  next
    case ToggleBooks
    then show ?thesis using act.IH view_list_blank(1)[of w] type_filter_blank(1)
      by (auto simp: on_toggle_list_books_def Let_def)
  next
    case ToggleUsers
    then show ?thesis using act.IH view_list_blank(2)[of w] type_filter_blank(2)
      by (auto simp: on_toggle_list_users_def Let_def)
  qed (use act.IH type_filter_blank in auto)
qed

subsection \<open>A stale filter\<close>

lemma stale_filter_view_users:
  "tw_table (table_users stale_filter_view) =
     [([Some ''U002'', Some ''Luis'', Some ''luis@example.com'', Some [CHR 0xE2, CHR 0x80, CHR 0x94]], False),
      ([Some ''U001'', Some ''Luis'', Some ''luis@example.com'', Some [CHR 0xE2, CHR 0x80, CHR 0x94]], True)]"
  "user_filter_shown stale_filter_view" "le_text (user_filter stale_filter_view) = ''U001''"
  "strip ''U001'' = ''U001''" "str_contains (py_lower ''U001'') (py_lower (cell_text (Some ''U001'')))"
  by code_simp+

text \<open>C35: a refresh from another tab leaves the user filter stale.  \<open>on_list_users\<close>
  re-applies the filter only when its box \<open>isVisible()\<close>, which is false while another tab
  is current, and the sorted refill moves rows with their hidden flags.  So the window
  can reach a state where the users tab shows its filter box with a non-blank text and a
  hidden row of the users table has a cell containing that text: the filter would show
  the row.  Filtering the users by \<open>U001\<close> and lending \<open>B001\<close> to \<open>U001\<close> on the
  \<open>Prestamos\<close> tab reaches it.\<close>

theorem stale_user_filter:
  "\<exists>w r. view_reachable w \<and> user_filter_shown w \<and> strip (le_text (user_filter w)) \<noteq> []
     \<and> r \<in> set (tw_table (table_users w)) \<and> snd r
     \<and> list_ex (\<lambda>x. str_contains (py_lower (strip (le_text (user_filter w)))) (py_lower (cell_text x))) (fst r)"
proof -
  have "view_reachable stale_filter_view"
    unfolding stale_filter_view_def by (rule view_reachable_fold[OF view_reachable.start])
  then show ?thesis
    using stale_filter_view_users
    by (intro exI[of _ stale_filter_view]
        exI[of _ "([Some ''U001'', Some ''Luis'', Some ''luis@example.com'', Some [CHR 0xE2, CHR 0x80, CHR 0x94]], True)"])
      simp
qed

end
