(* ===== verification/Window_Geometry.thy ===== *)
theory Window_Geometry
  imports Main
begin

text \<open>
  \<open>MainWindow.center\<close> (lines 36-39 of \<open>src/views/main_window.py\<close>) centres the
  window on the screen with Qt's rectangle arithmetic: it takes the window's frame
  rectangle, moves its centre to the centre of the screen's available area
  (\<open>QRect.moveCenter\<close>, \<open>QRect.center\<close>) and moves the window to the new top-left
  corner.  A \<open>QRect\<close> keeps the coordinates of its first and last pixel
  (\<open>x2 = x + width - 1\<close>), and its arithmetic divides \<open>int\<close>s with C++'s \<open>/\<close>,
  which truncates towards zero: \<open>trunc_div\<close>, not HOL's \<open>div\<close>, which rounds down.
  Coordinates are \<^typ>\<open>int\<close>: screen coordinates stay far below \<open>2^31\<close>, and
  \<open>center()\<close> adds in 64 bits.
\<close>

record rect =
  rx1 :: int
  ry1 :: int
  rx2 :: int
  ry2 :: int

definition qrect :: "int \<Rightarrow> int \<Rightarrow> int \<Rightarrow> int \<Rightarrow> rect" where
  "qrect x y w h = \<lparr>rx1 = x, ry1 = y, rx2 = x + w - 1, ry2 = y + h - 1\<rparr>"

definition rect_width :: "rect \<Rightarrow> int" where
  "rect_width r = rx2 r - rx1 r + 1"

definition rect_height :: "rect \<Rightarrow> int" where
  "rect_height r = ry2 r - ry1 r + 1"

definition trunc_div :: "int \<Rightarrow> int \<Rightarrow> int" where
  "trunc_div a b = sgn a * sgn b * (\<bar>a\<bar> div \<bar>b\<bar>)"

definition rect_center :: "rect \<Rightarrow> int \<times> int" where
  "rect_center r = (trunc_div (rx1 r + rx2 r) 2, trunc_div (ry1 r + ry2 r) 2)"

definition move_center :: "int \<times> int \<Rightarrow> rect \<Rightarrow> rect" where
  "move_center p r =
     (let w = rx2 r - rx1 r; h = ry2 r - ry1 r;
          x1 = fst p - trunc_div w 2; y1 = snd p - trunc_div h 2
      in \<lparr>rx1 = x1, ry1 = y1, rx2 = x1 + w, ry2 = y1 + h\<rparr>)"

definition top_left :: "rect \<Rightarrow> int \<times> int" where
  "top_left r = (rx1 r, ry1 r)"

definition center :: "rect \<Rightarrow> rect \<Rightarrow> int \<times> int" where
  "center frame avail = top_left (move_center (rect_center avail) frame)"

definition rect_inside :: "rect \<Rightarrow> rect \<Rightarrow> bool" where
  "rect_inside r a \<longleftrightarrow> rx1 a \<le> rx1 r \<and> ry1 a \<le> ry1 r \<and> rx2 r \<le> rx2 a \<and> ry2 r \<le> ry2 a"

lemma trunc_div_nonneg [simp]: "0 \<le> a \<Longrightarrow> trunc_div a 2 = a div 2"
  by (cases "a = 0") (auto simp: trunc_div_def sgn_if)

lemma half_mono: "(a :: int) \<le> b \<Longrightarrow> a div 2 \<le> b div 2 \<and> a - a div 2 \<le> b - b div 2"
  by presburger

lemma center_coord:
  assumes "0 \<le> a1 + a2" "0 \<le> w" "w \<le> a2 - a1"
  shows "a1 \<le> trunc_div (a1 + a2) 2 - trunc_div w 2
    \<and> trunc_div (a1 + a2) 2 - trunc_div w 2 + w \<le> a2"
proof -
  have d: "(a1 + a2) div 2 = a1 + (a2 - a1) div 2" by presburger
  show ?thesis using assms half_mono[OF assms(3)] by (simp add: d)
qed

text \<open>C11: centring keeps the window on the screen: when the window's frame is no larger than the screen's available area and that area's centre has non-negative coordinates, the window moved to the position \<open>center\<close> computes lies inside the available area.\<close>

theorem center_within_screen:
  assumes "0 \<le> rx1 a + rx2 a" "0 \<le> ry1 a + ry2 a"
    and "0 < rect_width f" "rect_width f \<le> rect_width a"
    and "0 < rect_height f" "rect_height f \<le> rect_height a"
  shows "rect_inside (qrect (fst (center f a)) (snd (center f a)) (rect_width f) (rect_height f)) a"
  using center_coord[of "rx1 a" "rx2 a" "rx2 f - rx1 f"] center_coord[of "ry1 a" "ry2 a" "ry2 f - ry1 f"] assms
  by (simp add: rect_inside_def qrect_def center_def top_left_def move_center_def rect_center_def Let_def
      rect_width_def rect_height_def)

lemma center_off_screen:
  "center (qrect 0 0 1920 1040) (qrect (-1920) 0 1920 1040) = (-1919, 0)"
  by (simp add: center_def top_left_def move_center_def rect_center_def qrect_def trunc_div_def)

end
