(* ===== verification/Window_Gui.thy ===== *)
theory Window_Gui
  imports Window_View Window_Geometry
begin

text \<open>
  The whole window: the view of \<open>Window_View\<close>, the text typed into the line edits
  of the three forms, and what \<open>__init__\<close> sets before building the tabs (title,
  size, position from \<open>center\<close>, and \<open>APP_STYLESHEET\<close> of
  \<open>src/styles/style.py\<close>).  Typing is accepted only into a field of the current tab;
  a click on a form button reads the fields of its form, as the handlers read
  \<open>self.book_id.text()\<close> and the others, and is the view's \<open>Press\<close> of the action
  they make.  A \<open>Press\<close> of the view is therefore not an input of its own here.
  The available area of the screen is a parameter: it comes from
  \<open>QDesktopWidget().availableGeometry()\<close>.  Before the window is shown Qt knows no
  window frame, so \<open>frameGeometry()\<close> is the geometry \<open>resize(900, 560)\<close> set.
\<close>

definition utf8_3 :: "nat \<Rightarrow> nat \<Rightarrow> nat \<Rightarrow> string" where
  "utf8_3 a b c = [char_of a, char_of b, char_of c]"

definition nl :: char where "nl = CHR 0x0A"

definition app_stylesheet :: string where
  "app_stylesheet = nl # concat (map (\<lambda>l. l @ [nl])
     [''QWidget { background-color: #F5F5DC; }  /* beige */'',
      ''QPushButton {'',
      ''    background-color: #32CD32;'',
      ''    color: white;'',
      ''    font-size: 15px;'',
      ''    font-weight: bold;'',
      ''    border-radius: 8px;'',
      ''    padding: 8px 12px;'',
      ''}'',
      ''QPushButton:hover { background-color: #228B22; }''])"

definition window_title :: string where
  "window_title = ''Sistema de Gesti'' @ utf8_2 195 179 @ ''n de Biblioteca '' @ utf8_3 226 128 148
     @ '' Estructuras Lineales''"

datatype field =
    BookId | BookTitle | BookAuthor | BookYear | BookCopies
  | UserId | UserName | UserEmail
  | LoanUser | LoanBook

fun field_tab :: "field \<Rightarrow> nat" where
  "field_tab BookId = 0" | "field_tab BookTitle = 0" | "field_tab BookAuthor = 0"
| "field_tab BookYear = 0" | "field_tab BookCopies = 0"
| "field_tab UserId = 1" | "field_tab UserName = 1" | "field_tab UserEmail = 1"
| "field_tab LoanUser = 2" | "field_tab LoanBook = 2"

datatype button = AddBookBtn | AddUserBtn | BorrowBtn | ReturnBtn | UndoBtn

fun button_action :: "(field \<Rightarrow> string) \<Rightarrow> button \<Rightarrow> ui_action" where
  "button_action t AddBookBtn = AddBookForm (t BookId) (t BookTitle) (t BookAuthor) (t BookYear) (t BookCopies)"
| "button_action t AddUserBtn = AddUserForm (t UserId) (t UserName) (t UserEmail)"
| "button_action t BorrowBtn = BorrowForm (t LoanUser) (t LoanBook)"
| "button_action t ReturnBtn = ReturnForm (t LoanUser) (t LoanBook)"
| "button_action t UndoBtn = UndoButton"

record gui =
  gui_view :: main_window
  gui_text :: "field \<Rightarrow> string"
  gui_title :: string
  gui_size :: "int \<times> int"
  gui_pos :: "int \<times> int"
  gui_style :: string

definition gui_init :: "library_controller \<Rightarrow> rect \<Rightarrow> gui" where
  "gui_init c avail =
     \<lparr>gui_view = mw_init c, gui_text = (\<lambda>f. []), gui_title = window_title, gui_size = (900, 560),
      gui_pos = center (qrect 0 0 900 560) avail, gui_style = app_stylesheet\<rparr>"

datatype gui_event = TypeText field string | Click button | ViewInput view_event

fun gui_step :: "gui \<Rightarrow> gui_event \<Rightarrow> gui" where
  "gui_step g (TypeText f s) =
     (if field_tab f = mw_tab (gui_view g) then g\<lparr>gui_text := (gui_text g)(f := s)\<rparr> else g)"
| "gui_step g (Click b) = g\<lparr>gui_view := mw_step (gui_view g) (Press (button_action (gui_text g) b))\<rparr>"
| "gui_step g (ViewInput (Press a)) = g"
| "gui_step g (ViewInput e) = g\<lparr>gui_view := mw_step (gui_view g) e\<rparr>"

inductive gui_reachable :: "rect \<Rightarrow> gui \<Rightarrow> bool" for avail :: rect where
  start: "gui_reachable avail (gui_init new_controller avail)"
| step: "gui_reachable avail g \<Longrightarrow> gui_reachable avail (gui_step g e)"

lemma gui_step_view:
  "gui_view (gui_step g e) = gui_view g \<or> (\<exists>e'. gui_view (gui_step g e) = mw_step (gui_view g) e')"
  by (cases "(g, e)" rule: gui_step.cases) (auto simp del: mw_step.simps)

lemma gui_step_frame [simp]:
  "gui_title (gui_step g e) = gui_title g" "gui_size (gui_step g e) = gui_size g"
  "gui_pos (gui_step g e) = gui_pos g" "gui_style (gui_step g e) = gui_style g"
  by (cases "(g, e)" rule: gui_step.cases; simp)+

lemma gui_refines_view:
  "gui_reachable avail g \<Longrightarrow>
     view_reachable (gui_view g)
   \<and> gui_title g = window_title \<and> gui_style g = app_stylesheet \<and> gui_size g = (900, 560)
   \<and> gui_pos g = center (qrect 0 0 900 560) avail"
proof (induction rule: gui_reachable.induct)
  case start
  then show ?case by (simp add: gui_init_def view_reachable.start)
next
  case (step g e)
  then show ?case using gui_step_view[of g e] by (auto intro: view_reachable.act)
qed

lemma click_controller:
  "action_tab (button_action (gui_text g) x) = mw_tab (gui_view g) \<Longrightarrow>
   mw_controller (gui_view (gui_step g (Click x)))
     = snd (window_step (mw_controller (gui_view g)) (button_action (gui_text g) x))"
  using view_press_cases[of "gui_view g" "button_action (gui_text g) x"] by (simp del: view_press.simps)

lemma ctl_forward_store [simp]: "store (ctl_forward c r) = snd r"
  by (simp add: ctl_forward_def ctl_log_def split: logger.split)

text \<open>C12: the loan form reaches the store: on the \<open>Prestamos\<close> tab, typing a user id
  and a book id into the two fields and clicking \<open>Prestar\<close> lends the book to the user
  (\<open>borrow_book\<close> on the stripped ids), and clicking \<open>Devolver\<close> returns it
  (\<open>return_book\<close>); when either field strips to nothing, the click alerts and leaves
  the store as it was.\<close>

theorem gui_loan_form:
  assumes "mw_tab (gui_view g) = 2"
  shows "store (mw_controller (gui_view (gui_step (gui_step (gui_step g (TypeText LoanUser u))
              (TypeText LoanBook b)) (Click BorrowBtn))))
           = (if strip u = [] \<or> strip b = [] then store (mw_controller (gui_view g))
              else snd (borrow_book (store (mw_controller (gui_view g))) (strip u) (strip b)))
       \<and> store (mw_controller (gui_view (gui_step (gui_step (gui_step g (TypeText LoanUser u))
              (TypeText LoanBook b)) (Click ReturnBtn))))
           = (if strip u = [] \<or> strip b = [] then store (mw_controller (gui_view g))
              else snd (return_book (store (mw_controller (gui_view g))) (strip u) (strip b)))"
proof -
  let ?g = "gui_step (gui_step g (TypeText LoanUser u)) (TypeText LoanBook b)"
  have g: "gui_text ?g LoanUser = u" "gui_text ?g LoanBook = b" "gui_view ?g = gui_view g"
    using assms by simp_all
  have "mw_controller (gui_view (gui_step ?g (Click x)))
      = snd (window_step (mw_controller (gui_view ?g)) (button_action (gui_text ?g) x))"
    if "x = BorrowBtn \<or> x = ReturnBtn" for x
    using that by (intro click_controller) (auto simp add: assms g simp del: gui_step.simps)
  then have "mw_controller (gui_view (gui_step ?g (Click BorrowBtn))) = snd (on_borrow (mw_controller (gui_view g)) u b)"
    "mw_controller (gui_view (gui_step ?g (Click ReturnBtn))) = snd (on_return (mw_controller (gui_view g)) u b)"
    by (simp_all add: g del: gui_step.simps)
  then show ?thesis
    by (simp add: on_borrow_def on_return_def ctl_borrow_def ctl_return_def strip_strip Let_def del: gui_step.simps)
qed

end
