(* ===== verification/Lending_Progress.thy ===== *)
theory Lending_Progress
  imports Store_Invariants "HOL-Library.While_Combinator"
begin

text \<open>
  Progress of the lending engine over several commands.  \<open>undo_all\<close> is the loop a
  user runs by pressing \<open>Deshacer ultimo\<close> until nothing is left to undo, kept as a
  loop with \<open>while_option\<close>; it always stops, with an empty stack, because every
  \<open>undo_last\<close> on a non-empty stack pops one entry, whether the undo succeeds or
  fails.  \<open>returns_ok s b hs\<close> says that the users \<open>hs\<close>, one after the other, each
  hold a copy of \<open>b\<close> when it is their turn to return it; the queue then moves one
  place per return, so a user waiting at position \<open>k\<close> is served by the
  \<open>k + 1\<close>-th return.
\<close>

definition undo_all :: "library_store \<Rightarrow> library_store option" where
  "undo_all s = while_option (\<lambda>s. undo_stack s \<noteq> []) (\<lambda>s. snd (undo_last s)) s"

definition holds :: "library_store \<Rightarrow> ident \<Rightarrow> ident \<Rightarrow> bool" where
  "holds s u b \<longleftrightarrow> (case find_user s u of Some usr \<Rightarrow> b \<in> set (borrowed usr) | None \<Rightarrow> False)"

fun returns_ok :: "library_store \<Rightarrow> ident \<Rightarrow> ident list \<Rightarrow> bool" where
  "returns_ok s b [] = True"
| "returns_ok s b (h # hs) = (holds s h b \<and> returns_ok (snd (return_book s h b)) b hs)"

text \<open>C32: pressing undo until nothing is left to undo terminates: the loop stops after finitely many presses with an empty undo stack.\<close>

theorem undo_all_terminates:
  "\<exists>t. undo_all s = Some t \<and> undo_stack t = []"
proof -
  obtain t where t: "while_option (\<lambda>s. undo_stack s \<noteq> []) (\<lambda>s. snd (undo_last s)) s = Some t"
    using measure_while_option_Some[where P = "\<lambda>_. True" and f = "\<lambda>s. length (undo_stack s)"
        and b = "\<lambda>s. undo_stack s \<noteq> []" and c = "\<lambda>s. snd (undo_last s)" and s = s]
    by (auto simp: undo_last_stack)
  moreover have "undo_stack t = []" using while_option_stop[OF t] by simp
  ultimately show ?thesis by (simp add: undo_all_def)
qed

subsection \<open>Serving the queue\<close>

lemma return_book_served:
  assumes inv: "store_inv s" and fb: "find_book s b = Some bk" and h: "holds s h b"
    and q: "reservations bk = nu # rest"
  shows "holds (snd (return_book s h b)) nu b
    \<and> (\<exists>bk'. find_book (snd (return_book s h b)) b = Some bk' \<and> reservations bk' = rest)"
proof -
  obtain usr where fu: "find_user s h = Some usr" and hb: "b \<in> set (borrowed usr)"
    using h by (auto simp: holds_def split: option.splits)
  have "book_ok s bk" using inv fb by (auto simp: store_inv_find)
  then have "nu \<in> us_id ` set (users s)" using q by (auto simp: book_ok_def)
  then obtain v where fv: "find_user s nu = Some v" using find_ids_iff(1)[of s nu] by auto
  have id: "bk_id bk = b" using find_book_Some_id[OF fb] by simp
  let ?s1 = "update_book b (\<lambda>b. b\<lparr>copies_available := copies_available b + 1\<rparr>)
               (update_user h (\<lambda>u. u\<lparr>borrowed := remove1 b (borrowed u)\<rparr>) s)"
  let ?s2 = "update_book b (\<lambda>b. b\<lparr>reservations := rest\<rparr>) ?s1"
  obtain v2 where fv2: "find_user ?s2 nu = Some v2" using fv fu by (cases "nu = h") auto
  have r: "snd (return_book s h b) =
      push_undo (OpReturn h b (Some nu))
        (update_user nu (\<lambda>u. u\<lparr>borrowed := borrowed u @ [b]\<rparr>)
          (update_book b (\<lambda>b. b\<lparr>copies_available := copies_available b - 1\<rparr>) ?s2))"
    using fu fb hb q fv2 id by (simp add: return_book_def Let_def)
  show ?thesis using fv2 fb unfolding r by (simp add: holds_def)
qed

text \<open>C33: bounded waiting: in a store satisfying the invariant, a user waiting at position k of a book's queue holds the book once k + 1 users have returned it in turn, provided each of them held a copy when returning it and nothing else happened in between.\<close>

theorem queue_served:
  assumes "store_inv s" "find_book s b = Some bk" "k < length (reservations bk)"
    and "returns_ok s b hs" "length hs = Suc k"
  shows "holds (snd (run s (map (\<lambda>h. Return h b) hs))) (reservations bk ! k) b"
  using assms
proof (induction hs arbitrary: s bk k)
  case Nil
  then show ?case by simp
next
  case (Cons h hs)
  obtain nu rest where q: "reservations bk = nu # rest" using Cons.prems(3) by (cases "reservations bk") auto
  have h: "holds s h b" and ok: "returns_ok (snd (return_book s h b)) b hs" using Cons.prems(4) by simp_all
  obtain bk' where fb': "find_book (snd (return_book s h b)) b = Some bk'" and r': "reservations bk' = rest"
    and served: "holds (snd (return_book s h b)) nu b"
    using return_book_served[OF Cons.prems(1,2) h q] by blast
  show ?case
  proof (cases k)
    case 0
    then have "hs = []" using Cons.prems(5) by simp
    then show ?thesis using served q 0 by simp
  next
    case (Suc k')
    have "holds (snd (run (snd (return_book s h b)) (map (\<lambda>h. Return h b) hs))) (reservations bk' ! k') b"
      using Cons.IH[OF return_book_inv[OF Cons.prems(1)] fb' _ ok] Cons.prems(3,5) q r' Suc by simp
    then show ?thesis using q r' Suc by simp
  qed
qed

end
