(* ===== verification/Queue_Fairness.thy ===== *)
theory Queue_Fairness
  imports Store_Invariants
begin

text \<open>
  First come, first served, read off the messages a run prints.  For one book,
  \<open>queue_obs\<close> takes from each command and its message the users the message says
  were queued (\<open>Queued\<close> on a borrow of the book) and the users it says were
  served (\<open>AutoAssigned\<close> on a return of the book).  Over an undo-free run from a
  store satisfying the invariant, the users served, followed by the users still
  waiting at the end, are the users waiting at the start followed by the users queued
  during the run: the queue is consumed at the front and grows at the back only, so
  users are served exactly in the order they queued.
\<close>

definition user_name :: "library_store \<Rightarrow> ident \<Rightarrow> string" where
  "user_name s u = (case find_user s u of Some x \<Rightarrow> name x | None \<Rightarrow> [])"

fun queue_obs :: "ident \<Rightarrow> event \<Rightarrow> msg \<Rightarrow> string list \<times> string list" where
  "queue_obs b (Borrow u b') (Queued n t p) = (if b' = b then ([], [n]) else ([], []))"
| "queue_obs b (Return u b') (Returned t (AutoAssigned n) c) = (if b' = b then ([n], []) else ([], []))"
| "queue_obs b ev m = ([], [])"

definition served_names :: "ident \<Rightarrow> library_store \<Rightarrow> event list \<Rightarrow> string list" where
  "served_names b s es = concat (map (\<lambda>(ev, m). fst (queue_obs b ev m)) (zip es (fst (run s es))))"

definition queued_names :: "ident \<Rightarrow> library_store \<Rightarrow> event list \<Rightarrow> string list" where
  "queued_names b s es = concat (map (\<lambda>(ev, m). snd (queue_obs b ev m)) (zip es (fst (run s es))))"

lemma user_name_update [simp]:
  "user_name (update_book k f s) u = user_name s u"
  "user_name (push_undo r s) u = user_name s u"
  "user_name (update_user k (\<lambda>x. x\<lparr>borrowed := g x\<rparr>) s) u = user_name s u"
  "user_name (s\<lparr>books := bs\<rparr>) u = user_name s u"
  by (simp_all add: user_name_def split: option.splits) (simp add: find_user_def)

lemma borrow_queue_obs:
  assumes fb: "find_book s b = Some bk"
  shows "\<exists>bk1. find_book (snd (borrow_book s u b')) b = Some bk1 \<and>
    fst (queue_obs b (Borrow u b') (fst (borrow_book s u b'))) @ map (user_name (snd (borrow_book s u b'))) (reservations bk1)
      = map (user_name s) (reservations bk) @ snd (queue_obs b (Borrow u b') (fst (borrow_book s u b')))"
  using fb
  by (auto simp: borrow_book_def user_name_def split: option.splits)

lemma queue_registered:
  "store_inv s \<Longrightarrow> find_book s b = Some bk \<Longrightarrow> x \<in> set (reservations bk) \<Longrightarrow> find_user s x \<noteq> None"
  using find_ids_iff(1)[of s x] by (auto simp: store_inv_find book_ok_def)

lemma return_queue_obs:
  assumes inv: "store_inv s" and fb: "find_book s b = Some bk"
  shows "\<exists>bk1. find_book (snd (return_book s u b')) b = Some bk1 \<and>
    fst (queue_obs b (Return u b') (fst (return_book s u b'))) @ map (user_name (snd (return_book s u b'))) (reservations bk1)
      = map (user_name s) (reservations bk) @ snd (queue_obs b (Return u b') (fst (return_book s u b')))"
proof (cases "b' = b")
  case False
  then show ?thesis using fb
    by (auto simp: return_book_def Let_def split: option.splits list.splits)
next
  case True
  have reg: "find_user s nu \<noteq> None" if "reservations bk = nu # rest" for nu rest
    using queue_registered[OF inv fb] that by simp
  show ?thesis using fb reg True
    by (auto simp: return_book_def Let_def user_name_def split: option.splits list.splits)
qed

lemma add_user_queue_names:
  assumes inv: "store_inv s" and fb: "find_book s b = Some bk"
  shows "map (user_name (snd (add_user s x))) (reservations bk) = map (user_name s) (reservations bk)"
proof -
  have "user_name (snd (add_user s x)) v = user_name s v" if "v \<in> set (reservations bk)" for v
    using queue_registered[OF inv fb that]
    by (auto simp: add_user_def user_name_def find_user_def find_append_single split: option.splits)
  then show ?thesis by simp
qed

lemma step_queue_obs:
  assumes inv: "store_inv s" and ev: "ev \<noteq> Undo" and fb: "find_book s b = Some bk"
  shows "\<exists>bk1. find_book (snd (step s ev)) b = Some bk1 \<and>
    fst (queue_obs b ev (fst (step s ev))) @ map (user_name (snd (step s ev))) (reservations bk1)
      = map (user_name s) (reservations bk) @ snd (queue_obs b ev (fst (step s ev)))"
proof (cases ev)
  case (AddBook i t a y c)
  have "find_book (snd (add_book s (mk_book i t a y c))) b = Some bk"
    using fb by (auto simp: add_book_def find_book_def find_append_single split: option.splits)
  moreover have "fst (add_book s (mk_book i t a y c)) \<in> {BookExists i, BookAdded t}"
    by (simp add: add_book_def split: option.splits)
  ultimately show ?thesis using AddBook by (auto simp: add_book_def split: option.splits)
next
  case (AddUser i n e)
  have "find_book (snd (add_user s (mk_user i n e))) b = Some bk"
    using fb by (simp add: add_user_def find_book_def split: option.splits)
  moreover have "fst (add_user s (mk_user i n e)) \<in> {UserExists i, UserAdded n}"
    by (simp add: add_user_def split: option.splits)
  ultimately show ?thesis using AddUser add_user_queue_names[OF inv fb] by auto
qed (use borrow_queue_obs[OF fb] return_queue_obs[OF inv fb] ev in simp_all)

lemma served_queued_Cons:
  "served_names b s (ev # es) = fst (queue_obs b ev (fst (step s ev))) @ served_names b (snd (step s ev)) es"
  "queued_names b s (ev # es) = snd (queue_obs b ev (fst (step s ev))) @ queued_names b (snd (step s ev)) es"
  by (simp_all add: served_names_def queued_names_def)

text \<open>C26: the reservation queue is first come, first served over whole runs: without undo, from a store satisfying the invariant, the names the messages report as served for a book, followed by the names still waiting at the end, are the names waiting at the start followed by the names the messages report as queued.\<close>

theorem queue_fifo_run:
  assumes "store_inv s" "Undo \<notin> set es" "find_book s b = Some bk"
  shows "\<exists>bk'. find_book (snd (run s es)) b = Some bk' \<and>
    served_names b s es @ map (user_name (snd (run s es))) (reservations bk')
      = map (user_name s) (reservations bk) @ queued_names b s es"
  using assms
proof (induction es arbitrary: s bk)
  case Nil
  then show ?case by (simp add: served_names_def queued_names_def)
next
  case (Cons ev es)
  obtain bk1 where fb1: "find_book (snd (step s ev)) b = Some bk1"
    and e1: "fst (queue_obs b ev (fst (step s ev))) @ map (user_name (snd (step s ev))) (reservations bk1)
      = map (user_name s) (reservations bk) @ snd (queue_obs b ev (fst (step s ev)))"
    using step_queue_obs[OF Cons.prems(1) _ Cons.prems(3), of ev] Cons.prems(2) by auto
  obtain bk' where fb': "find_book (snd (run (snd (step s ev)) es)) b = Some bk'"
    and e2: "served_names b (snd (step s ev)) es @ map (user_name (snd (run (snd (step s ev)) es))) (reservations bk')
      = map (user_name (snd (step s ev))) (reservations bk1) @ queued_names b (snd (step s ev)) es"
    using Cons.IH[OF step_inv[OF Cons.prems(1)] _ fb1] Cons.prems(2) by auto
  show ?case
    using fb' e1 e2 by (simp add: served_queued_Cons)
qed

end
