(* ===== verification/Lending_Abstract.thy ===== *)
theory Lending_Abstract
  imports Store_Invariants
begin

text \<open>
  The contract of the lending engine, stated without lists of records.  A library is
  the state of each registered book (copies on the shelf and the FIFO queue), the set
  of member identifiers, and the loans as a multiset of (user, book) pairs.  The
  abstract commands say what registering, borrowing and returning do to that state.
  \<open>abs_store\<close> reads the abstract state off a store, and the refinement lemmas show
  that \<open>add_book\<close>, \<open>add_user\<close>, \<open>borrow_book\<close> and \<open>return_book\<close> of
  \<open>store.py\<close> implement the abstract commands.
\<close>

record lending =
  lib_shelf :: "ident \<Rightarrow> (int \<times> ident list) option"
  lib_members :: "ident set"
  lib_loans :: "(ident \<times> ident) multiset"

definition user_loans :: "user \<Rightarrow> (ident \<times> ident) multiset" where
  "user_loans u = mset (map (\<lambda>b. (us_id u, b)) (borrowed u))"

definition abs_store :: "library_store \<Rightarrow> lending" where
  "abs_store s =
     \<lparr>lib_shelf = (\<lambda>k. map_option (\<lambda>b. (copies_available b, reservations b)) (find_book s k)),
      lib_members = us_id ` set (users s),
      lib_loans = sum_list (map user_loans (users s))\<rparr>"

definition abs_add_book :: "lending \<Rightarrow> ident \<Rightarrow> int \<Rightarrow> lending" where
  "abs_add_book L b c =
     (if lib_shelf L b = None then L\<lparr>lib_shelf := (lib_shelf L)(b \<mapsto> (c, []))\<rparr> else L)"

definition abs_add_user :: "lending \<Rightarrow> ident \<Rightarrow> lending" where
  "abs_add_user L u = L\<lparr>lib_members := insert u (lib_members L)\<rparr>"

definition abs_borrow :: "lending \<Rightarrow> ident \<Rightarrow> ident \<Rightarrow> lending" where
  "abs_borrow L u b =
     (if u \<notin> lib_members L then L
      else case lib_shelf L b of
        None \<Rightarrow> L
      | Some (a, q) \<Rightarrow>
          if 0 < a then L\<lparr>lib_shelf := (lib_shelf L)(b \<mapsto> (a - 1, q)), lib_loans := lib_loans L + {#(u, b)#}\<rparr>
          else if u \<in> set q then L
          else L\<lparr>lib_shelf := (lib_shelf L)(b \<mapsto> (a, q @ [u]))\<rparr>)"

definition abs_return :: "lending \<Rightarrow> ident \<Rightarrow> ident \<Rightarrow> lending" where
  "abs_return L u b =
     (if u \<notin> lib_members L then L
      else case lib_shelf L b of
        None \<Rightarrow> L
      | Some (a, q) \<Rightarrow>
          if (u, b) \<notin># lib_loans L then L
          else case q of
            [] \<Rightarrow> L\<lparr>lib_shelf := (lib_shelf L)(b \<mapsto> (a + 1, [])), lib_loans := lib_loans L - {#(u, b)#}\<rparr>
          | nu # rest \<Rightarrow>
              if nu \<in> lib_members L
              then L\<lparr>lib_shelf := (lib_shelf L)(b \<mapsto> (a, rest)),
                     lib_loans := lib_loans L - {#(u, b)#} + {#(nu, b)#}\<rparr>
              else L\<lparr>lib_shelf := (lib_shelf L)(b \<mapsto> (a + 1, rest)), lib_loans := lib_loans L - {#(u, b)#}\<rparr>)"

fun abs_step :: "lending \<Rightarrow> event \<Rightarrow> lending" where
  "abs_step L (AddBook i t a y c) = abs_add_book L i c"
| "abs_step L (AddUser i n e) = abs_add_user L i"
| "abs_step L (Borrow u b) = abs_borrow L u b"
| "abs_step L (Return u b) = abs_return L u b"
| "abs_step L Undo = L"

subsection \<open>The abstraction of an updated store\<close>

lemma abs_store_push_undo [simp]:
  "abs_store (push_undo r s) = abs_store s"
  by (simp add: abs_store_def)

lemma abs_store_update_book:
  "(\<And>b. bk_id (f b) = bk_id b) \<Longrightarrow> find_book s k = Some b \<Longrightarrow>
   abs_store (update_book k f s) =
     (abs_store s)\<lparr>lib_shelf := (lib_shelf (abs_store s))(k \<mapsto> (copies_available (f b), reservations (f b)))\<rparr>"
  by (simp add: abs_store_def fun_eq_iff)

lemma mset_add_eq_diff:
  "(a :: 'a multiset) + c = b + d \<Longrightarrow> a = b + d - c"
  by (metis add_diff_cancel_right')

lemma abs_store_update_user:
  assumes "\<And>u. us_id (g u) = us_id u" "find_user s k = Some u"
  shows "abs_store (update_user k g s) =
     (abs_store s)\<lparr>lib_loans := lib_loans (abs_store s) + user_loans (g u) - user_loans u\<rparr>"
proof -
  have f: "List.find (\<lambda>u. us_id u = k) (users s) = Some u" using assms(2) by (simp add: find_user_def)
  have "sum_list (map user_loans (upd_first (\<lambda>u. us_id u = k) g (users s))) + user_loans u =
      sum_list (map user_loans (users s)) + user_loans (g u)"
    by (rule sum_list_upd_first[OF f])
  then have "sum_list (map user_loans (upd_first (\<lambda>u. us_id u = k) g (users s))) =
      sum_list (map user_loans (users s)) + user_loans (g u) - user_loans u"
    by (rule mset_add_eq_diff)
  moreover have "us_id ` set (upd_first (\<lambda>u. us_id u = k) g (users s)) = us_id ` set (users s)"
  proof -
    have "map us_id (upd_first (\<lambda>u. us_id u = k) g (users s)) = map us_id (users s)"
      by (rule upd_first_keys) (rule assms(1))
    from arg_cong[where f = set, OF this] show ?thesis by simp
  qed
  ultimately show ?thesis using assms(1) by (simp add: abs_store_def store_lists_update)
qed

lemma user_loans_append [simp]:
  "user_loans (u\<lparr>borrowed := borrowed u @ [x]\<rparr>) = user_loans u + {#(us_id u, x)#}"
  by (simp add: user_loans_def)

lemma user_loans_remove1:
  "x \<in> set (borrowed u) \<Longrightarrow>
   user_loans u = user_loans (u\<lparr>borrowed := remove1 x (borrowed u)\<rparr>) + {#(us_id u, x)#}"
  by (simp add: user_loans_def mset_map[symmetric] del: mset_map)
     (metis add_mset_add_single insert_DiffM mset_map mset_remove1 image_mset_add_mset in_multiset_in_set
        mset_map)

lemma abs_lend:
  assumes "find_user s k = Some u"
  shows "abs_store (update_user k (\<lambda>u. u\<lparr>borrowed := borrowed u @ [x]\<rparr>) s) =
    (abs_store s)\<lparr>lib_loans := lib_loans (abs_store s) + {#(k, x)#}\<rparr>"
  using abs_store_update_user[OF _ assms, of "\<lambda>u. u\<lparr>borrowed := borrowed u @ [x]\<rparr>"]
    find_user_Some_id[OF assms] by simp

lemma abs_give_back:
  assumes "find_user s k = Some u" "x \<in> set (borrowed u)"
  shows "abs_store (update_user k (\<lambda>u. u\<lparr>borrowed := remove1 x (borrowed u)\<rparr>) s) =
    (abs_store s)\<lparr>lib_loans := lib_loans (abs_store s) - {#(k, x)#}\<rparr>"
proof -
  let ?v = "u\<lparr>borrowed := remove1 x (borrowed u)\<rparr>"
  have "lib_loans (abs_store s) + user_loans ?v - user_loans u = lib_loans (abs_store s) - {#(k, x)#}"
    using user_loans_remove1[OF assms(2)] find_user_Some_id[OF assms(1)] by simp
  then show ?thesis
    using abs_store_update_user[OF _ assms(1), of "\<lambda>u. u\<lparr>borrowed := remove1 x (borrowed u)\<rparr>"] by simp
qed

lemma abs_members:
  "k \<in> lib_members (abs_store s) \<longleftrightarrow> find_user s k \<noteq> None"
  using find_ids_iff(1)[of s k] by (simp add: abs_store_def)

lemma abs_shelf:
  "lib_shelf (abs_store s) k = map_option (\<lambda>b. (copies_available b, reservations b)) (find_book s k)"
  by (simp add: abs_store_def)

lemma borrow_book_refines:
  "abs_store (snd (borrow_book s u b)) = abs_borrow (abs_store s) u b"
proof (cases "find_user s u")
  case None
  then show ?thesis by (simp add: borrow_book_def abs_borrow_def abs_members)
next
  case (Some usr)
  note fu = Some
  show ?thesis
  proof (cases "find_book s b")
    case None
    then show ?thesis using fu by (simp add: borrow_book_def abs_borrow_def abs_members abs_shelf)
  next
    case (Some bk)
    note fb = Some
    have id: "bk_id bk = b" using find_book_Some_id[OF fb] by simp
    have mem: "u \<in> lib_members (abs_store s)" using fu by (simp add: abs_members)
    have sh: "lib_shelf (abs_store s) b = Some (copies_available bk, reservations bk)"
      using fb by (simp add: abs_shelf)
    consider (lend) "0 < copies_available bk"
      | (waiting) "\<not> 0 < copies_available bk" "u \<in> set (reservations bk)"
      | (enqueue) "\<not> 0 < copies_available bk" "u \<notin> set (reservations bk)" by blast
    then show ?thesis
    proof cases
      case lend
      let ?s1 = "update_book b (\<lambda>b. b\<lparr>copies_available := copies_available b - 1\<rparr>) s"
      have "abs_store (snd (borrow_book s u b)) =
          abs_store (update_user u (\<lambda>u. u\<lparr>borrowed := borrowed u @ [b]\<rparr>) ?s1)"
        using fu fb lend id by (simp add: borrow_book_def)
      also have "\<dots> = (abs_store ?s1)\<lparr>lib_loans := lib_loans (abs_store ?s1) + {#(u, b)#}\<rparr>"
        by (rule abs_lend) (simp add: fu)
      also have "\<dots> = abs_borrow (abs_store s) u b"
        using fb lend mem sh by (simp add: abs_store_update_book abs_borrow_def)
      finally show ?thesis .
    next
      case waiting
      then show ?thesis using fu fb mem sh by (simp add: borrow_book_def abs_borrow_def)
    next
      case enqueue
      then show ?thesis using fu fb mem sh
        by (simp add: borrow_book_def abs_borrow_def abs_store_update_book)
    qed
  qed
qed

lemma loans_member_iff:
  "(k, x) \<in># sum_list (map user_loans xs) \<longleftrightarrow> (\<exists>u\<in>set xs. us_id u = k \<and> x \<in> set (borrowed u))"
  by (induction xs) (auto simp: user_loans_def)

lemma abs_loan_iff:
  assumes "distinct (map us_id (users s))" "find_user s k = Some u"
  shows "(k, x) \<in># lib_loans (abs_store s) \<longleftrightarrow> x \<in> set (borrowed u)"
proof
  assume "(k, x) \<in># lib_loans (abs_store s)"
  then have "(k, x) \<in># sum_list (map user_loans (users s))" by (simp add: abs_store_def)
  then obtain v where v: "v \<in> set (users s)" "us_id v = k" "x \<in> set (borrowed v)"
    using loans_member_iff by blast
  have "find_user s k = Some v"
    using find_key_distinct[OF assms(1) v(1)] v(2) by (simp add: find_user_def)
  then show "x \<in> set (borrowed u)" using assms(2) v(3) by simp
next
  assume "x \<in> set (borrowed u)"
  then have "(k, x) \<in># sum_list (map user_loans (users s))"
    using find_user_Some_id[OF assms(2)] loans_member_iff by blast
  then show "(k, x) \<in># lib_loans (abs_store s)" by (simp add: abs_store_def)
qed

lemma return_book_refines:
  assumes dist: "distinct (map us_id (users s))"
  shows "abs_store (snd (return_book s u b)) = abs_return (abs_store s) u b"
proof (cases "find_user s u")
  case None
  then show ?thesis by (simp add: return_book_def abs_return_def abs_members)
next
  case (Some usr)
  note fu = Some
  show ?thesis
  proof (cases "find_book s b")
    case None
    then show ?thesis using fu by (simp add: return_book_def abs_return_def abs_members abs_shelf)
  next
    case (Some bk)
    note fb = Some
    have id: "bk_id bk = b" using find_book_Some_id[OF fb] by simp
    have mem: "u \<in> lib_members (abs_store s)" using fu by (simp add: abs_members)
    have sh: "lib_shelf (abs_store s) b = Some (copies_available bk, reservations bk)"
      using fb by (simp add: abs_shelf)
    have loan: "(u, b) \<in># lib_loans (abs_store s) \<longleftrightarrow> b \<in> set (borrowed usr)"
      by (rule abs_loan_iff[OF dist fu])
    show ?thesis
    proof (cases "b \<in> set (borrowed usr)")
      case False
      then show ?thesis using fu fb mem sh loan by (simp add: return_book_def abs_return_def)
    next
      case True
      let ?s0 = "update_user u (\<lambda>u. u\<lparr>borrowed := remove1 b (borrowed u)\<rparr>) s"
      let ?s1 = "update_book b (\<lambda>b. b\<lparr>copies_available := copies_available b + 1\<rparr>) ?s0"
      have a0: "abs_store ?s0 = (abs_store s)\<lparr>lib_loans := lib_loans (abs_store s) - {#(u, b)#}\<rparr>"
        by (rule abs_give_back[OF fu True])
      have a1: "abs_store ?s1 = (abs_store s)\<lparr>lib_shelf := (lib_shelf (abs_store s))(b \<mapsto> (copies_available bk + 1, reservations bk)),
          lib_loans := lib_loans (abs_store s) - {#(u, b)#}\<rparr>"
        using abs_store_update_book[of "\<lambda>b. b\<lparr>copies_available := copies_available b + 1\<rparr>" ?s0 b bk] fb a0
        by simp
      have members1: "find_user ?s1 k = None \<longleftrightarrow> find_user s k = None" for k
        using fu by simp
      show ?thesis
      proof (cases "reservations bk")
        case Nil
        have "abs_store (snd (return_book s u b)) = abs_store ?s1"
          using fu fb True Nil by (simp add: return_book_def)
        then show ?thesis using a1 mem sh loan True Nil by (simp add: abs_return_def)
      next
        case (Cons nu rest)
        let ?s2 = "update_book b (\<lambda>b. b\<lparr>reservations := rest\<rparr>) ?s1"
        have fb1: "find_book ?s1 b = Some (bk\<lparr>copies_available := copies_available bk + 1\<rparr>)"
          using fb by simp
        have a2: "abs_store ?s2 = (abs_store s)\<lparr>lib_shelf := (lib_shelf (abs_store s))(b \<mapsto> (copies_available bk + 1, rest)),
            lib_loans := lib_loans (abs_store s) - {#(u, b)#}\<rparr>"
          using abs_store_update_book[OF _ fb1, of "\<lambda>b. b\<lparr>reservations := rest\<rparr>"] a1 by simp
        show ?thesis
        proof (cases "find_user ?s2 nu")
          case None
          then have "abs_store (snd (return_book s u b)) = abs_store ?s2"
            using fu fb True Cons by (simp add: return_book_def Let_def)
          moreover have "nu \<notin> lib_members (abs_store s)" using None members1[of nu] by (simp add: abs_members)
          ultimately show ?thesis using a2 mem sh loan True Cons by (simp add: abs_return_def)
        next
          case (Some nv)
          let ?s3 = "update_book b (\<lambda>b. b\<lparr>copies_available := copies_available b - 1\<rparr>) ?s2"
          have fb2: "find_book ?s2 b = Some (bk\<lparr>copies_available := copies_available bk + 1, reservations := rest\<rparr>)"
            using fb by simp
          have a3: "abs_store ?s3 = (abs_store s)\<lparr>lib_shelf := (lib_shelf (abs_store s))(b \<mapsto> (copies_available bk, rest)),
              lib_loans := lib_loans (abs_store s) - {#(u, b)#}\<rparr>"
            using abs_store_update_book[OF _ fb2, of "\<lambda>b. b\<lparr>copies_available := copies_available b - 1\<rparr>"] a2 by simp
          have "abs_store (snd (return_book s u b)) =
              abs_store (update_user nu (\<lambda>u. u\<lparr>borrowed := borrowed u @ [b]\<rparr>) ?s3)"
            using fu fb True Cons Some id by (simp add: return_book_def Let_def)
          also have "\<dots> = (abs_store ?s3)\<lparr>lib_loans := lib_loans (abs_store ?s3) + {#(nu, b)#}\<rparr>"
            by (rule abs_lend) (use Some in simp)
          finally have "abs_store (snd (return_book s u b)) =
              (abs_store s)\<lparr>lib_shelf := (lib_shelf (abs_store s))(b \<mapsto> (copies_available bk, rest)),
                lib_loans := lib_loans (abs_store s) - {#(u, b)#} + {#(nu, b)#}\<rparr>"
            using a3 by simp
          moreover have "nu \<in> lib_members (abs_store s)" using Some members1[of nu] by (simp add: abs_members)
          ultimately show ?thesis using mem sh loan True Cons by (simp add: abs_return_def)
        qed
      qed
    qed
  qed
qed

lemma add_book_refines:
  "abs_store (snd (add_book s (mk_book i t a y c))) = abs_add_book (abs_store s) i c"
proof (cases "find_book s i")
  case None
  have "find_book (s\<lparr>books := books s @ [mk_book i t a y c]\<rparr>) k =
      (if k = i then Some (mk_book i t a y c) else find_book s k)" for k
    using None by (simp add: find_book_def find_append_single split: option.split)
  then show ?thesis using None by (simp add: add_book_def abs_add_book_def abs_store_def abs_shelf fun_eq_iff)
next
  case (Some b)
  then show ?thesis by (simp add: add_book_def abs_add_book_def abs_shelf)
qed

lemma add_user_refines:
  "abs_store (snd (add_user s (mk_user i n e))) = abs_add_user (abs_store s) i"
proof (cases "find_user s i")
  case None
  then show ?thesis by (simp add: add_user_def abs_add_user_def abs_store_def user_loans_def find_book_def)
next
  case (Some u)
  then have "i \<in> lib_members (abs_store s)" by (simp add: abs_members)
  then show ?thesis using Some by (simp add: add_user_def abs_add_user_def insert_absorb)
qed

lemma step_refines:
  "store_inv s \<Longrightarrow> ev \<noteq> Undo \<Longrightarrow> abs_store (snd (step s ev)) = abs_step (abs_store s) ev"
  by (cases ev) (simp_all add: add_book_refines add_user_refines borrow_book_refines return_book_refines
      store_inv_def)

text \<open>The store refines the abstract lending contract: from any store satisfying the invariant, a run of registrations, borrows and returns (no undo) yields a store whose abstraction is the result of the abstract commands; each abstract command is implemented by the store method of the same name.\<close>

theorem run_refines:
  "store_inv s \<Longrightarrow> Undo \<notin> set evs \<Longrightarrow> abs_store (snd (run s evs)) = foldl abs_step (abs_store s) evs"
proof (induction evs arbitrary: s)
  case Nil
  then show ?case by simp
next
  case (Cons ev evs)
  have "abs_store (snd (step s ev)) = abs_step (abs_store s) ev"
    using Cons.prems by (intro step_refines) auto
  moreover have "abs_store (snd (run (snd (step s ev)) evs)) = foldl abs_step (abs_store (snd (step s ev))) evs"
    using Cons.IH[OF step_inv[OF Cons.prems(1)]] Cons.prems(2) by simp
  ultimately show ?case by simp
qed

lemma abs_step_queue:
  assumes "lib_shelf L b = Some (a, q)" "lib_shelf (abs_step L ev) b = Some (a', q')"
  shows "q' = q \<or> (\<exists>u. ev = Borrow u b \<and> q' = q @ [u]) \<or> (\<exists>u. ev = Return u b \<and> q \<noteq> [] \<and> q' = tl q)"
proof (cases ev)
  case (AddBook i t au y c)
  then show ?thesis using assms by (auto simp: abs_add_book_def split: if_splits)
next
  case (AddUser i n e)
  then show ?thesis using assms by (simp add: abs_add_user_def)
next
  case (Borrow u bb)
  then show ?thesis using assms
    by (cases "bb = b") (auto simp: abs_borrow_def split: if_splits option.splits)
next
  case (Return u bb)
  then show ?thesis using assms
    by (cases "bb = b") (auto simp: abs_return_def split: if_splits option.splits list.splits)
qed (use assms in simp)

text \<open>without undo every reservation queue is FIFO: a command leaves the queue of a book unchanged, appends the borrower at its end (a borrow of that book), or removes its head (a return of that book).\<close>

theorem step_queue_fifo:
  assumes "store_inv s" "ev \<noteq> Undo"
    and "find_book s b = Some bk" "find_book (snd (step s ev)) b = Some bk'"
  shows "reservations bk' = reservations bk
    \<or> (\<exists>u. ev = Borrow u b \<and> reservations bk' = reservations bk @ [u])
    \<or> (\<exists>u. ev = Return u b \<and> reservations bk \<noteq> [] \<and> reservations bk' = tl (reservations bk))"
proof -
  have "abs_store (snd (step s ev)) = abs_step (abs_store s) ev"
    by (rule step_refines[OF assms(1,2)])
  then have "lib_shelf (abs_step (abs_store s) ev) b = Some (copies_available bk', reservations bk')"
    using assms(4) by (metis abs_shelf option.simps(9))
  moreover have "lib_shelf (abs_store s) b = Some (copies_available bk, reservations bk)"
    using assms(3) by (simp add: abs_shelf)
  ultimately show ?thesis using abs_step_queue by blast
qed

end
