(* ===== verification/Undo_Abstract.thy ===== *)
theory Undo_Abstract
  imports Lending_Abstract
begin

text \<open>
  The contract of undo, stated on the abstract lending state of
  \<open>Lending_Abstract\<close>.  Each undo entry has an abstract inverse:
  \<open>abs_unborrow\<close> puts a loan back on the shelf when the user still holds it.
  \<open>abs_unreturn\<close> first takes the copy back from the promoted user, if the entry
  names one that still holds it (\<open>abs_reclaim\<close>; an empty id is false, as in
  Python), and then lends a copy to the returning user if one is on the shelf.  The
  abstract machine with history \<open>abs_step_h\<close> pushes the entry that
  \<open>borrow_book\<close> and \<open>return_book\<close> push (\<open>abs_lent\<close>,
  \<open>abs_return_entry\<close>) and pops and inverts it on undo.  The store with its undo
  stack refines this machine on every run, undo included.
\<close>

fun abs_reclaim :: "lending \<Rightarrow> ident \<Rightarrow> ident option \<Rightarrow> bool \<times> lending" where
  "abs_reclaim L b None = (False, L)"
| "abs_reclaim L b (Some v) =
     (if v \<noteq> [] \<and> v \<in> lib_members L \<and> (v, b) \<in># lib_loans L then
        (True, case lib_shelf L b of
                 None \<Rightarrow> L\<lparr>lib_loans := lib_loans L - {#(v, b)#}\<rparr>
               | Some (a, q) \<Rightarrow> L\<lparr>lib_shelf := (lib_shelf L)(b \<mapsto> (a + 1, v # q)),
                                  lib_loans := lib_loans L - {#(v, b)#}\<rparr>)
      else (False, L))"

definition abs_unborrow :: "lending \<Rightarrow> ident \<Rightarrow> ident \<Rightarrow> lending" where
  "abs_unborrow L u b =
     (case lib_shelf L b of
        None \<Rightarrow> L
      | Some (a, q) \<Rightarrow>
          if u \<in> lib_members L \<and> (u, b) \<in># lib_loans L
          then L\<lparr>lib_shelf := (lib_shelf L)(b \<mapsto> (a + 1, q)), lib_loans := lib_loans L - {#(u, b)#}\<rparr>
          else L)"

definition abs_unreturn :: "lending \<Rightarrow> ident \<Rightarrow> ident \<Rightarrow> ident option \<Rightarrow> lending" where
  "abs_unreturn L u b nu =
     (if u \<notin> lib_members L \<or> lib_shelf L b = None then L
      else
        let L1 = snd (abs_reclaim L b nu)
        in case lib_shelf L1 b of
             None \<Rightarrow> L1
           | Some (a, q) \<Rightarrow>
               if 0 < a then L1\<lparr>lib_shelf := (lib_shelf L1)(b \<mapsto> (a - 1, q)), lib_loans := lib_loans L1 + {#(u, b)#}\<rparr>
               else L1)"

fun abs_undo_rec :: "lending \<Rightarrow> undo_rec \<Rightarrow> lending" where
  "abs_undo_rec L (OpBorrow u b) = abs_unborrow L u b"
| "abs_undo_rec L (OpReturn u b nu) = abs_unreturn L u b nu"

definition abs_lent :: "lending \<Rightarrow> ident \<Rightarrow> ident \<Rightarrow> bool" where
  "abs_lent L u b \<longleftrightarrow> u \<in> lib_members L \<and> (case lib_shelf L b of Some (a, q) \<Rightarrow> 0 < a | None \<Rightarrow> False)"

definition abs_return_entry :: "lending \<Rightarrow> ident \<Rightarrow> ident \<Rightarrow> undo_rec list" where
  "abs_return_entry L u b =
     (case lib_shelf L b of
        None \<Rightarrow> []
      | Some (a, q) \<Rightarrow>
          if u \<in> lib_members L \<and> (u, b) \<in># lib_loans L then
            [OpReturn u b (case q of [] \<Rightarrow> None | nu # rest \<Rightarrow> if nu \<in> lib_members L then Some nu else None)]
          else [])"

fun abs_step_h :: "lending \<times> undo_rec list \<Rightarrow> event \<Rightarrow> lending \<times> undo_rec list" where
  "abs_step_h (L, h) (Borrow u b) = (abs_borrow L u b, if abs_lent L u b then h @ [OpBorrow u b] else h)"
| "abs_step_h (L, h) (Return u b) = (abs_return L u b, h @ abs_return_entry L u b)"
| "abs_step_h (L, h) Undo = (if h = [] then (L, h) else (abs_undo_rec L (last h), butlast h))"
| "abs_step_h (L, h) ev = (abs_step L ev, h)"

lemma abs_store_stack [simp]: "abs_store (s\<lparr>undo_stack := st\<rparr>) = abs_store s"
  by (simp add: abs_store_def)

lemma reclaim_refines:
  assumes dist: "distinct (map us_id (users s))"
  shows "reclaim_autoloan b nu s = (fst (abs_reclaim (abs_store s) b nu), snd (reclaim_autoloan b nu s))
    \<and> abs_store (snd (reclaim_autoloan b nu s)) = snd (abs_reclaim (abs_store s) b nu)"
proof (cases nu)
  case None
  then show ?thesis by (simp add: reclaim_autoloan_def)
next
  case (Some v)
  show ?thesis
  proof (cases "v \<noteq> [] \<and> find_user s v \<noteq> None")
    case False
    then show ?thesis using Some by (auto simp: reclaim_autoloan_def abs_members)
  next
    case True
    then obtain usr where fu: "find_user s v = Some usr" and ne: "v \<noteq> []" by auto
    have mem: "v \<in> lib_members (abs_store s)" using fu by (simp add: abs_members)
    have loan: "(v, b) \<in># lib_loans (abs_store s) \<longleftrightarrow> b \<in> set (borrowed usr)"
      by (rule abs_loan_iff[OF dist fu])
    show ?thesis
    proof (cases "b \<in> set (borrowed usr)")
      case False
      then show ?thesis using Some fu ne loan by (simp add: reclaim_autoloan_def)
    next
      case hold: True
      let ?s0 = "update_user v (\<lambda>u. u\<lparr>borrowed := remove1 b (borrowed u)\<rparr>) s"
      have a0: "abs_store ?s0 = (abs_store s)\<lparr>lib_loans := lib_loans (abs_store s) - {#(v, b)#}\<rparr>"
        by (rule abs_give_back[OF fu hold])
      have "abs_store (update_book b (\<lambda>bk. bk\<lparr>copies_available := copies_available bk + 1\<rparr>)
              (update_book b (\<lambda>bk. bk\<lparr>reservations := v # reservations bk\<rparr>) ?s0))
          = snd (abs_reclaim (abs_store s) b nu)"
      proof (cases "find_book s b")
        case None
        then show ?thesis using Some ne mem loan hold a0 by (simp add: update_book_missing abs_shelf)
      next
        case (Some bk)
        then show ?thesis using \<open>nu = Some v\<close> ne mem loan hold a0
          by (simp add: abs_store_update_book abs_shelf fun_upd_twist)
      qed
      then show ?thesis using Some fu ne mem loan hold by (simp add: reclaim_autoloan_def)
    qed
  qed
qed

lemma reclaim_shelf:
  "lib_shelf L b = Some (a, q) \<Longrightarrow>
   lib_shelf (snd (abs_reclaim L b nu)) b = Some (a + (if fst (abs_reclaim L b nu) then 1 else 0),
     if fst (abs_reclaim L b nu) then the nu # q else q)"
  by (cases nu) auto

lemma reclaim_members [simp]: "lib_members (snd (abs_reclaim L b nu)) = lib_members L"
  by (cases nu) (auto split: option.splits)

lemma undo_borrow_refines:
  assumes dist: "distinct (map us_id (users s))" and top: "undo_stack s = st @ [OpBorrow u b]"
  shows "abs_store (snd (undo_last s)) = abs_unborrow (abs_store s) u b"
proof -
  let ?s0 = "s\<lparr>undo_stack := st\<rparr>"
  have pop: "undo_last s =
      (case (find_user ?s0 u, find_book ?s0 b) of
         (Some usr, Some bk) \<Rightarrow>
           if bk_id bk \<in> set (borrowed usr) then
             (UndoneBorrow (title bk) (name usr),
              update_book b (\<lambda>b. b\<lparr>copies_available := copies_available b + 1\<rparr>)
                (update_user u (\<lambda>u. u\<lparr>borrowed := remove1 (bk_id bk) (borrowed u)\<rparr>) ?s0))
           else (UndoBorrowFailed, ?s0)
       | _ \<Rightarrow> (UndoBorrowFailed, ?s0))"
    using top by (simp add: undo_last_def Let_def split: option.split)
  show ?thesis
  proof (cases "find_user s u")
    case None
    then show ?thesis using pop by (simp add: abs_unborrow_def abs_members split: option.splits)
  next
    case (Some usr)
    note fu = Some
    have mem: "u \<in> lib_members (abs_store s)" using fu by (simp add: abs_members)
    have loan: "(u, b) \<in># lib_loans (abs_store s) \<longleftrightarrow> b \<in> set (borrowed usr)"
      by (rule abs_loan_iff[OF dist fu])
    show ?thesis
    proof (cases "find_book s b")
      case None
      then show ?thesis using fu pop by (simp add: abs_unborrow_def abs_shelf)
    next
      case (Some bk)
      note fb = Some
      have id: "bk_id bk = b" using find_book_Some_id[OF fb] by simp
      show ?thesis
      proof (cases "b \<in> set (borrowed usr)")
        case False
        then show ?thesis using fu fb id loan pop by (simp add: abs_unborrow_def abs_shelf)
      next
        case True
        let ?s1 = "update_user u (\<lambda>x. x\<lparr>borrowed := remove1 b (borrowed x)\<rparr>) ?s0"
        have fu0: "find_user ?s0 u = Some usr" using fu by simp
        have a1: "abs_store ?s1 = (abs_store s)\<lparr>lib_loans := lib_loans (abs_store s) - {#(u, b)#}\<rparr>"
          using abs_give_back[OF fu0 True] by simp
        have "abs_store (snd (undo_last s)) =
            abs_store (update_book b (\<lambda>b. b\<lparr>copies_available := copies_available b + 1\<rparr>) ?s1)"
          using fu fb id True pop by simp
        also have "\<dots> = abs_unborrow (abs_store s) u b"
          using fb mem loan True a1 by (simp add: abs_store_update_book abs_unborrow_def abs_shelf)
        finally show ?thesis .
      qed
    qed
  qed
qed

lemma undo_return_refines:
  assumes dist: "distinct (map us_id (users s))" and top: "undo_stack s = st @ [OpReturn u b nu]"
  shows "abs_store (snd (undo_last s)) = abs_unreturn (abs_store s) u b nu"
proof -
  let ?s0 = "s\<lparr>undo_stack := st\<rparr>"
  let ?L = "abs_store s"
  show ?thesis
  proof (cases "find_user s u = None \<or> find_book s b = None")
    case True
    then show ?thesis using top
      by (auto simp: undo_last_def Let_def abs_unreturn_def abs_members abs_shelf split: option.split)
  next
    case False
    then obtain usr bk where fu: "find_user s u = Some usr" and fb: "find_book s b = Some bk" by auto
    have id: "bk_id bk = b" using find_book_Some_id[OF fb] by simp
    have mem: "u \<in> lib_members ?L" using fu by (simp add: abs_members)
    have sh: "lib_shelf ?L b = Some (copies_available bk, reservations bk)" using fb by (simp add: abs_shelf)
    obtain rc s1 where r: "reclaim_autoloan b nu ?s0 = (rc, s1)" by (cases "reclaim_autoloan b nu ?s0")
    have rc: "rc = fst (abs_reclaim ?L b nu)" and a1: "abs_store s1 = snd (abs_reclaim ?L b nu)"
      using reclaim_refines[of ?s0 b nu] dist r by simp_all
    obtain b1 where fb1: "find_book s1 b = Some b1"
      and c1: "copies_available b1 = copies_available bk + (if rc then 1 else 0)"
      using reclaim_autoloan_lookup(1)[of ?s0 b bk nu] fb r by auto
    obtain usr1 where fu1: "find_user s1 u = Some usr1"
      using reclaim_autoloan_lookup(2)[of ?s0 b bk nu u] fu fb r by auto
    have sh1: "lib_shelf (snd (abs_reclaim ?L b nu)) b = Some (copies_available b1, reservations b1)"
      using fb1 a1[symmetric] by (simp add: abs_shelf)
    show ?thesis
    proof (cases "0 < copies_available bk + (if rc then 1 else 0)")
      case True
      let ?s2 = "update_book b (\<lambda>b. b\<lparr>copies_available := copies_available b - 1\<rparr>) s1"
      have "snd (undo_last s) = update_user u (\<lambda>x. x\<lparr>borrowed := borrowed x @ [b]\<rparr>) ?s2"
        using top fu fb id r True by (simp add: undo_last_def Let_def)
      moreover have "abs_store (update_user u (\<lambda>x. x\<lparr>borrowed := borrowed x @ [b]\<rparr>) ?s2) =
          (abs_store ?s2)\<lparr>lib_loans := lib_loans (abs_store ?s2) + {#(u, b)#}\<rparr>"
        by (rule abs_lend) (simp add: fu1)
      moreover have "abs_store ?s2 = (abs_store s1)\<lparr>lib_shelf := (lib_shelf (abs_store s1))(b \<mapsto>
          (copies_available b1 - 1, reservations b1))\<rparr>"
        using abs_store_update_book[OF _ fb1, of "\<lambda>b. b\<lparr>copies_available := copies_available b - 1\<rparr>"] by simp
      moreover have "0 < copies_available b1" using True c1 by simp
      ultimately show ?thesis
        using mem sh sh1 a1 by (simp add: abs_unreturn_def Let_def)
    next
      case False
      have "snd (undo_last s) = s1"
        using top fu fb id r False by (simp add: undo_last_def Let_def)
      moreover have "\<not> 0 < copies_available b1" using False c1 by simp
      ultimately show ?thesis using mem sh sh1 a1 by (simp add: abs_unreturn_def Let_def)
    qed
  qed
qed

lemma undo_last_refines:
  "distinct (map us_id (users s)) \<Longrightarrow> undo_stack s \<noteq> [] \<Longrightarrow>
   abs_store (snd (undo_last s)) = abs_undo_rec (abs_store s) (last (undo_stack s))"
proof -
  assume dist: "distinct (map us_id (users s))" and ne: "undo_stack s \<noteq> []"
  then have top: "undo_stack s = butlast (undo_stack s) @ [last (undo_stack s)]" by simp
  show ?thesis
  proof (cases "last (undo_stack s)")
    case (OpBorrow u b)
    then show ?thesis using undo_borrow_refines[OF dist] top by simp
  next
    case (OpReturn u b nu)
    then show ?thesis using undo_return_refines[OF dist] top by simp
  qed
qed

lemma borrow_book_entry:
  "undo_stack (snd (borrow_book s u b)) = undo_stack s @ (if abs_lent (abs_store s) u b then [OpBorrow u b] else [])"
  by (auto simp: borrow_book_def abs_lent_def abs_members abs_shelf split: option.splits)

lemma return_book_entry:
  assumes dist: "distinct (map us_id (users s))"
  shows "undo_stack (snd (return_book s u b)) = undo_stack s @ abs_return_entry (abs_store s) u b"
proof (cases "find_user s u")
  case None
  then show ?thesis by (simp add: return_book_def abs_return_entry_def abs_members split: option.split)
next
  case (Some usr)
  have loan: "(u, b) \<in># lib_loans (abs_store s) \<longleftrightarrow> b \<in> set (borrowed usr)"
    by (rule abs_loan_iff[OF dist Some])
  show ?thesis using Some loan
    by (auto simp: return_book_def abs_return_entry_def abs_shelf abs_members Let_def split: option.splits list.splits)
qed

lemma step_refines_history:
  assumes inv: "store_inv s"
  shows "(abs_store (snd (step s ev)), undo_stack (snd (step s ev))) = abs_step_h (abs_store s, undo_stack s) ev"
proof -
  have dist: "distinct (map us_id (users s))" using inv by (simp add: store_inv_def)
  show ?thesis
  proof (cases ev)
    case (Borrow u b)
    then show ?thesis using step_refines[OF inv, of ev] by (simp add: borrow_book_entry)
  next
    case (Return u b)
    then show ?thesis using step_refines[OF inv, of ev] by (simp add: return_book_entry[OF dist])
  next
    case Undo
    then show ?thesis
      by (simp add: undo_last_empty undo_last_refines[OF dist] undo_last_stack)
  qed (use step_refines[OF inv, of ev] in \<open>simp_all add: add_book_def add_user_def split: option.split\<close>)
qed

text \<open>C25: the store refines the abstract lending contract with its undo history: from any store satisfying the invariant, every run of registrations, borrows, returns and undos yields a store whose abstraction and undo stack are those of the abstract machine, which pushes an entry for each lend and each return and on undo pops the last entry and applies its abstract inverse.\<close>

theorem run_refines_history:
  "store_inv s \<Longrightarrow>
   (abs_store (snd (run s evs)), undo_stack (snd (run s evs))) = foldl abs_step_h (abs_store s, undo_stack s) evs"
proof (induction evs arbitrary: s)
  case Nil
  then show ?case by simp
next
  case (Cons ev evs)
  have "(abs_store (snd (step s ev)), undo_stack (snd (step s ev))) = abs_step_h (abs_store s, undo_stack s) ev"
    by (rule step_refines_history[OF Cons.prems])
  moreover have "(abs_store (snd (run (snd (step s ev)) evs)), undo_stack (snd (run (snd (step s ev)) evs)))
      = foldl abs_step_h (abs_store (snd (step s ev)), undo_stack (snd (step s ev))) evs"
    by (rule Cons.IH[OF step_inv[OF Cons.prems]])
  ultimately show ?case by simp
qed

end
