(* ===== verification/Spec2Isabelle.thy ===== *)
theory Spec2Isabelle
  imports Undo_History Window_Gui Lending_Progress Queue_Fairness Undo_Abstract Table_Sorting
begin

text \<open>
  \<^bold>\<open>A verification development of the in-memory library lending program.\<close>

  \<^bold>\<open>The program.\<close>  \<open>src/controllers/book.py\<close> defines the \<open>Book\<close> dataclass
  (copies in total and on the shelf, and a FIFO deque of waiting user ids).  The user
  record comes from \<open>controllers/user.py\<close>, which is not among the sources.
  \<open>src/controllers/store.py\<close> is the core: \<open>LibraryStore\<close> keeps a list of books, a
  list of users and an undo stack of dictionaries.  It finds entries by a linear scan
  (\<open>find_book\<close>, \<open>find_user\<close>), registers them (\<open>add_book\<close>, \<open>add_user\<close>), and runs
  the lending state machine: \<open>borrow_book\<close> lends a copy or queues the user,
  \<open>return_book\<close> gives a copy back and promotes the head of the queue, and
  \<open>undo_last\<close> pops the last entry and reverses it.
  \<open>src/models/library_controller.py\<close> strips the strings it receives, builds the
  objects, forwards each call and logs the message.  \<open>src/main.py\<close> creates a
  controller with the default no-op logger and the window (\<open>src/views/main_window.py\<close>).
  The window has three tabs: books (a form, a list toggle, a filter box and a table),
  users (the same) and loans (borrow, return and undo buttons).  It seeds the sample
  data, checks each form (Python's \<open>int()\<close> on the year and copies fields, non-empty
  stripped fields otherwise), calls the controller and refreshes the tables.
  \<open>src/styles/style.py\<close> gives the tables their settings (\<open>tune_table\<close>, which also
  turns sorting on) and the window its style sheet.

  \<^bold>\<open>The theories.\<close>
  \<^item> \<open>Lending_Prelude\<close>: \<open>upd_first\<close>, the in-place update of the first list element
    a search finds (how the store mutates the object \<open>next(...)\<close> returned), with its
    lemmas about searches, key lists and sums; counting lemmas for \<open>remove1\<close>.
  \<^item> \<open>Book\<close>, \<open>User\<close>: the records and their constructors \<open>mk_book\<close> (the dataclass
    constructor with \<open>__post_init__\<close>) and \<open>mk_user\<close> (modelled from the specification).
  \<^item> \<open>Store_Registry\<close>: the store record \<open>library_store\<close>, the undo entries
    \<open>undo_rec\<close>, the messages \<open>msg\<close> (one constructor per message the source
    returns), \<open>find_book\<close>, \<open>find_user\<close>, the mutation helpers \<open>update_book\<close>,
    \<open>update_user\<close>, \<open>push_undo\<close>, and \<open>add_book\<close>, \<open>add_user\<close>.
  \<^item> \<open>Lending_Engine\<close>: \<open>borrow_book\<close>, \<open>return_book\<close>, \<open>reclaim_autoloan\<close> (step 1
    of undoing a return) and \<open>undo_last\<close>, each statement for statement, and their
    behaviour on every branch (C3 to C6, C9, C10).
  \<^item> \<open>Undo_Roundtrip\<close>: undo as the inverse of a borrow or a return, up to the order
    of the \<open>borrowed\<close> lists (C7, C8).
  \<^item> \<open>Store_Invariants\<close>: the command interface \<open>step\<close>, runs, the reachable stores,
    the invariant \<open>store_inv\<close> and its preservation by every command; the
    properties of reachable stores (C1, C2, C13 to C15).
  \<^item> \<open>Undo_History\<close>: \<open>undo_ok\<close>, the consistency of the whole undo stack
    (repeated undos all succeed until the stack is empty), the extension relation
    \<open>store_ext\<close> between a store and one with more registrations and longer queues,
    and the proof that reachable stores with non-empty user ids keep a consistent
    history (C27).
  \<^item> \<open>Lending_Progress\<close>: \<open>undo_all\<close>, pressing undo until the stack is empty, as a
    \<open>while_option\<close> loop, and its termination (C32); \<open>returns_ok\<close>, a sequence of
    returns by users holding the book, and bounded waiting in the queue (C33).
  \<^item> \<open>Controller\<close>: \<open>strip\<close> (Python's \<open>str.strip\<close> on ASCII whitespace), the
    controller record (store and message log), its commands and
    \<open>seed_sample_data\<close>; the commands strip identifiers exactly once (C22).
  \<^item> \<open>Lending_Abstract\<close>: the contract of the lending engine without lists of
    records: per book the copies on the shelf and the FIFO queue, the set of members,
    and the loans as a multiset of (user, book) pairs; the abstract commands
    \<open>abs_add_book\<close>, \<open>abs_add_user\<close>, \<open>abs_borrow\<close>, \<open>abs_return\<close>; the
    abstraction \<open>abs_store\<close>, the refinement of every command except undo, and the
    one-step FIFO shape of the queues.
  \<^item> \<open>Undo_Abstract\<close>: the abstract inverse of each undo entry (\<open>abs_unborrow\<close>,
    \<open>abs_unreturn\<close> with \<open>abs_reclaim\<close>), the abstract machine with history
    \<open>abs_step_h\<close>, and the refinement of every command, undo included, on
    the abstraction paired with the undo stack (C25).
  \<^item> \<open>Queue_Fairness\<close>: the users a run's messages report as queued for and served
    with a book (\<open>queue_obs\<close>, \<open>served_names\<close>, \<open>queued_names\<close>), and first come,
    first served over whole undo-free runs (C26).
  \<^item> \<open>Window\<close>: \<open>py_int\<close> (Python's \<open>int()\<close> on base-10 text, \<open>None\<close> for
    \<open>ValueError\<close>) with its printer \<open>int_str\<close>, the handlers \<open>on_add_book\<close>,
    \<open>on_add_user\<close>, \<open>on_borrow\<close>, \<open>on_return\<close>, \<open>on_undo\<close>, the dispatch
    \<open>window_step\<close> on button presses, \<open>window_init\<close> (the seeding in \<open>__init__\<close>),
    \<open>set_logger\<close>, and \<open>window_reachable\<close>: the controllers \<open>main.py\<close> can reach
    by pressing buttons (C23, C24).
  \<^item> \<open>Window_Tables\<close>: the rows \<open>on_list_books\<close> and \<open>on_list_users\<close> write
    (\<open>book_row\<close>, \<open>user_row\<close>) and whether they re-filter, Python's
    \<open>str.lower()\<close> on UTF-8 text (\<open>py_lower\<close>: ASCII and Latin-1 capitals), the
    substring test \<open>in\<close> (\<open>str_contains\<close>), and the filters \<open>filter_books_table\<close>
    and \<open>filter_users_table\<close> as the list of hidden flags they set from a list of
    rows (C30, C31).
  \<^item> \<open>Table_Sorting\<close>: a Qt table as rows of cells, each row with the flag
    \<open>setRowHidden\<close> set on it.  \<open>setRowCount\<close> (\<open>set_row_count\<close>), and
    \<open>setItem\<close> (\<open>set_item\<close>) under a sort state (\<open>sort_state\<close>): when sorting is
    enabled and the item goes into the sort column, the row moves to its sorted position
    (\<open>QTableModel::setItem\<close>: \<open>column_items\<close>, \<open>insertion_row\<close>, \<open>move_row\<close>)
    together with its hidden flag.  The fill loops of \<open>on_list_books\<close> and
    \<open>on_list_users\<close> (\<open>fill_row\<close>, \<open>fill_rows\<close>, \<open>qt_set_rows\<close>) and the loop of
    the filters over the cells the table holds (\<open>qt_filter\<close>).  A fill never hides a
    shown row; under the sorting \<open>tune_table\<close> enables, the first fill of any store
    whose ids ascend scrambles the rows (\<open>qt_fill_books\<close>).
  \<^item> \<open>Window_View\<close>: the window as the user sees it.  The record \<open>main_window\<close>
    holds the current tab, the two \<open>table_widget\<close>s (column count, headers, their
    Qt rows with the hidden flags, visibility, the \<open>table_style\<close> and the sort state
    \<open>tune_table\<close> sets), the two filter boxes (\<open>line_edit\<close>) and the captions of
    the list buttons.  Its operations are \<open>_tab_books\<close>, \<open>_tab_users\<close>, the
    refreshes \<open>view_list_books\<close> and \<open>view_list_users\<close> (\<open>fill_table\<close>, then
    \<open>filter_table\<close> when the filter box is visible and its text not blank), the list
    toggles, typing in a filter box (\<open>textChanged\<close>), and \<open>__init__\<close>.
    \<open>mw_step\<close> is one input event, accepted only from a widget of the current tab,
    and \<open>view_reachable\<close> the states \<open>main.py\<close>'s event loop can reach.  The
    first listing of the books table is scrambled (C17); the tables keep one row per
    record (C34); blank filters hide nothing (C16) and a refresh from another tab
    leaves a filter stale (C35).
  \<^item> \<open>Window_Geometry\<close>: Qt's \<open>QRect\<close> as the code uses it (first and last pixel,
    \<open>center()\<close>, \<open>moveCenter\<close>, \<open>topLeft\<close>), C++'s truncating division
    \<open>trunc_div\<close>, and \<open>MainWindow.center\<close> (C11).
  \<^item> \<open>Window_Gui\<close>: the whole window.  The record \<open>gui\<close> holds the view of
    \<open>Window_View\<close>, the text typed into the ten line edits of the forms
    (\<open>field\<close>), and the title, size, position and style sheet \<open>__init__\<close> sets
    (\<open>gui_init\<close>, \<open>window_title\<close>, \<open>app_stylesheet\<close>).  \<open>gui_step\<close> accepts
    typing into a field of the current tab, a click on a form button, which reads its
    form (\<open>button_action\<close>) and is the view's press of that action, and the other
    inputs of the view.  Every such state has a view the view model reaches (the lemma
    \<open>gui_refines_view\<close>), and the loan form reaches the store (C12).
  \<^item> this theory: the specification's scenarios A to C, undo depth and the undo
    history through the window (C28), the behaviours of the code that the
    specification rules out (C18 to C21, C29), then one witness per theorem with
    hypotheses.

  \<^bold>\<open>How the model follows the code.\<close>
  \<^item> Python lists of objects are HOL lists of records.  A lookup returns the first
    entry with the identifier (\<^const>\<open>List.find\<close>).  Writing to a field of the
    object it returned replaces that same entry (\<open>upd_first\<close>).
  \<^item> Every lookup is done on the store as it is at that point of the method.  So when
    the returning user is also the head of the queue, the model mutates one user
    twice, as Python does.
  \<^item> The undo stack is a list with its top at the end, as \<open>append\<close>/\<open>pop()\<close> use it.
    The deque is a list with its left end first.  \<open>list.remove\<close> is \<^const>\<open>remove1\<close>.
  \<^item> Python's truthiness is written out: \<open>if next_user_id:\<close> is false for \<open>None\<close>
    and for the empty string.  Copy counts are \<^typ>\<open>int\<close>, as Python's unbounded
    integers are.
  \<^item> Strings are byte strings: text outside ASCII is its UTF-8 encoding (\<open>utf8_2\<close>
    writes a two-byte character), as the sample data and the filters need.
  \<^item> Each message is a constructor carrying the values its f-string interpolates.  The
    Spanish wording is not modelled.
  \<^item> The branch \<open>"Operacion desconocida en pila"\<close> is dead: only the two kinds of
    entry are ever pushed, and \<open>undo_rec\<close> has exactly those two constructors.
  \<^item> Qt widgets are records of the properties the code sets and reads.  A widget on a
    tab that is not current is not visible: \<open>isVisible()\<close> is \<open>book_filter_shown\<close>
    and \<open>user_filter_shown\<close>, the box's own flag and the current tab.  Changing a
    box's text runs the connected filter, as \<open>textChanged\<close> does; \<open>clear()\<close> on an
    empty box does not emit it.
  \<^item> A table is what Qt holds, not what the code means to write: its rows are filled
    by \<open>setItem\<close> under the sort state, and the filters read the cells the table holds
    (a cell with no item matches nothing).  The vertical header keeps a row's hidden
    flag when the model moves the row; \<open>setRowCount\<close> keeps the first rows with their
    items and flags and appends empty shown rows.  Qt's behaviour is modelled from its
    documentation and implementation (\<open>QTableModel::setItem\<close>, \<open>columnItems\<close>, and
    the header's initial sort indicator on section 0, descending); it could not be run
    here.

  \<^bold>\<open>What is proved.\<close>
  \<^item> The invariant: copies on the shelf plus copies held equal the registered total, and
    availability stays between zero and the total when the total is not negative (C1,
    C2).  Identifiers stay unique (C15).  Queues and undo entries name only registered
    users and books, so the dropped-reservation branch of \<open>return_book\<close> and the
    not-found branch of undoing a return are dead (C13, C14).
  \<^item> Every branch of borrowing and returning, error paths included: a failure changes
    nothing (C3 to C6, C9, C10).
  \<^item> Undo restores the store after a borrow, and after a return whose promoted user
    has a non-empty identifier (C7, C8).
  \<^item> The scenarios of the specification (the lemmas \<open>scenario_a_promotes\<close>,
    \<open>scenario_b_undo_restores\<close>, \<open>scenario_c_queue_position\<close>).
  \<^item> The undo history: when every user id is non-empty, each entry of the stack can be
    undone in turn, back to the empty stack (C27), and through the window this always
    holds (C28).  A user with the empty id breaks it: whenever such a user heads the
    queue of a book a user returns, the failed undo of the promoted return drops its
    entry and the next undo, of the earlier borrow, fails too (C29).  Pressing undo
    until the stack is empty always stops, successful or not (C32).
  \<^item> Refinement: \<open>borrow_book\<close> implements the abstract borrow on every store,
    \<open>return_book\<close> the abstract return when user ids are distinct, registration the
    abstract registration, and \<open>undo_last\<close> the abstract inverse of the entry it
    pops.  So every run from an invariant store, undo included, refines the abstract
    machine that keeps the undo history (C25).  Without undo, users are served from a
    queue exactly in the order they queued, as the messages report it (C26); with
    undo they are not (C19, C20).  A user waiting at position k holds the book after
    k + 1 returns of it (C33).
  \<^item> Five behaviours the specification does not allow (C18 to C21, and the lemma
    \<open>undo_stack_multi_level\<close>):
    \<^item> the undo stack has unbounded depth;
    \<^item> a promoted user with the empty identifier makes undo fail and leaves the return
      in place (C18);
    \<^item> undoing a borrow puts a copy on the shelf without serving the queue, so any
      registered user who asks next overtakes it (C19);
    \<^item> a queue can hold a user twice (C20);
    \<^item> a negative copy count is accepted (C21).
  \<^item> The controller strips identifiers exactly once (C22); \<open>strip\<close> is Python's
    \<open>str.strip\<close> and every command keeps the store reachable (the lemmas
    \<open>strip_spec\<close> and \<open>ctl_keeps_reachable\<close>).
  \<^item> The window: \<open>py_int\<close> reads back every printed integer (the lemma
    \<open>py_int_int_str\<close>).  Every window
    state has a reachable store whose user ids are non-empty, so every queued id names
    a registered user with a non-empty id and the empty-id undo failure (C18) needs a
    caller other than the window (C24).  The activity log stays empty because nothing
    calls \<open>set_logger\<close> (C23).
  \<^item> The loan form reaches the store: typing a user and a book on the loans tab and
    clicking \<open>Prestar\<close> or \<open>Devolver\<close> borrows or returns exactly those stripped
    ids, and a blank field leaves the store alone (C12).
  \<^item> The filters: refining a filter never unhides a row (C30), and filtering by the
    text of any cell of a book's row never hides that row (C31).
  \<^item> Qt's filling of the tables: \<open>tune_table\<close> enables sorting before the tables are
    filled.  The sort-column item of a row then moves the row, and the loop writes the
    row's other cells into whatever row now has the old index.  Under the initial sort
    indicator, the first listing of any store whose ids ascend shows every book but
    the first as its id alone and the first book's id with the last book's data: the
    seeded books table shows B001 next to B002's title (C17).
  \<^item> The tables in every state of the window: one row per book and per user of the
    store, whatever rows the fills move (C34), and no hidden row while a filter box's
    text strips to nothing, whatever tab the refreshes came from (C16).  But a refresh
    made from the loans tab does not re-apply the users filter, and the refill moves
    rows with their hidden flags: the window can reach a state where a hidden row of
    the users table contains the filter text shown above it (C35).
  \<^item> The centring keeps a window no larger than the available area inside it when
    that area's centre has non-negative coordinates (C11).  The hypothesis is needed:
    with truncating division, a window as wide as an area left of the origin lands one
    pixel past its right edge (\<open>center_off_screen\<close>).

  \<^bold>\<open>Bounds and evaluation.\<close>  The only loops of the program are the linear scans
  and the fill and filter loops of the window, and they are structural recursion on
  finite lists; so is the digit loop of \<open>py_int\<close>.  The printer \<open>nat_str\<close> recurses
  on \<open>n div 10\<close>, whose measure \<^theory_text>\<open>fun\<close> finds itself.  \<open>undo_ok\<close> recurses
  on the undo stack, and its termination proof uses the stack length, which every
  \<open>undo_last\<close> on a non-empty stack shortens by one; the same measure shows that the
  \<open>while_option\<close> loop \<open>undo_all\<close> returns \<open>Some\<close>.  No fuel is needed.  Screen
  coordinates are \<^typ>\<open>int\<close>: Qt keeps them in 32-bit \<open>int\<close> and adds them in 64
  bits in \<open>center()\<close>, and the coordinates of real screens stay far below \<open>2^31\<close>,
  so no wrap-around is modelled; the division is C++'s, which truncates.  Every
  definition is executable.  The scenarios and witnesses are evaluated by \<open>simp\<close> on
  runs of at most ten commands or window events; the stale-filter run of C35 is
  evaluated by \<open>code_simp\<close>.

  \<^bold>\<open>Not modelled.\<close>
  \<^item> Keyboard focus (\<open>setFocus\<close>) and the layouts: they decide where widgets are
    drawn, not what the program stores or which rows it shows.  What Qt draws with
    the style sheet is not modelled either; the window only holds the string.
  \<^item> Sorting by a click on a table header, which changes the sort indicator and
    re-sorts the rows: the tables keep the indicator \<open>tune_table\<close> leaves.
  \<^item> The activity list is the controller's \<open>log\<close>: \<open>_log\<close> is
    \<open>log_item\<close>, which only \<open>set_logger\<close> would install, and nothing calls it
    (C23).
  \<^item> \<open>str.lower()\<close> beyond ASCII and Latin-1 capitals.
  \<^item> \<open>int()\<close> on non-ASCII digits, and bases other than 10.
  \<^item> \<open>models/__init__.py\<close>, which imports a module \<open>library_models\<close> that the
    sources do not contain.
  \<^item> Non-ASCII whitespace in \<open>str.strip\<close>.

  \<^bold>\<open>Further work.\<close>
  \<^item> A bound on how far undo can reorder a queue (C19 and C20 show that it can).
  \<^item> The rows of a refill over a non-empty table: which records a sorted refill shows
    after the store changes (C17 covers the first fill).
\<close>

section \<open>Concrete stores and runs\<close>

definition quijote :: book where
  "quijote = mk_book ''B1'' ''El Quijote'' ''Cervantes'' 1605 1"

definition quijote_out :: book where
  "quijote_out = quijote\<lparr>copies_available := 0\<rparr>"

definition ana :: user where "ana = mk_user ''U1'' ''Ana'' ''ana@example.com''"

definition ana_holding :: user where
  "ana_holding = mk_user ''U1'' ''Ana'' ''ana@example.com''\<lparr>borrowed := [''B1'']\<rparr>"

definition luis :: user where "luis = mk_user ''U2'' ''Luis'' ''luis@example.com''"

definition reg_events :: "event list" where
  "reg_events =
     [AddBook ''B1'' ''El Quijote'' ''Cervantes'' 1605 1,
      AddUser ''U1'' ''Ana'' ''ana@example.com'', AddUser ''U2'' ''Luis'' ''luis@example.com'']"

definition scenario_a :: "event list" where
  "scenario_a = reg_events @ [Borrow ''U1'' ''B1'', Borrow ''U2'' ''B1'', Return ''U1'' ''B1'']"

definition scenario_c :: "event list" where
  "scenario_c =
     [AddBook ''B1'' ''El Quijote'' ''Cervantes'' 1605 2,
      AddUser ''U1'' ''Ana'' ''ana@example.com'', AddUser ''U2'' ''Luis'' ''luis@example.com'',
      AddUser ''U3'' ''Eva'' ''eva@example.com'',
      Borrow ''U1'' ''B1'', Borrow ''U2'' ''B1'', Borrow ''U3'' ''B1'']"

definition open_store :: library_store where
  "open_store = snd (run empty_store reg_events)"

definition lent_store :: library_store where
  "lent_store = snd (run empty_store (reg_events @ [Borrow ''U1'' ''B1'']))"

definition queued_store :: library_store where
  "queued_store = snd (run empty_store (reg_events @ [Borrow ''U1'' ''B1'', Borrow ''U2'' ''B1'']))"

definition orphan_store :: library_store where
  "orphan_store =
     \<lparr>books = [quijote\<lparr>copies_available := 0, reservations := [''U9'']\<rparr>],
      users = [ana\<lparr>borrowed := [''B1'']\<rparr>], undo_stack = []\<rparr>"

definition empty_id_store :: library_store where
  "empty_id_store = snd (run empty_store (reg_events @
     [AddUser '''' ''Eva'' ''eva@example.com'', Borrow ''U1'' ''B1'', Borrow '''' ''B1'']))"

definition duplicate_events :: "event list" where
  "duplicate_events = reg_events @
     [Borrow ''U1'' ''B1'', Borrow ''U2'' ''B1'', Return ''U1'' ''B1'', Borrow ''U2'' ''B1'', Undo]"

definition two_loans_events :: "event list" where
  "two_loans_events =
     [AddBook ''B1'' ''El Quijote'' ''Cervantes'' 1605 2, AddUser ''U1'' ''Ana'' ''ana@example.com'',
      Borrow ''U1'' ''B1'', Borrow ''U1'' ''B1'', Undo, Undo, Undo]"

definition window_queue_demo :: library_controller where
  "window_queue_demo =
     snd (window_step (snd (window_step (window_init new_controller) (BorrowForm ''U001'' ''B002'')))
       (BorrowForm '' U002 '' ''B002''))"

lemmas scenario_eval = store_eval run.simps quijote_def quijote_out_def ana_def ana_holding_def luis_def
  reg_events_def

lemma open_store_eq:
  "open_store = \<lparr>books = [quijote], users = [ana, luis], undo_stack = []\<rparr>"
  by (simp add: open_store_def scenario_eval)

lemma lent_store_eq:
  "lent_store = \<lparr>books = [quijote_out], users = [ana_holding, luis], undo_stack = [OpBorrow ''U1'' ''B1'']\<rparr>"
  by (simp add: lent_store_def scenario_eval)

lemma queued_store_eq:
  "queued_store = \<lparr>books = [quijote_out\<lparr>reservations := [''U2'']\<rparr>],
                   users = [ana_holding, luis], undo_stack = [OpBorrow ''U1'' ''B1'']\<rparr>"
  by (simp add: queued_store_def scenario_eval)

lemma empty_id_store_eq:
  "empty_id_store = \<lparr>books = [quijote_out\<lparr>reservations := ['''']\<rparr>],
      users = [ana_holding, luis, mk_user '''' ''Eva'' ''eva@example.com''],
      undo_stack = [OpBorrow ''U1'' ''B1'']\<rparr>"
  by (simp add: empty_id_store_def scenario_eval)

lemma reachable_demo_stores:
  "reachable lent_store" "reachable queued_store"
  unfolding lent_store_def queued_store_def by (rule reachable_run_empty)+

lemmas demo_lookup = open_store_eq lent_store_eq queued_store_eq empty_id_store_eq find_user_def find_book_def
  quijote_def quijote_out_def ana_def ana_holding_def luis_def

lemma window_queue_demo_reachable: "window_reachable window_queue_demo"
  unfolding window_queue_demo_def by (intro window_reachable.press window_reachable.start)

lemma window_queue_demo_book:
  "\<exists>b. find_book (store window_queue_demo) ''B002'' = Some b \<and> reservations b = [''U002'']"
  by (simp add: window_queue_demo_def window_init_def seed_sample_data_def new_controller_def
      make_controller_def window_handlers Let_def ctl_borrow_def store_eval utf8_2_def strip_def py_space_def)

section \<open>The specification's scenarios\<close>

text \<open>Scenario A.  With one copy of B1, U1 borrows it, U2 is queued at position 1, and when U1 returns it U2 is promoted: U2 holds B1 and no copy is left.\<close>

theorem scenario_a_promotes:
  "run empty_store scenario_a =
     ([BookAdded ''El Quijote'', UserAdded ''Ana'', UserAdded ''Luis'', Lent ''El Quijote'' ''Ana'' 0,
       Queued ''Luis'' ''El Quijote'' 1, Returned ''El Quijote'' (AutoAssigned ''Luis'') 0],
      \<lparr>books = [quijote_out], users = [ana, luis\<lparr>borrowed := [''B1'']\<rparr>],
       undo_stack = [OpBorrow ''U1'' ''B1'', OpReturn ''U1'' ''B1'' (Some ''U2'')]\<rparr>)"
  by (simp add: scenario_a_def scenario_eval)

text \<open>Scenario B.  Undoing that return takes the copy back from U2, puts U2 back at the front of the queue and gives the copy back to U1: U1 holds B1, no copy is left and the queue is [U2].\<close>

theorem scenario_b_undo_restores:
  "run empty_store (scenario_a @ [Undo]) =
     ([BookAdded ''El Quijote'', UserAdded ''Ana'', UserAdded ''Luis'', Lent ''El Quijote'' ''Ana'' 0,
       Queued ''Luis'' ''El Quijote'' 1, Returned ''El Quijote'' (AutoAssigned ''Luis'') 0,
       UndoneReturn ''El Quijote'' ''Ana''],
      \<lparr>books = [quijote_out\<lparr>reservations := [''U2'']\<rparr>],
       users = [ana_holding, luis], undo_stack = [OpBorrow ''U1'' ''B1'']\<rparr>)"
  by (simp add: scenario_a_def scenario_eval)

text \<open>Scenario C.  With two copies, the third borrower is queued at position 1: the position counts the queue, not the holders.\<close>

theorem scenario_c_queue_position:
  "last (fst (run empty_store scenario_c)) = Queued ''Eva'' ''El Quijote'' 1"
  by (simp add: scenario_c_def scenario_eval)

section \<open>Undo depth\<close>

text \<open>starting from an empty undo stack, after one successful borrow the first undo succeeds and the second reports that there is nothing to undo.\<close>

theorem undo_twice_after_single_borrow:
  assumes "undo_stack s = []" "find_user s uid = Some u" "find_book s bid = Some b" "0 < copies_available b"
  shows "fst (undo_last (snd (borrow_book s uid bid))) = UndoneBorrow (title b) (name u)
       \<and> fst (undo_last (snd (undo_last (snd (borrow_book s uid bid))))) = NothingToUndo"
proof -
  have st: "undo_stack (snd (borrow_book s uid bid)) = [OpBorrow uid bid]"
    using assms by (simp add: borrow_book_def)
  then have "undo_stack (snd (undo_last (snd (borrow_book s uid bid)))) = []"
    by (simp add: undo_last_stack)
  then have "fst (undo_last (snd (undo_last (snd (borrow_book s uid bid))))) = NothingToUndo"
    by (simp add: undo_last_empty)
  moreover have "fst (undo_last (snd (borrow_book s uid bid))) = UndoneBorrow (title b) (name u)"
    using assms st find_book_Some_id[OF assms(3)] by (simp add: borrow_book_def undo_last_def)
  ultimately show ?thesis by simp
qed

text \<open>The undo stack is not one level deep: it keeps every entry, so two borrows are undone by two successive undos, and only the third undo finds the stack empty.\<close>

theorem undo_stack_multi_level:
  "fst (run empty_store two_loans_events) =
     [BookAdded ''El Quijote'', UserAdded ''Ana'', Lent ''El Quijote'' ''Ana'' 1, Lent ''El Quijote'' ''Ana'' 0,
      UndoneBorrow ''El Quijote'' ''Ana'', UndoneBorrow ''El Quijote'' ''Ana'', NothingToUndo]"
  by (simp add: two_loans_events_def scenario_eval)

text \<open>C28: through the window the undo history is always consistent: in every state the window can reach, undoing repeatedly succeeds at every step until the stack is empty.\<close>

theorem window_undo_ok:
  "window_reachable c \<Longrightarrow> undo_ok (store c)"
proof (induction rule: window_reachable.induct)
  case start
  have "undo_stack (store (window_init new_controller)) = []"
    by (simp add: window_init_def seed_sample_data_def new_controller_def make_controller_def store_eval)
  then show ?case by (simp add: undo_ok.simps)
next
  case (press c a)
  have r: "reachable (store c)" and named: "\<forall>u\<in>set (users (store c)). us_id u \<noteq> []"
    using window_reachable_store[OF press.hyps] by blast+
  from window_step_cases[of c a] show ?case
  proof
    assume "snd (window_step c a) = c"
    then show ?thesis using press.IH by simp
  next
    assume "\<exists>ev. snd (window_step c a) = ctl_forward c (step (store c) ev) \<and> (\<forall>i n e. ev = AddUser i n e \<longrightarrow> i \<noteq> [])"
    then obtain ev where ev: "snd (window_step c a) = ctl_forward c (step (store c) ev)" by blast
    show ?thesis unfolding ev using step_undo_ok[OF reachable_inv[OF r] press.IH named] by simp
  qed
qed

section \<open>What the code does that the specification rules out\<close>

text \<open>C18: \<open>undo_last\<close> tests \<open>if next_user_id:\<close>, and the empty string is false in Python.  When a return has promoted a user whose identifier is the empty string and no copy is on the shelf, undoing it reports that no copy is available and leaves every effect of the return in place (the returning user no longer holds the book, the promoted user does), while the undo entry is gone.\<close>

theorem undo_after_empty_id_promotion:
  assumes "find_user s uid = Some u" "find_book s bid = Some b" "bid \<in> set (borrowed u)"
    and "reservations b = '''' # rest" "find_user s '''' = Some v" "copies_available b = 0"
  shows "undo_last (snd (return_book s uid bid)) =
           (UndoNoCopy, (snd (return_book s uid bid))\<lparr>undo_stack := undo_stack s\<rparr>)"
proof -
  have bid: "bk_id b = bid" using find_book_Some_id[OF assms(2)] by simp
  have "'''' = uid \<Longrightarrow> v = u" using assms(1,5) by simp
  then show ?thesis using assms bid
    by (auto simp: return_book_def undo_last_def reclaim_autoloan_def Let_def)
qed

text \<open>C19: undoing a borrow puts a copy back on the shelf without serving the reservation queue.  Whenever the last entry of the undo stack is a borrow the user still holds, of a book whose queue is not empty, undoing it leaves the queue as it was with a copy on the shelf, and the next registered user who asks for the book, queued or not, is lent it ahead of the users waiting.\<close>

theorem undo_borrow_jumps_queue:
  assumes "undo_stack s = st @ [OpBorrow uid bid]" "find_user s uid = Some u" "bid \<in> set (borrowed u)"
    and "find_book s bid = Some b" "reservations b \<noteq> []" "0 \<le> copies_available b" "find_user s vid = Some v"
  shows "\<exists>b'. find_book (snd (undo_last s)) bid = Some b' \<and> reservations b' = reservations b
     \<and> 0 < copies_available b'
     \<and> fst (borrow_book (snd (undo_last s)) vid bid) = Lent (title b) (name v) (copies_available b)"
proof -
  have bk: "bk_id b = bid" using find_book_Some_id[OF assms(4)] by simp
  let ?s = "update_book bid (\<lambda>b. b\<lparr>copies_available := copies_available b + 1\<rparr>)
              (update_user uid (\<lambda>u. u\<lparr>borrowed := remove1 bid (borrowed u)\<rparr>) (s\<lparr>undo_stack := st\<rparr>))"
  have s: "snd (undo_last s) = ?s" using assms(1-4) bk by (simp add: undo_last_def)
  have fb: "find_book ?s bid = Some (b\<lparr>copies_available := copies_available b + 1\<rparr>)" using assms(4) by simp
  obtain v' where "find_user ?s vid = Some v'" "name v' = name v"
    using assms(2,7) by (cases "vid = uid") auto
  then show ?thesis unfolding s using fb assms(4,6) by (simp add: borrow_book_def)
qed

text \<open>C20: a reservation queue can hold the same user twice: a promoted user queues again for the book, and undoing the promotion puts them back at the front.\<close>

theorem reservation_queue_duplicates:
  "\<exists>s b. reachable s \<and> b \<in> set (books s) \<and> reservations b = [''U2'', ''U2'']"
proof -
  have "books (snd (run empty_store duplicate_events)) = [quijote_out\<lparr>reservations := [''U2'', ''U2'']\<rparr>]"
    by (simp add: duplicate_events_def scenario_eval)
  then show ?thesis using reachable_run_empty[of duplicate_events] by auto
qed

text \<open>C21: the store accepts a negative number of copies, and the book then has fewer than zero copies available.\<close>

theorem negative_copies_reachable:
  "\<exists>s b. reachable s \<and> b \<in> set (books s) \<and> copies_available b < 0"
proof -
  have "books (snd (run empty_store [AddBook ''B9'' ''T'' ''A'' 2000 (-1)])) = [mk_book ''B9'' ''T'' ''A'' 2000 (-1)]"
    by (simp add: scenario_eval)
  then show ?thesis using reachable_run_empty[of "[AddBook ''B9'' ''T'' ''A'' 2000 (-1)]"]
    by (auto simp: mk_book_def)
qed

text \<open>C29: the empty-identifier failure breaks the undo history.  When the last entry of the undo stack is the borrow of a book by a user holding one copy of it, the book has no copy on the shelf and its queue starts with a registered user whose identifier is the empty string, then after the user returns the book the first undo reports no copy (and drops the return's entry), the second undo, of the original borrow, fails because the book is no longer held, and the history is no longer one that undoes to the end.\<close>

theorem empty_id_breaks_undo_history:
  assumes "undo_stack s = st @ [OpBorrow uid bid]" "find_user s uid = Some u" "bid \<in> set (borrowed u)"
    and "bid \<notin> set (remove1 bid (borrowed u))" "uid \<noteq> []"
    and "find_book s bid = Some b" "reservations b = '''' # rest" "find_user s '''' = Some e" "copies_available b = 0"
  shows "fst (undo_last (snd (return_book s uid bid))) = UndoNoCopy
    \<and> fst (undo_last (snd (undo_last (snd (return_book s uid bid))))) = UndoBorrowFailed
    \<and> \<not> undo_ok (snd (return_book s uid bid))"
proof -
  have bk: "bk_id b = bid" using find_book_Some_id[OF assms(6)] by simp
  have e: "'''' \<noteq> uid" using assms(5) by simp
  have u1: "undo_last (snd (return_book s uid bid)) = (UndoNoCopy, (snd (return_book s uid bid))\<lparr>undo_stack := undo_stack s\<rparr>)"
    using assms bk e by (simp add: return_book_def undo_last_def reclaim_autoloan_def Let_def push_undo_def butlast_append)
  have u2: "fst (undo_last ((snd (return_book s uid bid))\<lparr>undo_stack := undo_stack s\<rparr>)) = UndoBorrowFailed"
    using assms bk e by (simp add: return_book_def undo_last_def Let_def)
  have "undo_stack (snd (return_book s uid bid)) \<noteq> []"
    using assms bk e by (simp add: return_book_def Let_def)
  then have "\<not> undo_ok (snd (return_book s uid bid))"
    using u1 by (simp add: undo_ok.simps[of "snd (return_book s uid bid)"] undo_success_def)
  then show ?thesis using u1 u2 by simp
qed

section \<open>Witnesses\<close>

text \<open>Each theorem with hypotheses, applied to a concrete store where they hold.\<close>

theorem reachable_copies_bounds_witness:
  "reachable lent_store \<and> quijote_out \<in> set (books lent_store) \<and> 0 \<le> copies_total quijote_out
   \<and> 0 \<le> copies_available quijote_out \<and> copies_available quijote_out \<le> copies_total quijote_out"
proof -
  have h: "quijote_out \<in> set (books lent_store)" "0 \<le> copies_total quijote_out"
    by (simp_all add: demo_lookup)
  show ?thesis using h reachable_demo_stores(1) reachable_copies_bounds[OF reachable_demo_stores(1) h] by blast
qed

theorem reachable_copies_ledger_witness:
  "reachable lent_store \<and> quijote_out \<in> set (books lent_store)
   \<and> copies_available quijote_out + int (held lent_store (bk_id quijote_out)) = copies_total quijote_out"
proof -
  have h: "quijote_out \<in> set (books lent_store)" by (simp add: lent_store_eq)
  show ?thesis using h reachable_demo_stores(1) reachable_copies_ledger[OF reachable_demo_stores(1) h] by blast
qed

theorem reachable_ids_distinct_witness:
  "reachable queued_store \<and> distinct (map bk_id (books queued_store)) \<and> distinct (map us_id (users queued_store))"
  using reachable_demo_stores(2) reachable_ids_distinct[OF reachable_demo_stores(2)] by blast

theorem reachable_return_never_drops_witness:
  "reachable queued_store \<and> (\<forall>t a. fst (return_book queued_store ''U1'' ''B1'') \<noteq> Returned t NextGone a)"
  using reachable_demo_stores(2) reachable_return_never_drops[OF reachable_demo_stores(2)] by blast

theorem reachable_undo_return_resolves_witness:
  "reachable lent_store \<and> fst (undo_last lent_store) \<noteq> UndoReturnFailed"
  using reachable_demo_stores(1) reachable_undo_return_resolves[OF reachable_demo_stores(1)] by blast

theorem borrow_book_available_witness:
  "find_user open_store ''U1'' = Some ana \<and> find_book open_store ''B1'' = Some quijote
   \<and> 0 < copies_available quijote
   \<and> fst (borrow_book open_store ''U1'' ''B1'') = Lent (title quijote) (name ana) (copies_available quijote - 1)"
proof -
  have h: "find_user open_store ''U1'' = Some ana" "find_book open_store ''B1'' = Some quijote"
      "0 < copies_available quijote"
    by (simp_all add: demo_lookup)
  show ?thesis using h conjunct1[OF borrow_book_available[OF h]] by blast
qed

theorem borrow_book_unavailable_witness:
  "find_user lent_store ''U2'' = Some luis \<and> find_book lent_store ''B1'' = Some quijote_out
   \<and> \<not> 0 < copies_available quijote_out
   \<and> fst (borrow_book lent_store ''U2'' ''B1'') =
       (if ''U2'' \<in> set (reservations quijote_out) then AlreadyQueued (name luis) (title quijote_out)
        else Queued (name luis) (title quijote_out) (Suc (length (reservations quijote_out))))"
proof -
  have h: "find_user lent_store ''U2'' = Some luis" "find_book lent_store ''B1'' = Some quijote_out"
      "\<not> 0 < copies_available quijote_out"
    by (simp_all add: demo_lookup)
  show ?thesis using h conjunct1[OF borrow_book_unavailable[OF h]] by blast
qed

theorem return_book_no_reservation_witness:
  "find_user lent_store ''U1'' = Some ana_holding \<and> find_book lent_store ''B1'' = Some quijote_out
   \<and> ''B1'' \<in> set (borrowed ana_holding) \<and> reservations quijote_out = []
   \<and> fst (return_book lent_store ''U1'' ''B1'') =
       Returned (title quijote_out) NoReservation (copies_available quijote_out + 1)"
proof -
  have h: "find_user lent_store ''U1'' = Some ana_holding" "find_book lent_store ''B1'' = Some quijote_out"
      "''B1'' \<in> set (borrowed ana_holding)" "reservations quijote_out = []"
    by (simp_all add: demo_lookup)
  show ?thesis using h conjunct1[OF return_book_no_reservation[OF h]] by blast
qed

theorem return_book_promotes_witness:
  "find_user queued_store ''U1'' = Some ana_holding
   \<and> find_book queued_store ''B1'' = Some (quijote_out\<lparr>reservations := [''U2'']\<rparr>)
   \<and> ''B1'' \<in> set (borrowed ana_holding) \<and> find_user queued_store ''U2'' = Some luis
   \<and> fst (return_book queued_store ''U1'' ''B1'') =
       Returned (title quijote_out) (AutoAssigned (name luis)) (copies_available quijote_out)"
proof -
  have h: "find_user queued_store ''U1'' = Some ana_holding"
      "find_book queued_store ''B1'' = Some (quijote_out\<lparr>reservations := [''U2'']\<rparr>)"
      "''B1'' \<in> set (borrowed ana_holding)" "reservations (quijote_out\<lparr>reservations := [''U2'']\<rparr>) = ''U2'' # []"
      "find_user queued_store ''U2'' = Some luis"
    by (simp_all add: demo_lookup)
  show ?thesis using h conjunct1[OF return_book_promotes[OF h]] by simp
qed

theorem return_book_next_gone_witness:
  "find_user orphan_store ''U1'' = Some ana_holding
   \<and> find_book orphan_store ''B1'' = Some (quijote_out\<lparr>reservations := [''U9'']\<rparr>)
   \<and> ''B1'' \<in> set (borrowed ana_holding) \<and> find_user orphan_store ''U9'' = None
   \<and> fst (return_book orphan_store ''U1'' ''B1'') = Returned (title quijote_out) NextGone (copies_available quijote_out + 1)"
proof -
  have h: "find_user orphan_store ''U1'' = Some ana_holding"
      "find_book orphan_store ''B1'' = Some (quijote_out\<lparr>reservations := [''U9'']\<rparr>)"
      "''B1'' \<in> set (borrowed ana_holding)" "reservations (quijote_out\<lparr>reservations := [''U9'']\<rparr>) = ''U9'' # []"
      "find_user orphan_store ''U9'' = None"
    by (simp_all add: orphan_store_def demo_lookup)
  show ?thesis using h conjunct1[OF return_book_next_gone[OF h]] by simp
qed

theorem undo_return_roundtrip_witness:
  "fst (undo_last (snd (return_book queued_store ''U1'' ''B1''))) = UndoneReturn ''El Quijote'' ''Ana''
   \<and> store_view (snd (undo_last (snd (return_book queued_store ''U1'' ''B1'')))) = store_view queued_store"
proof -
  have h: "find_user queued_store ''U1'' = Some ana_holding"
      "find_book queued_store ''B1'' = Some (quijote_out\<lparr>reservations := [''U2'']\<rparr>)"
      "''B1'' \<in> set (borrowed ana_holding)" "0 \<le> copies_available (quijote_out\<lparr>reservations := [''U2'']\<rparr>)"
      "\<forall>nu rest. reservations (quijote_out\<lparr>reservations := [''U2'']\<rparr>) = nu # rest
          \<longrightarrow> nu \<noteq> [] \<and> find_user queued_store nu \<noteq> None"
    by (simp_all add: demo_lookup)
  have t: "title (quijote_out\<lparr>reservations := [''U2'']\<rparr>) = ''El Quijote''" "name ana_holding = ''Ana''"
    by (simp_all add: demo_lookup)
  show ?thesis using undo_return_roundtrip[OF h] t by simp
qed

theorem undo_borrow_roundtrip_witness:
  "fst (undo_last (snd (borrow_book open_store ''U1'' ''B1''))) = UndoneBorrow ''El Quijote'' ''Ana''
   \<and> store_view (snd (undo_last (snd (borrow_book open_store ''U1'' ''B1'')))) = store_view open_store"
proof -
  have h: "find_user open_store ''U1'' = Some ana" "find_book open_store ''B1'' = Some quijote"
      "0 < copies_available quijote"
    by (simp_all add: demo_lookup)
  have t: "title quijote = ''El Quijote''" "name ana = ''Ana''" by (simp_all add: demo_lookup)
  show ?thesis using undo_borrow_roundtrip[OF h] t by simp
qed

theorem lending_lookup_failure_witness:
  "(find_user open_store ''U7'' = None \<or> find_book open_store ''B1'' = None)
   \<and> borrow_book open_store ''U7'' ''B1'' = return_book open_store ''U7'' ''B1''
   \<and> snd (borrow_book open_store ''U7'' ''B1'') = open_store"
proof -
  have h: "find_user open_store ''U7'' = None \<or> find_book open_store ''B1'' = None"
    by (simp add: demo_lookup)
  show ?thesis using h lending_lookup_failure[OF h] by blast
qed

theorem return_book_not_borrowed_witness:
  "find_user open_store ''U2'' = Some luis \<and> find_book open_store ''B1'' = Some quijote
   \<and> ''B1'' \<notin> set (borrowed luis)
   \<and> return_book open_store ''U2'' ''B1'' = (NotBorrowed (name luis) (title quijote), open_store)"
proof -
  have h: "find_user open_store ''U2'' = Some luis" "find_book open_store ''B1'' = Some quijote"
      "''B1'' \<notin> set (borrowed luis)"
    by (simp_all add: demo_lookup)
  show ?thesis using h return_book_not_borrowed[OF h] by blast
qed

theorem undo_twice_after_single_borrow_witness:
  "undo_stack open_store = [] \<and> find_user open_store ''U1'' = Some ana \<and> find_book open_store ''B1'' = Some quijote
   \<and> 0 < copies_available quijote
   \<and> fst (undo_last (snd (undo_last (snd (borrow_book open_store ''U1'' ''B1''))))) = NothingToUndo"
proof -
  have h: "undo_stack open_store = []" "find_user open_store ''U1'' = Some ana"
      "find_book open_store ''B1'' = Some quijote" "0 < copies_available quijote"
    by (simp_all add: demo_lookup)
  show ?thesis using h conjunct2[OF undo_twice_after_single_borrow[OF h]] by blast
qed

theorem undo_after_empty_id_promotion_witness:
  "fst (undo_last (snd (return_book empty_id_store ''U1'' ''B1''))) = UndoNoCopy
   \<and> find_user (snd (undo_last (snd (return_book empty_id_store ''U1'' ''B1'')))) '''' =
       Some (mk_user '''' ''Eva'' ''eva@example.com''\<lparr>borrowed := [''B1'']\<rparr>)"
proof -
  have h: "find_user empty_id_store ''U1'' = Some ana_holding"
      "find_book empty_id_store ''B1'' = Some (quijote_out\<lparr>reservations := ['''']\<rparr>)"
      "''B1'' \<in> set (borrowed ana_holding)" "reservations (quijote_out\<lparr>reservations := ['''']\<rparr>) = '''' # []"
      "find_user empty_id_store '''' = Some (mk_user '''' ''Eva'' ''eva@example.com'')"
      "copies_available (quijote_out\<lparr>reservations := ['''']\<rparr>) = 0"
    by (simp_all add: demo_lookup)
  have r: "find_user (snd (return_book empty_id_store ''U1'' ''B1'')) '''' =
      Some (mk_user '''' ''Eva'' ''eva@example.com''\<lparr>borrowed := [''B1'']\<rparr>)"
    by (simp add: empty_id_store_eq return_book_def demo_lookup update_book_def update_user_def
        push_undo_def mk_user_def)
  show ?thesis using undo_after_empty_id_promotion[OF h] r by simp
qed

theorem window_log_silent_witness:
  "logger window_queue_demo = NoLogger \<and> log window_queue_demo = []"
  using window_log_silent[OF window_queue_demo_reachable] .

theorem window_queue_registered_witness:
  "''U002'' \<noteq> [] \<and> find_user (store window_queue_demo) ''U002'' \<noteq> None"
proof -
  obtain b where b: "find_book (store window_queue_demo) ''B002'' = Some b" "reservations b = [''U002'']"
    using window_queue_demo_book by blast
  show ?thesis using window_queue_registered[OF window_queue_demo_reachable b(1)] b(2) by simp
qed


theorem run_refines_witness:
  "abs_store (snd (run empty_store scenario_a)) = foldl abs_step (abs_store empty_store) scenario_a"
  by (rule run_refines[OF empty_store_inv]) (simp add: scenario_a_def reg_events_def)

theorem step_queue_fifo_witness:
  "reservations (quijote_out\<lparr>reservations := [''U2'']\<rparr>) = reservations quijote_out @ [''U2'']"
proof -
  have inv: "store_inv lent_store" by (rule reachable_inv[OF reachable_demo_stores(1)])
  have b0: "find_book lent_store ''B1'' = Some quijote_out" by (simp add: demo_lookup)
  have b1: "find_book (snd (step lent_store (Borrow ''U2'' ''B1''))) ''B1'' =
      Some (quijote_out\<lparr>reservations := [''U2'']\<rparr>)"
    by (simp add: demo_lookup borrow_book_def update_book_def)
  show ?thesis using step_queue_fifo[OF inv _ b0 b1] by (simp add: quijote_out_def quijote_def)
qed

theorem reachable_undo_ok_witness:
  "undo_ok (snd (run empty_store scenario_a))"
proof (rule reachable_undo_ok)
  show "reachable (snd (run empty_store scenario_a))" by (rule reachable_run_empty)
  show "\<forall>u\<in>set (users (snd (run empty_store scenario_a))). us_id u \<noteq> []"
    by (simp add: scenario_a_def scenario_eval)
qed

theorem window_undo_ok_witness:
  "undo_ok (store window_queue_demo)"
  by (rule window_undo_ok[OF window_queue_demo_reachable])

theorem filter_refine_witness:
  "filter_books_table '' Quijote '' [[''B001'', ''El Quijote''], [''B002'', ''Cien'']] ! 1"
proof (rule filter_refine)
  show "str_contains (py_lower (strip ''quij'')) (py_lower (strip '' Quijote ''))"
    by (simp add: strip_def py_space_def lower_char_def latin1_upper_def char_of_def bit_simps)
  show "1 < length [[''B001'', ''El Quijote''], [''B002'', ''Cien'']]" by simp
  show "filter_books_table ''quij'' [[''B001'', ''El Quijote''], [''B002'', ''Cien'']] ! 1"
    by (simp add: filter_books_table_def strip_def py_space_def lower_char_def latin1_upper_def)
qed


theorem queue_served_witness:
  "store_inv queued_store \<and> find_book queued_store ''B1'' = Some (quijote_out\<lparr>reservations := [''U2'']\<rparr>)
   \<and> returns_ok queued_store ''B1'' [''U1'']
   \<and> holds (snd (run queued_store [Return ''U1'' ''B1''])) ''U2'' ''B1''"
proof -
  have inv: "store_inv queued_store" by (rule reachable_inv[OF reachable_demo_stores(2)])
  have fb: "find_book queued_store ''B1'' = Some (quijote_out\<lparr>reservations := [''U2'']\<rparr>)"
    by (simp add: demo_lookup)
  have k: "0 < length (reservations (quijote_out\<lparr>reservations := [''U2'']\<rparr>))" by simp
  have ok: "returns_ok queued_store ''B1'' [''U1'']"
    by (simp add: holds_def demo_lookup ana_holding_def)
  show ?thesis using inv fb ok queue_served[OF inv fb k ok] by simp
qed

theorem view_one_row_per_record_witness:
  "length (tw_table (table_books (mw_step (mw_init new_controller) (SelectTab 1))))
     = length (get_books (mw_controller (mw_step (mw_init new_controller) (SelectTab 1))))
   \<and> length (tw_table (table_users (mw_step (mw_init new_controller) (SelectTab 1))))
     = length (get_users (mw_controller (mw_step (mw_init new_controller) (SelectTab 1))))
   \<and> window_reachable (mw_controller (mw_step (mw_init new_controller) (SelectTab 1)))"
  by (rule view_one_row_per_record[OF view_reachable.act[OF view_reachable.start]])

theorem queue_fifo_run_witness:
  "\<exists>bk'. find_book (snd (run queued_store [Return ''U1'' ''B1''])) ''B1'' = Some bk'
     \<and> served_names ''B1'' queued_store [Return ''U1'' ''B1'']
         @ map (user_name (snd (run queued_store [Return ''U1'' ''B1'']))) (reservations bk')
       = [''Luis''] @ queued_names ''B1'' queued_store [Return ''U1'' ''B1'']"
proof -
  have inv: "store_inv queued_store" by (rule reachable_inv[OF reachable_demo_stores(2)])
  have fb: "find_book queued_store ''B1'' = Some (quijote_out\<lparr>reservations := [''U2'']\<rparr>)"
    by (simp add: demo_lookup)
  have n: "map (user_name queued_store) [''U2''] = [''Luis'']"
    by (simp add: user_name_def demo_lookup luis_def mk_user_def)
  show ?thesis using queue_fifo_run[OF inv _ fb, of "[Return ''U1'' ''B1'']"] n by simp
qed

theorem run_refines_history_witness:
  "(abs_store (snd (run queued_store [Return ''U1'' ''B1'', Undo])),
    undo_stack (snd (run queued_store [Return ''U1'' ''B1'', Undo])))
   = foldl abs_step_h (abs_store queued_store, undo_stack queued_store) [Return ''U1'' ''B1'', Undo]"
  by (rule run_refines_history[OF reachable_inv[OF reachable_demo_stores(2)]])

theorem center_within_screen_witness:
  "rect_inside (qrect (fst (center (qrect 0 0 900 560) (qrect 0 0 1920 1040)))
     (snd (center (qrect 0 0 900 560) (qrect 0 0 1920 1040))) 900 560) (qrect 0 0 1920 1040)"
proof -
  have "rect_inside (qrect (fst (center (qrect 0 0 900 560) (qrect 0 0 1920 1040)))
     (snd (center (qrect 0 0 900 560) (qrect 0 0 1920 1040))) (rect_width (qrect 0 0 900 560))
     (rect_height (qrect 0 0 900 560))) (qrect 0 0 1920 1040)"
    by (rule center_within_screen) (simp_all add: qrect_def rect_width_def rect_height_def)
  then show ?thesis by (simp add: rect_width_def rect_height_def qrect_def)
qed

theorem blank_filter_hides_nothing_witness:
  "strip (le_text (book_filter (mw_init new_controller))) = []
   \<and> list_all Not (tw_hidden (table_books (mw_init new_controller)))
   \<and> list_all Not (tw_hidden (table_users (mw_init new_controller)))"
proof -
  have e: "strip (le_text (book_filter (mw_init new_controller))) = []"
    "strip (le_text (user_filter (mw_init new_controller))) = []"
    by (simp_all add: mw_init_def tab_books_def tab_users_def strip_def split: prod.split)
  show ?thesis using blank_filter_hides_nothing[OF view_reachable.start] e by simp
qed

theorem gui_loan_form_witness:
  "mw_tab (gui_view (gui_step (gui_init new_controller (qrect 0 0 1920 1040)) (ViewInput (SelectTab 2)))) = 2
   \<and> store (mw_controller (gui_view (gui_step (gui_step (gui_step
         (gui_step (gui_init new_controller (qrect 0 0 1920 1040)) (ViewInput (SelectTab 2)))
         (TypeText LoanUser '' U001'')) (TypeText LoanBook ''B001 '')) (Click BorrowBtn))))
     = snd (borrow_book (store (mw_controller (gui_view
         (gui_step (gui_init new_controller (qrect 0 0 1920 1040)) (ViewInput (SelectTab 2)))))) ''U001'' ''B001'')"
proof -
  have h: "mw_tab (gui_view (gui_step (gui_init new_controller (qrect 0 0 1920 1040)) (ViewInput (SelectTab 2)))) = 2"
    by simp
  have s: "strip '' U001'' = ''U001''" "strip ''B001 '' = ''B001''" by (simp_all add: strip_def py_space_def)
  show ?thesis using gui_loan_form[OF h, of "'' U001''" "''B001 ''"] h by (simp only: s) simp
qed

theorem sorted_fill_scrambles_witness:
  "get_books (window_init new_controller) \<noteq> [] \<and> sorted (map bk_id (get_books (window_init new_controller)))
   \<and> tw_table (table_books (mw_init new_controller))
     = map (\<lambda>b. id_row 6 (bk_id b)) (rev (tl (get_books (window_init new_controller))))
       @ [(Some (bk_id (hd (get_books (window_init new_controller))))
           # map Some (tl (book_row (last (get_books (window_init new_controller))))), False)]"
proof -
  have h: "get_books (window_init new_controller) \<noteq> []" "sorted (map bk_id (get_books (window_init new_controller)))"
    by (simp_all add: window_init_def get_books_def seed_sample_data_def new_controller_def make_controller_def
        store_eval less_eq_list_code)
  show ?thesis using h sorted_fill_scrambles[OF h] by (simp only: mw_init_tables window_init_def) simp
qed

theorem undo_borrow_jumps_queue_witness:
  "\<exists>b'. find_book (snd (undo_last queued_store)) ''B1'' = Some b' \<and> reservations b' = [''U2'']
     \<and> 0 < copies_available b' \<and> fst (borrow_book (snd (undo_last queued_store)) ''U1'' ''B1'') = Lent ''El Quijote'' ''Ana'' 0"
proof -
  have h: "undo_stack queued_store = [] @ [OpBorrow ''U1'' ''B1'']" "find_user queued_store ''U1'' = Some ana_holding"
    "''B1'' \<in> set (borrowed ana_holding)" "find_book queued_store ''B1'' = Some (quijote_out\<lparr>reservations := [''U2'']\<rparr>)"
    "reservations (quijote_out\<lparr>reservations := [''U2'']\<rparr>) \<noteq> []"
    "0 \<le> copies_available (quijote_out\<lparr>reservations := [''U2'']\<rparr>)"
    by (simp_all add: demo_lookup)
  show ?thesis using undo_borrow_jumps_queue[OF h h(2)]
    by (simp add: quijote_out_def quijote_def ana_holding_def mk_book_def mk_user_def)
qed

theorem empty_id_breaks_undo_history_witness:
  "reachable empty_id_store
   \<and> fst (undo_last (snd (return_book empty_id_store ''U1'' ''B1''))) = UndoNoCopy
   \<and> fst (undo_last (snd (undo_last (snd (return_book empty_id_store ''U1'' ''B1''))))) = UndoBorrowFailed
   \<and> \<not> undo_ok (snd (return_book empty_id_store ''U1'' ''B1''))"
proof -
  have r: "reachable empty_id_store" unfolding empty_id_store_def by (rule reachable_run_empty)
  have h: "undo_stack empty_id_store = [] @ [OpBorrow ''U1'' ''B1'']" "find_user empty_id_store ''U1'' = Some ana_holding"
      "''B1'' \<in> set (borrowed ana_holding)" "''B1'' \<notin> set (remove1 ''B1'' (borrowed ana_holding))" "''U1'' \<noteq> []"
      "find_book empty_id_store ''B1'' = Some (quijote_out\<lparr>reservations := ['''']\<rparr>)"
      "reservations (quijote_out\<lparr>reservations := ['''']\<rparr>) = '''' # []"
      "find_user empty_id_store '''' = Some (mk_user '''' ''Eva'' ''eva@example.com'')"
      "copies_available (quijote_out\<lparr>reservations := ['''']\<rparr>) = 0"
    by (simp_all add: demo_lookup ana_holding_def mk_user_def)
  show ?thesis using r empty_id_breaks_undo_history[OF h] by simp
qed

end
